(* ===== verification/Prelude.thy ===== *)
theory Prelude
  imports Complex_Main "HOL-Library.Word"
begin

text \<open>
  Shared vocabulary of the development: the machine integers and byte strings of the Go code,
  error values, panics, the retry loop (\<open>RETRY: ... goto RETRY\<close>) that several components
  use, the interfaces (locales) that more than one component states a contract with, and
  generic lemmas on lists.
\<close>

section \<open>Types\<close>

type_synonym byte = "8 word"
type_synonym bytes = "byte list"
type_synonym u32 = "32 word"
type_synonym u64 = "64 word"

text \<open>
  Errors are values. \<open>Ext\<close> is an error made by code outside the repository (its text),
  \<open>Errorf\<close> is \<open>fmt.Errorf\<close> around another error (its format text and the
  error it wraps); \<open>NotFound\<close> is \<open>leveldb.ErrNotFound\<close>, the one outside error the code
  compares with; the other constructors are the errors of the Go standard library that the code
  can meet.
\<close>

datatype go_error =
    EOF
  | UnexpectedEOF
  | HexInvalidByte char
  | HexLength
  | SyntaxError
  | RangeError
  | NotFound
  | TimeError string
  | JsonError string
  | Ext string
  | Text string
  | Errorf string go_error

text \<open>A run-time panic ends the goroutine; it is a result of its own.\<close>

datatype go_panic = IndexOutOfRange | SliceOutOfRange | TypeAssertion | CloseOfClosed | NilDereference | NilMapWrite
  | PanicError go_error

datatype 'a go = Ret 'a | Panic go_panic

primrec go_bind :: "'a go \<Rightarrow> ('a \<Rightarrow> 'b go) \<Rightarrow> 'b go" where
  "go_bind (Ret x) f = f x"
| "go_bind (Panic p) f = Panic p"

lemma go_bind_Ret_iff: "go_bind m f = Ret y \<longleftrightarrow> (\<exists>x. m = Ret x \<and> f x = Ret y)"
  by (cases m) simp_all

lemma go_bind_Panic_iff: "go_bind m f = Panic p \<longleftrightarrow> m = Panic p \<or> (\<exists>x. m = Ret x \<and> f x = Panic p)"
  by (cases m) simp_all

text \<open>\<open>xs[i]\<close>.\<close>

definition index :: "'a list \<Rightarrow> nat \<Rightarrow> 'a go" where
  "index xs i = (if i < length xs then Ret (xs ! i) else Panic IndexOutOfRange)"

text \<open>\<open>time.Second\<close>; a \<open>time.Duration\<close> counts nanoseconds in 64 bits.\<close>

definition second :: u64 where
  "second = 1000000000"

section \<open>Collections of facts\<close>

named_theorems codec_simps \<open>reading back what was written\<close>
named_theorems frame_simps \<open>fields an operation leaves alone\<close>

section \<open>Words as numbers\<close>

lemma unat_bounds [simp]:
  "unat (b :: 8 word) < 256" "unat (w :: 32 word) < 4294967296"
  "unat (x :: 64 word) < 18446744073709551616"
  using unsigned_less [of b, where 'a = nat] unsigned_less [of w, where 'a = nat]
    unsigned_less [of x, where 'a = nat] by simp_all

lemma of_nat_unat_inverse [codec_simps]:
  "n < 2 ^ LENGTH('a) \<Longrightarrow> unat (of_nat n :: 'a::len word) = n"
  by (simp add: unat_of_nat)

section \<open>The retry loop\<close>

text \<open>
  \<open>retry call again w\<close> calls a remote operation (a function of the state of the world)
  until a result comes that \<open>again\<close> does not ask to retry. \<open>None\<close>: it never
  returns.
\<close>

partial_function (option) retry ::
  "('w \<Rightarrow> 'r \<times> 'w) \<Rightarrow> ('r \<Rightarrow> bool) \<Rightarrow> 'w \<Rightarrow> ('r \<times> 'w) option" where
  "retry call again w =
     (case call w of (r, w') \<Rightarrow> if again r then retry call again w' else Some (r, w'))"

text \<open>The state of the world after \<open>n\<close> calls.\<close>

primrec after_calls :: "('w \<Rightarrow> 'r \<times> 'w) \<Rightarrow> nat \<Rightarrow> 'w \<Rightarrow> 'w" where
  "after_calls call 0 w = w"
| "after_calls call (Suc n) w = after_calls call n (snd (call w))"

lemma after_calls_Suc: "snd (call (after_calls call n w)) = after_calls call (Suc n) w"
  by (induction n arbitrary: w) simp_all

lemma retry_stop: "call w = (r, w') \<Longrightarrow> \<not> again r \<Longrightarrow> retry call again w = Some (r, w')"
  by (simp add: retry.simps)

lemma retry_again: "call w = (r, w') \<Longrightarrow> again r \<Longrightarrow> retry call again w = retry call again w'"
  by (subst retry.simps) simp

lemma retry_result:
  assumes "retry call again w = Some (r, w')"
  shows "\<not> again r \<and> (\<exists>u. call u = (r, w'))"
proof -
  have "\<not> again (fst p) \<and> (\<exists>u. call u = p)" if "retry call again w = Some p" for p
  proof (rule retry.raw_induct
      [where P = "\<lambda>call again w p. \<not> again (fst p) \<and> (\<exists>u. call u = p)", OF _ that])
    fix retry' :: "('w \<Rightarrow> 'r \<times> 'w) \<Rightarrow> ('r \<Rightarrow> bool) \<Rightarrow> 'w \<Rightarrow> ('r \<times> 'w) option"
      and call again w p
    assume IH: "\<And>c a u q. retry' c a u = Some q \<Longrightarrow> \<not> a (fst q) \<and> (\<exists>v. c v = q)"
      and eq: "(case call w of (r, w') \<Rightarrow> if again r then retry' call again w' else Some (r, w'))
                 = Some p"
    obtain r1 w1 where c: "call w = (r1, w1)" by force
    show "\<not> again (fst p) \<and> (\<exists>u. call u = p)"
    proof (cases "again r1")
      case True
      with eq c have "retry' call again w1 = Some p" by simp
      then show ?thesis by (rule IH)
    next
      case False
      with eq c show ?thesis by auto
    qed
  qed
  from this [OF assms] show ?thesis by simp
qed

lemma retry_after:
  assumes "\<forall>i < n. again (fst (call (after_calls call i w)))"
    and "call (after_calls call n w) = (r, w')" and "\<not> again r"
  shows "retry call again w = Some (r, w')"
  using assms
proof (induction n arbitrary: w)
  case 0
  then show ?case by (simp add: retry_stop)
next
  case (Suc n)
  obtain r0 w0 where c: "call w = (r0, w0)" by force
  have a: "again r0" using Suc.prems(1) c by (metis after_calls.simps(1) fst_conv zero_less_Suc)
  have "\<forall>i < n. again (fst (call (after_calls call i w0)))"
    using Suc.prems(1) c by (metis Suc_less_eq after_calls.simps(2) snd_conv)
  then have "retry call again w0 = Some (r, w')"
    using Suc.IH Suc.prems(2,3) c by simp
  with c a show ?case by (simp add: retry_again)
qed

lemma retry_None_forever:
  assumes "retry call again w = None"
  shows "again (fst (call (after_calls call n w)))"
proof (induction n rule: less_induct)
  case (less n)
  show ?case
  proof (rule ccontr)
    assume "\<not> again (fst (call (after_calls call n w)))"
    with less have "\<exists>r w'. retry call again w = Some (r, w')"
      by (metis prod.collapse retry_after)
    with assms show False by simp
  qed
qed

lemma retry_diverges:
  assumes inv: "P w" and step: "\<And>u. P u \<Longrightarrow> again (fst (call u)) \<and> P (snd (call u))"
  shows "retry call again w = None"
proof (cases "retry call again w")
  case (Some p)
  have "c = call \<longrightarrow> a = again \<longrightarrow> \<not> P u" if "retry c a u = Some q" for c a u q
  proof (rule retry.raw_induct
      [where P = "\<lambda>c a u q. c = call \<longrightarrow> a = again \<longrightarrow> \<not> P u", OF _ that])
    fix retry' c a u q
    assume IH: "\<And>c a u q. retry' c a u = Some q \<Longrightarrow> c = call \<longrightarrow> a = again \<longrightarrow> \<not> P u"
      and eq: "(case c u of (r, w') \<Rightarrow> if a r then retry' c a w' else Some (r, w')) = Some q"
    show "c = call \<longrightarrow> a = again \<longrightarrow> \<not> P u"
    proof (intro impI notI)
      assume ca: "c = call" "a = again" and pu: "P u"
      obtain r1 w1 where c: "call u = (r1, w1)" by force
      with step [OF pu] have "again r1" and pw: "P w1" by simp_all
      with eq c ca have "retry' call again w1 = Some q" by simp
      with IH have "\<not> P w1" by blast
      with pw show False by simp
    qed
  qed
  with Some inv show ?thesis by blast
qed simp

text \<open>
  The calls of a loop that returns: what every repeated call keeps holds before the last call, and what
  every call keeps holds after it.
\<close>

lemma retry_steps:
  assumes "retry call again w = Some (r, w')" and "P w"
    and step: "\<And>u r u'. P u \<Longrightarrow> call u = (r, u') \<Longrightarrow> again r \<Longrightarrow> P u'"
  obtains u where "P u" "call u = (r, w')" "\<not> again r"
proof -
  have "\<exists>n. \<not> again (fst (call (after_calls call n w)))"
    using assms(1) retry_diverges [of "\<lambda>u. \<exists>n. u = after_calls call n w" w again call]
    by (metis after_calls_Suc after_calls.simps(1) option.distinct(1))
  then obtain n where n: "\<not> again (fst (call (after_calls call n w)))"
    "\<forall>i < n. again (fst (call (after_calls call i w)))"
    using exists_least_iff [of "\<lambda>n. \<not> again (fst (call (after_calls call n w)))"] by blast
  have "P (after_calls call m w)" if "m \<le> n" for m
    using that
  proof (induction m)
    case (Suc m)
    with n(2) have "P (after_calls call m w)" "again (fst (call (after_calls call m w)))" by simp_all
    with step [OF _ prod.collapse [symmetric]] show ?case by (simp only: after_calls_Suc [symmetric])
  qed (simp add: assms(2))
  moreover have "call (after_calls call n w) = (r, w')"
    using retry_after [OF n(2) prod.collapse [symmetric] n(1)] assms(1) by simp
  ultimately show thesis using that [of "after_calls call n w"] n(1) by simp
qed

lemma retry_closed:
  assumes "retry call again w = Some (r, w')" and "P w" and step: "\<And>u. P u \<Longrightarrow> P (snd (call u))"
  shows "P w'"
  by (rule retry_steps [where P = P, OF assms(1,2)]) (metis step snd_conv)+

section \<open>Runs\<close>

text \<open>
  A component that is driven by a list of operations: an invariant every good operation keeps
  holds after any run of good operations.
\<close>

locale run_system =
  fixes step :: "'s \<Rightarrow> 'op \<Rightarrow> 's"
    and invar :: "'s \<Rightarrow> bool"
    and good :: "'op \<Rightarrow> bool"
  assumes step_invar: "invar s \<Longrightarrow> good op \<Longrightarrow> invar (step s op)"
begin

lemma run_invar: "invar s \<Longrightarrow> list_all good ops \<Longrightarrow> invar (foldl step s ops)"
  by (induction ops arbitrary: s) (simp_all add: step_invar)

text \<open>What a good operation cannot undo stays so during a run.\<close>

lemma run_stable:
  assumes stable: "\<And>s op. invar s \<Longrightarrow> good op \<Longrightarrow> Q s \<Longrightarrow> Q (step s op)"
    and "invar s" "list_all good ops" "Q s"
  shows "Q (foldl step s ops)"
  using assms(2-4) by (induction ops arbitrary: s) (simp_all add: stable step_invar)

text \<open>A simulation of single operations is a simulation of runs.\<close>

lemma run_simulation:
  assumes sim: "\<And>s op. invar s \<Longrightarrow> good op \<Longrightarrow> f (step s op) = fstep (f s) op"
    and "invar s" "list_all good ops"
  shows "f (foldl step s ops) = foldl fstep (f s) ops"
  using assms(2,3) by (induction ops arbitrary: s) (simp_all add: sim step_invar)

end

end
