(* ===== verification/Go_Bytes.thy ===== *)
theory Go_Bytes
  imports Prelude
begin

unbundle bit_operations_syntax

text \<open>
  What the program uses of Go's \<open>encoding/binary\<close> (big endian), \<open>bytes.Reader\<close> and
  \<open>encoding/hex\<close>, and the interface (the locale \<open>wire_codec\<close>) every fixed layout
  of bytes is proved to meet.
\<close>

section \<open>Big-endian integers\<close>

text \<open>The last \<open>k\<close> bytes of a word, most significant first.\<close>

primrec be_bytes :: "nat \<Rightarrow> 'a::len word \<Rightarrow> bytes" where
  "be_bytes 0 w = []"
| "be_bytes (Suc k) w = be_bytes k (drop_bit 8 w) @ [ucast w]"

definition be_word :: "bytes \<Rightarrow> 'a::len word" where
  "be_word bs = foldl (\<lambda>acc b. push_bit 8 acc OR ucast b) 0 bs"

lemma length_be_bytes [simp]: "length (be_bytes k w) = k"
  by (induction k arbitrary: w) simp_all

lemma be_word_Nil [simp]: "be_word [] = 0"
  by (simp add: be_word_def)

lemma be_word_snoc [simp]: "be_word (bs @ [b]) = push_bit 8 (be_word bs) OR ucast b"
  by (simp add: be_word_def)

lemma push_take_8:
  fixes w :: "'a::len word"
  shows "push_bit 8 (take_bit n (drop_bit 8 w)) OR ucast (ucast w :: byte) = take_bit (n + 8) w"
  by (rule bit_word_eqI)
    (auto simp: bit_or_iff bit_push_bit_iff bit_take_bit_iff bit_drop_bit_eq bit_ucast_iff not_less
      dest: bit_imp_le_length)

lemma be_word_be_bytes: "be_word (be_bytes k w) = take_bit (8 * k) (w :: 'a::len word)"
  by (induction k arbitrary: w) (simp_all add: push_take_8 add.commute)

lemma take_bit_word_full: "LENGTH('a) \<le> n \<Longrightarrow> take_bit n (w :: 'a::len word) = w"
  by (rule bit_word_eqI) (auto simp: bit_take_bit_iff dest: bit_imp_le_length)

lemma be_word_full [codec_simps]:
  "LENGTH('a) \<le> 8 * k \<Longrightarrow> be_word (be_bytes k w) = (w :: 'a::len word)"
  by (simp add: be_word_be_bytes take_bit_word_full)

lemma drop_push_byte:
  fixes w :: "'a::len word"
  assumes "take_bit n w = w" "n + 8 \<le> LENGTH('a)"
  shows "drop_bit 8 (push_bit 8 w OR ucast (b :: byte)) = w"
    and "ucast (push_bit 8 w OR ucast b) = b"
    and "take_bit (n + 8) (push_bit 8 w OR ucast b) = push_bit 8 w OR ucast b"
proof -
  have w: "i < n" if "bit w i" for i
    using assms(1) that by (metis bit_take_bit_iff)
  show "drop_bit 8 (push_bit 8 w OR ucast b) = w"
    by (rule bit_word_eqI)
      (use assms(2) in \<open>auto simp: bit_or_iff bit_push_bit_iff bit_drop_bit_eq bit_ucast_iff
        dest: bit_imp_le_length w\<close>)
  show "ucast (push_bit 8 w OR ucast b) = b"
    by (rule bit_word_eqI)
      (use assms(2) in \<open>auto simp: bit_or_iff bit_push_bit_iff bit_ucast_iff\<close>)
  show "take_bit (n + 8) (push_bit 8 w OR ucast b) = push_bit 8 w OR ucast b"
    by (rule bit_word_eqI)
      (use assms(2) in \<open>auto simp: bit_or_iff bit_push_bit_iff bit_take_bit_iff bit_ucast_iff
        dest: bit_imp_le_length w\<close>)
qed

lemma be_bytes_be_word:
  "8 * length bs \<le> LENGTH('a) \<Longrightarrow>
     be_bytes (length bs) (be_word bs :: 'a::len word) = bs
     \<and> take_bit (8 * length bs) (be_word bs :: 'a word) = be_word bs"
proof (induction bs rule: rev_induct)
  case (snoc b bs)
  then have IH: "be_bytes (length bs) (be_word bs :: 'a word) = bs"
    "take_bit (8 * length bs) (be_word bs :: 'a word) = be_word bs" by simp_all
  have le: "8 * length bs + 8 \<le> LENGTH('a)" using snoc.prems by simp
  show ?case
    using drop_push_byte [OF IH(2) le, of b] IH(1) by (simp add: add.commute)
qed simp

section \<open>bytes.Reader and binary.Read\<close>

text \<open>
  A reader is the list of the bytes not read yet. \<open>binary.Read\<close> of a fixed-size value is
  \<open>io.ReadFull\<close>: no byte at all is \<open>EOF\<close>, too few are
  \<open>ErrUnexpectedEOF\<close>. \<open>bytes.Reader.Read\<close> into a fresh slice of length \<open>n\<close>
  is different: it fails only on an exhausted reader, and a short read leaves the rest of the
  slice zero and reports no error.
\<close>

definition read_full :: "nat \<Rightarrow> bytes \<Rightarrow> go_error + bytes \<times> bytes" where
  "read_full n r = (if r = [] then Inl EOF else if length r < n then Inl UnexpectedEOF
                    else Inr (take n r, drop n r))"

definition reader_read :: "nat \<Rightarrow> bytes \<Rightarrow> go_error + bytes \<times> bytes" where
  "reader_read n r = (if r = [] then Inl EOF
                      else Inr (take n r @ replicate (n - length r) 0, drop n r))"

definition write_u32 :: "u32 \<Rightarrow> bytes" where
  "write_u32 v = be_bytes 4 v"

definition write_u64 :: "u64 \<Rightarrow> bytes" where
  "write_u64 v = be_bytes 8 v"

definition write_bool :: "bool \<Rightarrow> bytes" where
  "write_bool b = [if b then 1 else 0]"

definition read_u32 :: "bytes \<Rightarrow> go_error + u32 \<times> bytes" where
  "read_u32 r = (case read_full 4 r of Inl e \<Rightarrow> Inl e | Inr (b, r') \<Rightarrow> Inr (be_word b, r'))"

definition read_u64 :: "bytes \<Rightarrow> go_error + u64 \<times> bytes" where
  "read_u64 r = (case read_full 8 r of Inl e \<Rightarrow> Inl e | Inr (b, r') \<Rightarrow> Inr (be_word b, r'))"

definition read_bool :: "bytes \<Rightarrow> go_error + bool \<times> bytes" where
  "read_bool r = (case read_full 1 r of Inl e \<Rightarrow> Inl e | Inr (b, r') \<Rightarrow> Inr (hd b \<noteq> 0, r'))"

lemma length_writes [simp]:
  "length (write_u32 v) = 4" "length (write_u64 x) = 8" "length (write_bool b) = 1"
  by (simp_all add: write_u32_def write_u64_def write_bool_def)

lemma writes_not_Nil [simp]: "write_u32 v \<noteq> []" "write_u64 x \<noteq> []" "write_bool b \<noteq> []"
  by (simp_all add: write_bool_def flip: length_greater_0_conv)

lemma read_full_exact [codec_simps]: "length b = n \<Longrightarrow> 0 < n \<Longrightarrow> read_full n (b @ r) = Inr (b, r)"
  by (auto simp: read_full_def)

lemma read_full_Inr: "read_full n r = Inr (b, r') \<longleftrightarrow> r \<noteq> [] \<and> n \<le> length r \<and> b = take n r \<and> r' = drop n r"
  by (auto simp: read_full_def)

lemma reader_read_exact [codec_simps]:
  "length b = n \<Longrightarrow> b @ r \<noteq> [] \<Longrightarrow> reader_read n (b @ r) = Inr (b, r)"
  by (auto simp: reader_read_def)

text \<open>A short read exhausts the reader, so whatever is read next fails.\<close>

lemma reader_read_rest:
  "reader_read n r = Inr (b, r') \<Longrightarrow> r' \<noteq> [] \<Longrightarrow> r = b @ r' \<and> length b = n"
  by (auto simp: reader_read_def split: if_splits)

lemma length_reader_read: "reader_read n r = Inr (b, r') \<Longrightarrow> length b = n"
  by (auto simp: reader_read_def split: if_splits)

section \<open>The interface of a fixed byte layout\<close>

text \<open>
  What the message formats rely on for the values they are made of: a value is read back and
  the reader stands right behind it.
\<close>

locale wire_codec =
  fixes enc :: "'a \<Rightarrow> bytes"
    and dec :: "bytes \<Rightarrow> go_error + 'a \<times> bytes"
  assumes dec_enc: "dec (enc x @ r) = Inr (x, r)"
begin

lemma enc_uniquely_readable: "enc x @ r = enc y @ s \<Longrightarrow> x = y \<and> r = s"
  by (metis dec_enc prod.inject sum.inject(2))

lemma enc_inject: "enc x = enc y \<Longrightarrow> x = y"
  using enc_uniquely_readable [of x "[]" y "[]"] by simp

text \<open>Reading a counted sequence of values, in order.\<close>

primrec dec_list :: "nat \<Rightarrow> bytes \<Rightarrow> go_error + 'a list \<times> bytes" where
  "dec_list 0 r = Inr ([], r)"
| "dec_list (Suc n) r = (case dec r of Inl e \<Rightarrow> Inl e
     | Inr (x, r') \<Rightarrow> (case dec_list n r' of Inl e \<Rightarrow> Inl e | Inr (xs, r'') \<Rightarrow> Inr (x # xs, r'')))"

lemma dec_list_concat: "dec_list (length xs) (concat (map enc xs) @ r) = Inr (xs, r)"
  by (induction xs) (simp_all add: dec_enc)

end

text \<open>A layout is exact when nothing but the encoding of a value is read as that value.\<close>

locale exact_codec = wire_codec +
  assumes dec_exact: "dec s = Inr (x, r) \<Longrightarrow> s = enc x @ r"
begin

lemma dec_iff: "dec s = Inr (x, r) \<longleftrightarrow> s = enc x @ r"
  using dec_exact dec_enc by blast

lemma dec_list_exact: "dec_list n s = Inr (xs, r) \<Longrightarrow> length xs = n \<and> s = concat (map enc xs) @ r"
proof (induction n arbitrary: s xs r)
  case (Suc n)
  then show ?case by (fastforce split: sum.splits prod.splits dest: dec_exact)
qed simp

end

lemma be_word_take:
  assumes "n \<le> length r" "8 * n = LENGTH('a)"
  shows "r = be_bytes n (be_word (take n r) :: 'a::len word) @ drop n r"
proof -
  have "length (take n r) = n" using assms(1) by simp
  then have "be_bytes n (be_word (take n r) :: 'a word) = take n r"
    using be_bytes_be_word [of "take n r", where 'a = 'a] assms(2) by simp
  then show ?thesis by simp
qed

interpretation u32c: exact_codec write_u32 read_u32
proof
  show "read_u32 (write_u32 x @ r) = Inr (x, r)" for x r
    by (simp add: read_u32_def write_u32_def codec_simps)
  show "s = write_u32 x @ r" if "read_u32 s = Inr (x, r)" for s x r
    using that be_word_take [of 4 s, where 'a = 32]
    by (auto simp: read_u32_def write_u32_def read_full_Inr split: sum.splits)
qed

interpretation u64c: exact_codec write_u64 read_u64
proof
  show "read_u64 (write_u64 x @ r) = Inr (x, r)" for x r
    by (simp add: read_u64_def write_u64_def codec_simps)
  show "s = write_u64 x @ r" if "read_u64 s = Inr (x, r)" for s x r
    using that be_word_take [of 8 s, where 'a = 64]
    by (auto simp: read_u64_def write_u64_def read_full_Inr split: sum.splits)
qed

interpretation boolc: wire_codec write_bool read_bool
  by unfold_locales (auto simp: read_bool_def write_bool_def read_full_def)

lemmas wire_reads [codec_simps] = u32c.dec_enc u64c.dec_enc boolc.dec_enc

end
