(* ===== verification/Go_Strings.thy ===== *)
theory Go_Strings
  imports Go_Bytes
begin

text \<open>
  What the program uses of Go's \<open>encoding/hex\<close>, \<open>strconv\<close> and \<open>strings\<close>. A Go
  string is its list of bytes, written as characters; \<open>bytes_of\<close> and \<open>string_of\<close>
  are the conversions \<open>[]byte(s)\<close> and \<open>string(b)\<close>.
\<close>

section \<open>Strings and byte slices\<close>

definition bytes_of :: "string \<Rightarrow> bytes" where
  "bytes_of s = map (\<lambda>c. of_nat (of_char c)) s"

definition string_of :: "bytes \<Rightarrow> string" where
  "string_of b = map (\<lambda>x. char_of (unat x)) b"

lemma string_of_bytes_of [codec_simps]: "string_of (bytes_of s) = s"
proof -
  have "(of_char c :: nat) < 256" for c
    by simp
  then show ?thesis
    by (simp add: string_of_def bytes_of_def o_def unat_of_nat)
qed

lemma bytes_of_string_of [codec_simps]: "bytes_of (string_of b) = b"
proof -
  have "of_nat (of_char (char_of (unat x))) = x" for x :: byte
  proof -
    show ?thesis by (simp add: take_bit_nat_eq_self)
  qed
  then show ?thesis by (simp add: string_of_def bytes_of_def o_def)
qed

lemma length_bytes_of [simp]: "length (bytes_of s) = length s"
  by (simp add: bytes_of_def)

lemma bytes_of_append: "bytes_of (s @ t) = bytes_of s @ bytes_of t"
  by (simp add: bytes_of_def)

lemma bytes_of_inject: "bytes_of s = bytes_of t \<longleftrightarrow> s = t"
  by (metis string_of_bytes_of)

section \<open>encoding/hex\<close>

definition hex_digit :: "nat \<Rightarrow> char" where
  "hex_digit n = ''0123456789abcdef'' ! n"

definition hex_encode :: "bytes \<Rightarrow> string" where
  "hex_encode bs = concat (map (\<lambda>b. [hex_digit (unat (drop_bit 4 b)), hex_digit (unat (b AND 15))]) bs)"

definition from_hex_char :: "char \<Rightarrow> byte option" where
  "from_hex_char c = (let n = of_char c :: nat in
     if 48 \<le> n \<and> n \<le> 57 then Some (of_nat (n - 48))
     else if 97 \<le> n \<and> n \<le> 102 then Some (of_nat (n - 97 + 10))
     else if 65 \<le> n \<and> n \<le> 70 then Some (of_nat (n - 65 + 10))
     else None)"

fun hex_decode :: "string \<Rightarrow> go_error + bytes" where
  "hex_decode [] = Inr []"
| "hex_decode [c] = (case from_hex_char c of None \<Rightarrow> Inl (HexInvalidByte c) | Some _ \<Rightarrow> Inl HexLength)"
| "hex_decode (c # d # s) =
     (case from_hex_char c of None \<Rightarrow> Inl (HexInvalidByte c)
      | Some a \<Rightarrow> (case from_hex_char d of None \<Rightarrow> Inl (HexInvalidByte d)
      | Some b \<Rightarrow> (case hex_decode s of Inl e \<Rightarrow> Inl e
      | Inr bs \<Rightarrow> Inr ((push_bit 4 a OR b) # bs))))"

lemma from_hex_hex_digit: "n < 16 \<Longrightarrow> from_hex_char (hex_digit n) = Some (of_nat n)"
proof -
  have "\<forall>n \<in> set [0..<16]. from_hex_char (hex_digit n) = Some (of_nat n)"
    by (simp add: upt_rec from_hex_char_def hex_digit_def Let_def)
  then show "n < 16 \<Longrightarrow> ?thesis" by simp
qed

lemma nibbles:
  "unat (drop_bit 4 (b :: byte)) < 16" "unat (b AND 15) < 16"
  "push_bit 4 (drop_bit 4 b) OR (b AND 15) = b"
proof -
  have "unat (drop_bit 4 b) = unat b div 16" by (simp add: unat_drop_bit_eq drop_bit_eq_div unat_div)
  then show "unat (drop_bit 4 b) < 16" using unat_bounds(1) [of b] by (simp add: less_mult_imp_div_less)
  have "unat (b AND 15) \<le> unat (15 :: byte)"
    using word_and_le1 [of b 15] by (simp add: word_le_nat_alt)
  then show "unat (b AND 15) < 16" by simp
  have "b AND 15 = take_bit 4 b" by (simp add: take_bit_eq_mask mask_eq_exp_minus_1)
  then show "push_bit 4 (drop_bit 4 b) OR (b AND 15) = b"
    by (simp add: bit_eq_iff bit_or_iff bit_push_bit_iff bit_drop_bit_eq bit_take_bit_iff)
      (metis le_add_diff_inverse not_less)
qed

lemma hex_decode_encode [codec_simps]: "hex_decode (hex_encode bs) = Inr bs"
  by (induction bs) (simp_all add: hex_encode_def from_hex_hex_digit nibbles)

lemma length_hex_encode [simp]: "length (hex_encode bs) = 2 * length bs"
  by (induction bs) (simp_all add: hex_encode_def)

lemma hex_decode_length: "hex_decode s = Inr bs \<Longrightarrow> length s = 2 * length bs"
  by (induction s arbitrary: bs rule: hex_decode.induct) (auto split: option.splits sum.splits)

section \<open>strconv\<close>

definition digit_value :: "char \<Rightarrow> nat option" where
  "digit_value c = (let n = of_char c :: nat in if 48 \<le> n \<and> n \<le> 57 then Some (n - 48) else None)"

text \<open>
  \<open>strconv.ParseUint(s, 10, bits)\<close>: every character is a digit below the base, the
  product may not pass the cutoff \<open>maxUint64/10 + 1\<close>, the sum may neither wrap nor pass
  \<open>1<<bits - 1\<close>.
\<close>

fun parse_digits :: "nat \<Rightarrow> u64 \<Rightarrow> string \<Rightarrow> go_error + u64" where
  "parse_digits bits n [] = Inr n"
| "parse_digits bits n (c # s) =
     (case digit_value c of None \<Rightarrow> Inl SyntaxError
      | Some d \<Rightarrow>
          (if 1844674407370955162 \<le> n then Inl RangeError
           else let m = n * 10; n1 = m + of_nat d in
             if n1 < m \<or> mask bits < n1 then Inl RangeError else parse_digits bits n1 s))"

definition parse_uint :: "nat \<Rightarrow> string \<Rightarrow> go_error + u64" where
  "parse_uint bits s = (if s = [] then Inl SyntaxError else parse_digits bits 0 s)"

text \<open>\<open>strconv.ParseInt(s, 10, 64)\<close>; the result is the two's complement word.\<close>

definition parse_int :: "string \<Rightarrow> go_error + u64" where
  "parse_int s =
     (if s = [] then Inl SyntaxError
      else let neg = (hd s = CHR ''-'');
               s' = (if hd s = CHR ''-'' \<or> hd s = CHR ''+'' then tl s else s)
           in case parse_uint 64 s' of Inl e \<Rightarrow> Inl e
              | Inr un \<Rightarrow> if \<not> neg \<and> 2 ^ 63 \<le> un then Inl RangeError
                          else if neg \<and> 2 ^ 63 < un then Inl RangeError
                          else Inr (if neg then - un else un))"

fun format_nat :: "nat \<Rightarrow> string" where
  "format_nat n = (if n < 10 then [char_of (48 + n)] else format_nat (n div 10) @ [char_of (48 + n mod 10)])"

declare format_nat.simps [simp del]

definition format_uint :: "u64 \<Rightarrow> string" where
  "format_uint v = format_nat (unat v)"

text \<open>The number a string of digits denotes.\<close>

definition all_digits :: "string \<Rightarrow> bool" where
  "all_digits s \<longleftrightarrow> list_all (\<lambda>c. digit_value c \<noteq> None) s"

definition digits_from :: "nat \<Rightarrow> string \<Rightarrow> nat" where
  "digits_from n s = foldl (\<lambda>acc c. 10 * acc + the (digit_value c)) n s"

lemma digits_from_simps [simp]:
  "digits_from n [] = n"
  "digits_from n (c # s) = digits_from (10 * n + the (digit_value c)) s"
  "digits_from n (s @ t) = digits_from (digits_from n s) t"
  by (simp_all add: digits_from_def)

lemma digits_from_ge: "n \<le> digits_from n s"
proof (induction s arbitrary: n)
  case (Cons c s)
  have "n \<le> 10 * n + the (digit_value c)" by simp
  also have "\<dots> \<le> digits_from (10 * n + the (digit_value c)) s" by (rule Cons.IH)
  finally show ?case by simp
qed simp

lemma digit_value_less: "digit_value c = Some d \<Longrightarrow> d < 10"
  by (auto simp: digit_value_def Let_def split: if_splits)

text \<open>One step of the loop in terms of the numbers the words stand for.\<close>

lemma parse_step:
  fixes n :: u64
  assumes "d < 10" and "bits \<le> 64" and "unat n < 2 ^ bits"
  shows "(1844674407370955162 \<le> n \<or> n * 10 + of_nat d < n * 10 \<or> mask bits < n * 10 + of_nat d)
           \<longleftrightarrow> 2 ^ bits \<le> 10 * unat n + d"
    and "10 * unat n + d < 2 ^ bits \<Longrightarrow> unat (n * 10 + of_nat d) = 10 * unat n + d"
proof -
  have b64: "(2 :: nat) ^ bits \<le> 2 ^ 64" using assms(2) by (rule power_increasing) simp
  have "unat (mask bits :: u64) = nat (uint (mask bits :: u64))" by (simp only: nat_uint_eq)
  also have "\<dots> = nat (mask bits)" using assms(2) by (simp add: uint_mask_eq min_def)
  finally have mask: "unat (mask bits :: u64) = 2 ^ bits - 1"
    by (simp add: mask_eq_exp_minus_1 nat_diff_distrib nat_power_eq)
  have cut: "1844674407370955162 \<le> n \<longleftrightarrow> 1844674407370955162 \<le> unat n"
    by (simp add: word_le_nat_alt)
  have wrap: "(x + d) mod M < x \<longleftrightarrow> M \<le> x + d" if "x < M" "d < M" for x M d :: nat
    using that by (cases "x + d < M") (auto simp: mod_if)
  have bound: "M \<le> x \<or> K \<le> x mod M \<longleftrightarrow> K \<le> x" if "K \<le> M" for x K M :: nat
    using that by (cases "x < M") auto
  have small: "unat (n * 10) = 10 * unat n"
    and sum: "unat (n * 10 + of_nat d) = (10 * unat n + d) mod 2 ^ 64"
    if "unat n < 1844674407370955162"
  proof -
    show m: "unat (n * 10) = 10 * unat n"
      using that by (simp add: unat_word_ariths)
    have "unat (of_nat d :: u64) = d" using assms(1) by (simp add: unat_of_nat)
    then show "unat (n * 10 + of_nat d) = (10 * unat n + d) mod 2 ^ 64"
      using m by (simp add: unat_word_ariths(1))
  qed
  show "10 * unat n + d < 2 ^ bits \<Longrightarrow> unat (n * 10 + of_nat d) = 10 * unat n + d"
    using sum b64 by simp
  show "(1844674407370955162 \<le> n \<or> n * 10 + of_nat d < n * 10 \<or> mask bits < n * 10 + of_nat d)
           \<longleftrightarrow> 2 ^ bits \<le> 10 * unat n + d"
  proof (cases "unat n < 1844674407370955162")
    case True
    have lt: "n * 10 + of_nat d < n * 10 \<longleftrightarrow> 2 ^ 64 \<le> 10 * unat n + d"
      using wrap [of "10 * unat n" "2 ^ 64" d] small [OF True] sum [OF True] assms(1) True
      by (simp add: word_less_nat_alt)
    have "mask bits < n * 10 + of_nat d \<longleftrightarrow> 2 ^ bits \<le> (10 * unat n + d) mod 2 ^ 64"
      unfolding word_less_nat_alt sum [OF True] mask using zero_less_power [of "2 :: nat" bits] by linarith
    moreover have "\<not> 1844674407370955162 \<le> n" using cut True by simp
    ultimately show ?thesis unfolding lt using bound [OF b64, of "10 * unat n + d"] by blast
  next
    case False
    then show ?thesis using cut b64 by simp
  qed
qed

lemma parse_digits_Inr:
  fixes n :: u64
  assumes "bits \<le> 64" and "unat n < 2 ^ bits"
  shows "parse_digits bits n s = Inr v
           \<longleftrightarrow> all_digits s \<and> digits_from (unat n) s < 2 ^ bits \<and> unat v = digits_from (unat n) s"
  using assms
proof (induction s arbitrary: n)
  case Nil
  then show ?case by (auto simp: all_digits_def word_unat_eq_iff)
next
  case (Cons c s)
  show ?case
  proof (cases "digit_value c")
    case None
    then show ?thesis by (simp add: all_digits_def)
  next
    case (Some d)
    have d: "d < 10" using Some by (rule digit_value_less)
    note step = parse_step [OF d Cons.prems]
    show ?thesis
    proof (cases "2 ^ bits \<le> 10 * unat n + d")
      case True
      then have "2 ^ bits \<le> digits_from (10 * unat n + d) s"
        using digits_from_ge order.trans by blast
      with step(1) True Some show ?thesis by (auto simp: Let_def all_digits_def)
    next
      case False
      then have u: "unat (n * 10 + of_nat d) = 10 * unat n + d" using step(2) by simp
      with False have "unat (n * 10 + of_nat d) < 2 ^ bits" by simp
      from Cons.IH [OF Cons.prems(1) this] step(1) False Some u
      show ?thesis by (simp add: Let_def all_digits_def)
    qed
  qed
qed

text \<open>The word loop computes exactly the numbers below \<open>2 ^ bits\<close>: the cutoff is right.\<close>

lemma parse_uint_Inr:
  assumes "bits \<le> 64"
  shows "parse_uint bits s = Inr v
           \<longleftrightarrow> s \<noteq> [] \<and> all_digits s \<and> digits_from 0 s < 2 ^ bits \<and> v = of_nat (digits_from 0 s)"
proof -
  have b64: "(2 :: nat) ^ bits \<le> 2 ^ 64" using assms by (rule power_increasing) simp
  have "unat v = digits_from 0 s \<longleftrightarrow> v = of_nat (digits_from 0 s)" if "digits_from 0 s < 2 ^ bits"
  proof
    assume "v = of_nat (digits_from 0 s)"
    with that b64 show "unat v = digits_from 0 s" by (simp add: unat_of_nat)
  qed (metis of_nat_unat ucast_id)
  then show ?thesis
    using parse_digits_Inr [OF assms, of 0 s v] by (auto simp: parse_uint_def)
qed

lemma digit_value_format: "n < 10 \<Longrightarrow> digit_value (char_of (48 + n)) = Some n"
  by (simp add: digit_value_def Let_def take_bit_nat_eq_self)

lemma format_nat_value:
  "format_nat n \<noteq> [] \<and> all_digits (format_nat n) \<and> digits_from 0 (format_nat n) = n"
proof (induction n rule: format_nat.induct)
  case (1 n)
  show ?case
  proof (cases "n < 10")
    case True
    then show ?thesis
      by (subst (1 2 3) format_nat.simps) (simp add: all_digits_def digit_value_format)
  next
    case False
    with 1 show ?thesis
      by (subst (1 2 3) format_nat.simps) (simp add: all_digits_def digit_value_format)
  qed
qed

lemma parse_uint_format [codec_simps]:
  assumes "bits \<le> 64" and "unat v < 2 ^ bits"
  shows "parse_uint bits (format_uint v) = Inr v"
  using assms format_nat_value [of "unat v"] by (simp add: parse_uint_Inr format_uint_def)

section \<open>strings\<close>

text \<open>\<open>strings.TrimFunc\<close> for a predicate on ASCII characters.\<close>

definition trim_func :: "(char \<Rightarrow> bool) \<Rightarrow> string \<Rightarrow> string" where
  "trim_func p s = rev (dropWhile p (rev (dropWhile p s)))"

lemma trim_func_id: "\<forall>c \<in> set s. \<not> p c \<Longrightarrow> trim_func p s = s"
proof -
  have "dropWhile p t = t" if "\<forall>c \<in> set t. \<not> p c" for t
    using that by (cases t) simp_all
  then show "\<forall>c \<in> set s. \<not> p c \<Longrightarrow> ?thesis" by (metis rev_rev_ident set_rev trim_func_def)
qed

text \<open>\<open>strings.Split(s, ",")\<close>: the pieces between the commas, at least one.\<close>

fun split_comma :: "string \<Rightarrow> string list" where
  "split_comma [] = [[]]"
| "split_comma (c # s) =
     (if c = CHR '','' then [] # split_comma s
      else case split_comma s of [] \<Rightarrow> [[c]] | p # ps \<Rightarrow> (c # p) # ps)"

lemma split_comma_not_Nil [simp]: "split_comma s \<noteq> []"
  by (induction s) (auto split: list.splits)

lemma split_comma_pieces: "p \<in> set (split_comma s) \<Longrightarrow> CHR '','' \<notin> set p"
  by (induction s arbitrary: p) (auto split: list.splits if_splits)

lemma split_comma_join:
  "\<forall>p \<in> set (q # qs). CHR '','' \<notin> set p \<Longrightarrow>
     split_comma (q @ concat (map (\<lambda>p. CHR '','' # p) qs)) = q # qs"
proof (induction q)
  case Nil
  show ?case
    using Nil
  proof (induction qs)
    case (Cons p qs)
    have "split_comma (p @ concat (map (\<lambda>p. CHR '','' # p) qs)) = p # qs"
      using Cons
    proof (induction p)
      case (Cons c p)
      then show ?case by (auto split: list.splits)
    qed simp
    then show ?case by simp
  qed simp
next
  case (Cons c q)
  then show ?case by auto
qed

text \<open>\<open>strings.Replace(s, "0x", "", 1)\<close>: the first occurrence goes, wherever it is.\<close>

fun remove_0x :: "string \<Rightarrow> string" where
  "remove_0x (c # d # s) =
     (if c = CHR ''0'' \<and> d = CHR ''x'' then s else c # remove_0x (d # s))"
| "remove_0x s = s"

text \<open>
  \<open>strings.TrimSpace\<close>: leading and trailing Unicode white space, as the UTF-8 bytes of the
  25 white-space code points.
\<close>

definition space_seqs :: "string list" where
  "space_seqs =
     map (map char_of)
       ([[9], [10], [11], [12], [13], [32], [194, 133], [194, 160], [225, 154, 128]]
        @ map (\<lambda>i. [226, 128, i]) [128 ..< 139]
        @ [[226, 128, 168], [226, 128, 169], [226, 128, 175], [226, 129, 159], [227, 128, 128 :: nat]])"

fun drop_prefixes :: "string list \<Rightarrow> nat \<Rightarrow> string \<Rightarrow> string" where
  "drop_prefixes ps 0 s = s"
| "drop_prefixes ps (Suc n) s =
     (case find (\<lambda>p. take (length p) s = p) ps of None \<Rightarrow> s
      | Some p \<Rightarrow> drop_prefixes ps n (drop (length p) s))"

definition trim_space :: "string \<Rightarrow> string" where
  "trim_space s =
     (let t = drop_prefixes space_seqs (length s) s
      in rev (drop_prefixes (map rev space_seqs) (length t) (rev t)))"

text \<open>A text of printable ASCII characters has no white space to trim.\<close>

definition printable :: "char \<Rightarrow> bool" where
  "printable c \<longleftrightarrow> 33 \<le> (of_char c :: nat) \<and> (of_char c :: nat) < 128"

lemma space_seqs_unprintable: "\<forall>p \<in> set space_seqs. p \<noteq> [] \<and> (\<forall>c \<in> set p. \<not> printable c)"
  by (simp add: space_seqs_def printable_def ball_Un)

lemma drop_prefixes_keep:
  assumes "\<forall>p \<in> set ps. p \<noteq> [] \<and> (\<forall>c \<in> set p. \<not> printable c)" and "\<forall>c \<in> set s. printable c"
  shows "drop_prefixes ps n s = s"
proof (cases n)
  case (Suc m)
  have "find (\<lambda>p. take (length p) s = p) ps = None"
    unfolding find_None_iff
  proof (rule notI, elim exE conjE)
    fix p assume p: "p \<in> set ps" "take (length p) s = p"
    with assms(1) obtain c where "c \<in> set p" "\<not> printable c" by (metis list.set_intros(1) neq_Nil_conv)
    moreover from this(1) p(2) have "c \<in> set s" by (metis in_set_takeD)
    ultimately show False using assms(2) by blast
  qed
  with Suc show ?thesis by simp
qed simp

lemma trim_space_printable: "\<forall>c \<in> set s. printable c \<Longrightarrow> trim_space s = s"
  using drop_prefixes_keep [of space_seqs s] drop_prefixes_keep [of "map rev space_seqs" "rev s"] space_seqs_unprintable
  by (simp add: trim_space_def Let_def)

end
