(* ===== verification/Go_Time.thy ===== *)
theory Go_Time
  imports Go_Strings
begin

text \<open>
  What the program uses of Go's \<open>time.Time\<close> (Go 1.14): the two words \<open>wall\<close> and
  \<open>ext\<close> with the monotonic clock reading packed into them, \<open>Before\<close>, and the
  15-byte form \<open>GobEncode\<close> writes and \<open>GobDecode\<close> reads.
\<close>

section \<open>The value\<close>

text \<open>
  A location is \<open>UTC\<close> or the offset in seconds east of UTC that is in force at the instant.
\<close>

datatype zone = UTC | Zone int

record gotime =
  wall :: u64
  ext :: u64
  zone :: zone

definition has_monotonic :: "gotime \<Rightarrow> bool" where
  "has_monotonic t \<longleftrightarrow> bit (wall t) 63"

text \<open>\<open>t.nsec()\<close> and \<open>t.sec()\<close>; \<open>wallToInternal\<close> is the number of seconds from year 1 to 1885.\<close>

definition nsec :: "gotime \<Rightarrow> u32" where
  "nsec t = ucast (wall t AND mask 30)"

definition sec :: "gotime \<Rightarrow> u64" where
  "sec t = (if has_monotonic t then 59453308800 + drop_bit 31 (push_bit 1 (wall t)) else ext t)"

definition before :: "gotime \<Rightarrow> gotime \<Rightarrow> bool" where
  "before t u \<longleftrightarrow>
     (if has_monotonic t \<and> has_monotonic u then sint (ext t) < sint (ext u)
      else sint (sec t) < sint (sec u)
           \<or> sec t = sec u \<and> sint (nsec t) < sint (nsec u))"

section \<open>Instants as a linear order\<close>

text \<open>
  Without a monotonic reading, \<open>Before\<close> is the strict part of a linear order of the
  instants.
\<close>

datatype instant = Instant (secs: int) (nanos: int)

instantiation instant :: linorder
begin

definition less_eq_instant :: "instant \<Rightarrow> instant \<Rightarrow> bool" where
  "less_eq_instant a b \<longleftrightarrow> secs a < secs b \<or> secs a = secs b \<and> nanos a \<le> nanos b"

definition less_instant :: "instant \<Rightarrow> instant \<Rightarrow> bool" where
  "less_instant a b \<longleftrightarrow> secs a < secs b \<or> secs a = secs b \<and> nanos a < nanos b"

instance
  by standard (auto simp: less_eq_instant_def less_instant_def instant.expand)

end

definition instant_of :: "gotime \<Rightarrow> instant" where
  "instant_of t = Instant (sint (sec t)) (sint (nsec t))"

lemma before_instant:
  "\<not> has_monotonic t \<or> \<not> has_monotonic u \<Longrightarrow> before t u \<longleftrightarrow> instant_of t < instant_of u"
  by (auto simp: before_def instant_of_def less_instant_def signed_word_eqI)

section \<open>GobEncode and GobDecode\<close>

definition gob_offset :: "zone \<Rightarrow> go_error + 16 word" where
  "gob_offset z = (case z of UTC \<Rightarrow> Inr (- 1)
     | Zone off \<Rightarrow>
         if off mod 60 \<noteq> 0 then Inl (TimeError ''zone offset has fractional minute'')
         else let m = off div 60 in
           if m < - 32768 \<or> m = - 1 \<or> 32767 < m then Inl (TimeError ''unexpected zone offset'')
           else Inr (of_int m))"

definition gob_encode :: "gotime \<Rightarrow> go_error + bytes" where
  "gob_encode t = (case gob_offset (zone t) of Inl e \<Rightarrow> Inl e
     | Inr off \<Rightarrow> Inr ([1] @ be_bytes 8 (sec t) @ be_bytes 4 (nsec t) @ be_bytes 2 off))"

definition gob_decode :: "bytes \<Rightarrow> go_error + gotime" where
  "gob_decode data =
     (if data = [] then Inl (TimeError ''no data'')
      else if hd data \<noteq> 1 then Inl (TimeError ''unsupported version'')
      else if length data \<noteq> 15 then Inl (TimeError ''invalid length'')
      else let buf = tl data;
               s = (be_word (take 8 buf) :: u64);
               ns = (be_word (take 4 (drop 8 buf)) :: u32);
               off = sint (be_word (drop 12 buf) :: 16 word) * 60
           in Inr \<lparr>wall = scast ns, ext = s, zone = (if off = - 60 then UTC else Zone off)\<rparr>)"

text \<open>What \<open>GobDecode\<close> makes of an encoded time: the same instant, no monotonic reading.\<close>

definition strip_mono :: "gotime \<Rightarrow> gotime" where
  "strip_mono t = \<lparr>wall = ucast (nsec t), ext = sec t, zone = zone t\<rparr>"

lemma nsec_bit: "bit (nsec t) i \<Longrightarrow> i < 30"
  by (auto simp: nsec_def bit_simps)

lemma strip_mono_parts [simp]:
  "\<not> has_monotonic (strip_mono t)" "sec (strip_mono t) = sec t" "nsec (strip_mono t) = nsec t"
  "zone (strip_mono t) = zone t" "strip_mono (strip_mono t) = strip_mono t"
proof -
  show m: "\<not> has_monotonic (strip_mono t)"
    by (auto simp: has_monotonic_def strip_mono_def bit_ucast_iff dest: nsec_bit)
  show s: "sec (strip_mono t) = sec t"
    using m by (simp add: sec_def) (simp add: strip_mono_def sec_def)
  have "wall (strip_mono t) = ucast (nsec t)" by (simp add: strip_mono_def)
  then show n: "nsec (strip_mono t) = nsec t"
    unfolding nsec_def [of "strip_mono t"]
    by (intro bit_word_eqI) (auto simp: bit_simps dest: nsec_bit)
  show z: "zone (strip_mono t) = zone t" by (simp add: strip_mono_def)
  show "strip_mono (strip_mono t) = strip_mono t"
    unfolding strip_mono_def [of "strip_mono t"] s n z by (simp add: strip_mono_def)
qed

lemma instant_of_strip [simp]: "instant_of (strip_mono t) = instant_of t"
  by (simp add: instant_of_def)

lemma length_gob_encode: "gob_encode t = Inr bs \<Longrightarrow> length bs = 15"
  by (auto simp: gob_encode_def split: sum.splits)

lemma gob_encode_strip [simp]: "gob_encode (strip_mono t) = gob_encode t"
  by (simp add: gob_encode_def split: sum.split)

lemma gob_offset_back:
  assumes "gob_offset z = Inr w"
  shows "(if sint w * 60 = - 60 then UTC else Zone (sint w * 60)) = z"
proof (cases z)
  case UTC
  with assms show ?thesis by (auto simp: gob_offset_def)
next
  case (Zone off)
  with assms have o: "off mod 60 = 0" "- 32768 \<le> off div 60" "off div 60 \<noteq> - 1" "off div 60 \<le> 32767"
    and w: "w = of_int (off div 60)"
    by (auto simp: gob_offset_def Let_def split: if_splits)
  have "sint (of_int (off div 60) :: 16 word) = off div 60"
    using o by (intro signed_take_bit_int_eq_self [THEN trans [OF sint_sbintrunc']]) simp_all
  moreover have "off div 60 * 60 = off" using o(1) by auto
  ultimately show ?thesis using o w Zone by auto
qed

lemma gob_decode_encode [codec_simps]:
  assumes "gob_encode t = Inr bs"
  shows "gob_decode bs = Inr (strip_mono t)"
proof -
  from assms obtain w where w: "gob_offset (zone t) = Inr w"
    and bs: "bs = [1] @ be_bytes 8 (sec t) @ be_bytes 4 (nsec t) @ be_bytes 2 w"
    by (auto simp: gob_encode_def split: sum.splits)
  have "scast (nsec t) = (ucast (nsec t) :: u64)"
  proof (rule bit_word_eqI)
    fix i
    show "bit (scast (nsec t) :: u64) i = bit (ucast (nsec t) :: u64) i"
      using nsec_bit [of t i] nsec_bit [of t 31] by (auto simp: bit_simps min_def)
  qed
  then show ?thesis
    using gob_offset_back [OF w]
    by (auto simp: bs gob_decode_def Let_def codec_simps strip_mono_def split: if_splits)
qed

end
