(* ===== verification/Vendor_Utils.thy ===== *)
theory Vendor_Utils
  imports Go_Time "HOL-Library.Multiset"
begin

text \<open>
  \<open>utils/utils.go\<close>: the messages \<open>ToSignItem\<close> and \<open>SavedItem\<close>
  with their byte layouts, the key of a vendor (\<open>GetUtxoKey\<close>), wallet access and
  \<open>SetUpPoly\<close>. Bitcoin transactions, scripts and wallets come from other modules: what the
  code calls there are the fields of the records \<open>btcd\<close> and \<open>wallets\<close>, arguments of
  the definitions that use them.
\<close>

section \<open>Bitcoin transactions\<close>

text \<open>
  Of a \<open>wire.MsgTx\<close> the code reads the inputs and of an input the signature script; the
  fields it never looks at are carried along as bytes. A nil script and an empty one are the same
  list.
\<close>

record txin =
  SignatureScript :: bytes
  txin_rest :: bytes

record msgtx =
  TxIn :: "txin list"
  tx_rest :: bytes

datatype script_class = MultiSigTy | ScriptHashTy | WitnessV0ScriptHashTy | OtherTy string

record btcd =
  btc_encode :: "msgtx \<Rightarrow> go_error + bytes"
  btc_decode :: "bytes \<Rightarrow> go_error + msgtx"
  tx_hash :: "msgtx \<Rightarrow> bytes"
  get_script_class :: "bytes \<Rightarrow> script_class"
  hash160 :: "bytes \<Rightarrow> bytes"
  ripemd160 :: "bytes \<Rightarrow> bytes"
  raw_tx_in_signature :: "msgtx \<Rightarrow> nat \<Rightarrow> bytes \<Rightarrow> bytes \<Rightarrow> go_error + bytes"
  raw_tx_in_witness_signature :: "msgtx \<Rightarrow> nat \<Rightarrow> u64 \<Rightarrow> bytes \<Rightarrow> bytes \<Rightarrow> go_error + bytes"

text \<open>
  \<open>for _, v := range mtx.TxIn { v.SignatureScript = nil }\<close>: the unsigned form of a
  transaction, whose hash is the key it is stored under.
\<close>

definition strip_scripts :: "msgtx \<Rightarrow> msgtx" where
  "strip_scripts tx = tx\<lparr>TxIn := map (\<lambda>i. i\<lparr>SignatureScript := []\<rparr>) (TxIn tx)\<rparr>"

lemma strip_scripts_idem [simp]: "strip_scripts (strip_scripts tx) = strip_scripts tx"
  by (simp add: strip_scripts_def)

lemma length_TxIn_strip [simp]: "length (TxIn (strip_scripts tx)) = length (TxIn tx)"
  by (simp add: strip_scripts_def)

section \<open>The messages\<close>

record to_sign_item =
  Mtx :: msgtx
  Amts :: "u64 list"

record saved_item =
  Item :: to_sign_item
  TimeReceived :: gotime
  Done :: bool

definition serialize_to_sign :: "btcd \<Rightarrow> to_sign_item \<Rightarrow> go_error + bytes" where
  "serialize_to_sign B item =
     (case btc_encode B (Mtx item) of Inl e \<Rightarrow> Inl e
      | Inr tx \<Rightarrow> Inr (write_u32 (of_nat (length tx)) @ tx
                        @ write_u32 (of_nat (length (Amts item)))
                        @ concat (map write_u64 (Amts item))))"

text \<open>The loop of \<open>Deserialize\<close> over the amounts: the first failing read ends it.\<close>

primrec read_amts :: "nat \<Rightarrow> bytes \<Rightarrow> go_error + u64 list \<times> bytes" where
  "read_amts 0 r = Inr ([], r)"
| "read_amts (Suc n) r =
     (case read_u64 r of Inl e \<Rightarrow> Inl e
      | Inr (v, r') \<Rightarrow> (case read_amts n r' of Inl e \<Rightarrow> Inl e
      | Inr (vs, r'') \<Rightarrow> Inr (v # vs, r'')))"

definition deserialize_to_sign :: "btcd \<Rightarrow> bytes \<Rightarrow> go_error + to_sign_item" where
  "deserialize_to_sign B buf =
     (case read_u32 buf of Inl e \<Rightarrow> Inl e
      | Inr (lenTx, r) \<Rightarrow>
     (case reader_read (unat lenTx) r of Inl e \<Rightarrow> Inl e
      | Inr (rawTx, r) \<Rightarrow>
     (case btc_decode B rawTx of Inl e \<Rightarrow> Inl e
      | Inr tx \<Rightarrow>
     (case read_u32 r of Inl e \<Rightarrow> Inl e
      | Inr (lenAmts, r) \<Rightarrow>
     (case read_amts (unat lenAmts) r of Inl e \<Rightarrow> Inl e
      | Inr (amts, r) \<Rightarrow> Inr \<lparr>Mtx = tx, Amts = amts\<rparr>)))))"

definition serialize_saved :: "btcd \<Rightarrow> saved_item \<Rightarrow> go_error + bytes" where
  "serialize_saved B saved =
     (case serialize_to_sign B (Item saved) of
        Inl e \<Rightarrow> Inl (Errorf ''failed to serialize ToSignItem: %v'' e)
      | Inr raw \<Rightarrow>
     (case gob_encode (TimeReceived saved) of Inl e \<Rightarrow> Inl e
      | Inr t \<Rightarrow> Inr (write_u32 (of_nat (length raw)) @ raw
                       @ write_u32 (of_nat (length t)) @ t
                       @ write_bool (Done saved))))"

definition deserialize_saved :: "btcd \<Rightarrow> bytes \<Rightarrow> go_error + saved_item" where
  "deserialize_saved B buf =
     (case read_u32 buf of Inl e \<Rightarrow> Inl e
      | Inr (lenItem, r) \<Rightarrow>
     (case reader_read (unat lenItem) r of Inl e \<Rightarrow> Inl e
      | Inr (raw, r) \<Rightarrow>
     (case deserialize_to_sign B raw of Inl e \<Rightarrow> Inl e
      | Inr item \<Rightarrow>
     (case read_u32 r of Inl e \<Rightarrow> Inl e
      | Inr (lenTr, r) \<Rightarrow>
     (case reader_read (unat lenTr) r of Inl e \<Rightarrow> Inl e
      | Inr (raw, r) \<Rightarrow>
     (case gob_decode raw of Inl e \<Rightarrow> Inl e
      | Inr tr \<Rightarrow>
     (case read_bool r of Inl e \<Rightarrow> Inl e
      | Inr (done, r) \<Rightarrow> Inr \<lparr>Item = item, TimeReceived = tr, Done = done\<rparr>)))))))"

section \<open>The interface of a stored message\<close>

text \<open>
  What the database and the remote call rely on: a message in order is written, is read back as
  its canonical form whatever follows it, and the canonical form is written as the same bytes.
\<close>

locale msg_codec =
  fixes enc :: "'a \<Rightarrow> go_error + bytes"
    and dec :: "bytes \<Rightarrow> go_error + 'a"
    and ok :: "'a \<Rightarrow> bool"
    and canon :: "'a \<Rightarrow> 'a"
  assumes enc_ok: "ok x \<Longrightarrow> \<exists>bs. enc x = Inr bs"
    and dec_enc: "ok x \<Longrightarrow> enc x = Inr bs \<Longrightarrow> dec (bs @ junk) = Inr (canon x)"
    and ok_canon: "ok x \<Longrightarrow> ok (canon x)"
    and enc_canon: "ok x \<Longrightarrow> enc (canon x) = enc x"
begin

lemma dec_enc_exact: "ok x \<Longrightarrow> enc x = Inr bs \<Longrightarrow> dec bs = Inr (canon x)"
  using dec_enc [of x bs "[]"] by simp

lemma enc_determines: "ok x \<Longrightarrow> ok y \<Longrightarrow> enc x = enc y \<Longrightarrow> canon x = canon y"
  using enc_ok dec_enc_exact by (metis sum.inject(2))

text \<open>Reading and writing again changes nothing.\<close>

lemma reencode: "ok x \<Longrightarrow> enc x = Inr bs \<Longrightarrow> dec bs = Inr y \<Longrightarrow> ok y \<and> enc y = Inr bs \<and> canon y = y"
  using dec_enc_exact enc_canon ok_canon by (metis sum.inject(2))

end

text \<open>
  In order: btcd can write the transaction and reads its own bytes back, and the lengths fit the
  32-bit length fields.
\<close>

definition to_sign_ok :: "btcd \<Rightarrow> to_sign_item \<Rightarrow> bool" where
  "to_sign_ok B item \<longleftrightarrow>
     (case btc_encode B (Mtx item) of Inl e \<Rightarrow> False
      | Inr tx \<Rightarrow> btc_decode B tx = Inr (Mtx item) \<and> length tx < 2 ^ 32)
     \<and> length (Amts item) < 2 ^ 32"

definition saved_ok :: "btcd \<Rightarrow> saved_item \<Rightarrow> bool" where
  "saved_ok B s \<longleftrightarrow>
     to_sign_ok B (Item s)
     \<and> (case serialize_to_sign B (Item s) of Inl e \<Rightarrow> False | Inr raw \<Rightarrow> length raw < 2 ^ 32)
     \<and> (case gob_encode (TimeReceived s) of Inl e \<Rightarrow> False | Inr t \<Rightarrow> True)"

definition canon_saved :: "saved_item \<Rightarrow> saved_item" where
  "canon_saved s = s\<lparr>TimeReceived := strip_mono (TimeReceived s)\<rparr>"

lemma canon_saved_simps [simp]:
  "Item (canon_saved s) = Item s" "Done (canon_saved s) = Done s"
  "TimeReceived (canon_saved s) = strip_mono (TimeReceived s)"
  "canon_saved (canon_saved s) = canon_saved s"
  "canon_saved (s\<lparr>Done := b\<rparr>) = (canon_saved s)\<lparr>Done := b\<rparr>"
  by (simp_all add: canon_saved_def)

lemma read_amts_dec_list: "read_amts n r = u64c.dec_list n r"
  by (induction n arbitrary: r) (simp_all split: sum.split)

lemma read_amts_concat [codec_simps]:
  "read_amts (length xs) (concat (map write_u64 xs) @ r) = Inr (xs, r)"
  by (simp add: read_amts_dec_list u64c.dec_list_concat)

lemma to_sign_roundtrip:
  assumes "to_sign_ok B item" and "serialize_to_sign B item = Inr bs"
  shows "deserialize_to_sign B (bs @ junk) = Inr item"
proof -
  from assms obtain tx where tx: "btc_encode B (Mtx item) = Inr tx" "btc_decode B tx = Inr (Mtx item)"
    and len: "length tx < 2 ^ 32" "length (Amts item) < 2 ^ 32"
    by (auto simp: to_sign_ok_def split: sum.splits)
  have bs: "bs = write_u32 (of_nat (length tx)) @ tx @ write_u32 (of_nat (length (Amts item)))
                 @ concat (map write_u64 (Amts item))"
    using assms(2) tx(1) by (simp add: serialize_to_sign_def)
  show ?thesis
    using len by (simp add: bs deserialize_to_sign_def codec_simps tx(2))
qed

interpretation tosign: msg_codec "serialize_to_sign B" "deserialize_to_sign B" "to_sign_ok B" "\<lambda>x. x" for B
proof
  show "\<exists>bs. serialize_to_sign B x = Inr bs" if "to_sign_ok B x" for x
    using that by (auto simp: to_sign_ok_def serialize_to_sign_def split: sum.splits)
qed (simp_all add: to_sign_roundtrip)

lemma saved_roundtrip:
  assumes "saved_ok B s" and "serialize_saved B s = Inr bs"
  shows "deserialize_saved B (bs @ junk) = Inr (canon_saved s)"
proof -
  from assms obtain raw t where raw: "serialize_to_sign B (Item s) = Inr raw"
    and t: "gob_encode (TimeReceived s) = Inr t" and len: "length raw < 2 ^ 32"
    and ok: "to_sign_ok B (Item s)"
    by (auto simp: saved_ok_def split: sum.splits)
  have bs: "bs = write_u32 (of_nat (length raw)) @ raw @ write_u32 (of_nat (length t)) @ t
                 @ write_bool (Done s)"
    using assms(2) raw t by (simp add: serialize_saved_def)
  show ?thesis
    using len length_gob_encode [OF t] tosign.dec_enc_exact [OF ok raw]
    by (simp add: bs deserialize_saved_def codec_simps gob_decode_encode [OF t] canon_saved_def)
qed

interpretation saved: msg_codec "serialize_saved B" "deserialize_saved B" "saved_ok B" canon_saved for B
proof
  show "\<exists>bs. serialize_saved B x = Inr bs" if "saved_ok B x" for x
    using that by (auto simp: saved_ok_def serialize_saved_def split: sum.splits)
  show "deserialize_saved B (bs @ junk) = Inr (canon_saved x)"
    if "saved_ok B x" "serialize_saved B x = Inr bs" for x bs junk
    using that by (rule saved_roundtrip)
qed (simp_all add: saved_ok_def serialize_saved_def split: sum.split)


section \<open>What the readers accept\<close>

text \<open>
  A message that is read had every byte its length fields announce: a short \<open>Read\<close> leaves
  nothing for the read that follows it, which then fails.
\<close>

lemma read_amts_exact: "read_amts n r = Inr (xs, s) \<Longrightarrow> length xs = n \<and> r = concat (map write_u64 xs) @ s"
  unfolding read_amts_dec_list by (rule u64c.dec_list_exact)

lemma deserialize_to_sign_framed:
  assumes "deserialize_to_sign B buf = Inr item"
  obtains l tx n junk where
    "buf = write_u32 l @ tx @ write_u32 n @ concat (map write_u64 (Amts item)) @ junk"
    "length tx = unat l" "length (Amts item) = unat n" "btc_decode B tx = Inr (Mtx item)"
proof -
  from assms obtain l r1 tx r2 n r3 junk where
      1: "read_u32 buf = Inr (l, r1)" and 2: "reader_read (unat l) r1 = Inr (tx, r2)"
    and 3: "btc_decode B tx = Inr (Mtx item)" and 4: "read_u32 r2 = Inr (n, r3)"
    and 5: "read_amts (unat n) r3 = Inr (Amts item, junk)"
    by (auto simp: deserialize_to_sign_def split: sum.splits prod.splits)
  have r2: "r2 = write_u32 n @ r3" using 4 by (rule u32c.dec_exact)
  then have "r2 \<noteq> []" by simp
  with 2 have r1: "r1 = tx @ r2" "length tx = unat l" by (auto dest: reader_read_rest)
  have "buf = write_u32 l @ r1" using 1 by (rule u32c.dec_exact)
  moreover note read_amts_exact [OF 5]
  ultimately show thesis using that [of l tx n junk] r1 r2 3 by simp
qed

lemma append_same_length: "xs @ ys = us @ vs \<Longrightarrow> length xs = length us \<Longrightarrow> xs = us \<and> ys = vs"
  by simp

text \<open>No proper prefix of a written message is read as a message.\<close>

lemma to_sign_no_truncation:
  assumes "to_sign_ok B item" and "serialize_to_sign B item = Inr bs" and "n < length bs"
  shows "\<exists>e. deserialize_to_sign B (take n bs) = Inl e"
proof (cases "deserialize_to_sign B (take n bs)")
  case (Inr item')
  from assms(1,2) obtain tx where len: "length tx < 2 ^ 32" "length (Amts item) < 2 ^ 32"
    and bs: "bs = write_u32 (of_nat (length tx)) @ tx @ write_u32 (of_nat (length (Amts item)))
                 @ concat (map write_u64 (Amts item))"
    by (auto simp: to_sign_ok_def serialize_to_sign_def split: sum.splits)
  from Inr obtain l tx' m junk where p: "take n bs = write_u32 l @ tx' @ write_u32 m
       @ concat (map write_u64 (Amts item')) @ junk"
    and l: "length tx' = unat l" "length (Amts item') = unat m"
    by (rule deserialize_to_sign_framed)
  have "bs = write_u32 l @ tx' @ write_u32 m @ concat (map write_u64 (Amts item')) @ junk @ drop n bs"
    using append_take_drop_id [of n bs] p by simp
  then have eq: "write_u32 (of_nat (length tx)) @ tx @ write_u32 (of_nat (length (Amts item)))
                   @ concat (map write_u64 (Amts item))
                 = write_u32 l @ tx' @ write_u32 m @ concat (map write_u64 (Amts item')) @ junk @ drop n bs"
    by (rule trans [OF bs [symmetric]])
  then have ll: "l = of_nat (length tx)" and eq2: "tx @ write_u32 (of_nat (length (Amts item)))
                   @ concat (map write_u64 (Amts item))
                 = tx' @ write_u32 m @ concat (map write_u64 (Amts item')) @ junk @ drop n bs"
    using u32c.enc_uniquely_readable [OF eq] by simp_all
  have "length tx' = length tx" using l ll len by (simp add: codec_simps)
  then have eq3: "write_u32 (of_nat (length (Amts item))) @ concat (map write_u64 (Amts item))
                 = write_u32 m @ concat (map write_u64 (Amts item')) @ junk @ drop n bs"
    using append_same_length [OF eq2] by simp
  then have mm: "m = of_nat (length (Amts item))" and eq4: "concat (map write_u64 (Amts item))
                 = concat (map write_u64 (Amts item')) @ junk @ drop n bs"
    using u32c.enc_uniquely_readable [OF eq3] by simp_all
  have l64: "length (concat (map write_u64 xs)) = 8 * length xs" for xs
    by (induction xs) simp_all
  have "length (Amts item') = length (Amts item)" using l mm len by (simp add: codec_simps)
  with arg_cong [OF eq4, of length] have "length (drop n bs) = 0" by (simp add: l64)
  with assms(3) show ?thesis by simp
qed blast

section \<open>The key of a vendor\<close>

text \<open>\<open>s[i:j]\<close> on a slice whose capacity is its length.\<close>

definition slice :: "bytes \<Rightarrow> nat \<Rightarrow> nat \<Rightarrow> bytes go" where
  "slice s i j = (if i \<le> j \<and> j \<le> length s then Ret (take (j - i) (drop i s)) else Panic SliceOutOfRange)"

definition get_utxo_key :: "btcd \<Rightarrow> bytes \<Rightarrow> string go" where
  "get_utxo_key B scriptPk =
     (case get_script_class B scriptPk of
        MultiSigTy \<Rightarrow> Ret (hex_encode (hash160 B scriptPk))
      | ScriptHashTy \<Rightarrow> (case slice scriptPk 2 22 of Panic p \<Rightarrow> Panic p | Ret h \<Rightarrow> Ret (hex_encode h))
      | WitnessV0ScriptHashTy \<Rightarrow>
          (case slice scriptPk 2 34 of Panic p \<Rightarrow> Panic p | Ret h \<Rightarrow> Ret (hex_encode (ripemd160 B h)))
      | OtherTy _ \<Rightarrow> Ret [])"

text \<open>What btcd documents of the script classes and of the two digests.\<close>

definition script_class_ok :: "btcd \<Rightarrow> bool" where
  "script_class_ok B \<longleftrightarrow>
     (\<forall>s. (get_script_class B s = ScriptHashTy \<longrightarrow> length s = 23)
        \<and> (get_script_class B s = WitnessV0ScriptHashTy \<longrightarrow> length s = 34)
        \<and> length (hash160 B s) = 20 \<and> length (ripemd160 B s) = 20)"

lemma get_utxo_key_total:
  assumes "script_class_ok B"
  shows "\<exists>k. get_utxo_key B s = Ret k \<and> (length k = 40 \<or> k = [])"
  using assms
  by (auto simp: script_class_ok_def get_utxo_key_def slice_def split: script_class.splits)

section \<open>Wallets and the Poly client\<close>

text \<open>Of an account the code reads the private key, which it asserts to be an EC key.\<close>

record account =
  acct_addr :: string
  ec_private_key :: "bytes option"

record wallets =
  open_wallet :: "string \<Rightarrow> go_error + string"
  get_default_account :: "string \<Rightarrow> bytes \<Rightarrow> go_error + account"

definition get_account_by_password :: "wallets \<Rightarrow> string \<Rightarrow> bytes \<Rightarrow> go_error + account" where
  "get_account_by_password W path pwd =
     (case open_wallet W path of Inl e \<Rightarrow> Inl (Errorf (''open wallet '' @ path @ '' error: %v'') e)
      | Inr wallet \<Rightarrow> (case get_default_account W wallet pwd of
          Inl e \<Rightarrow> Inl (Errorf ''getDefaultAccount error: %v'' e)
        | Inr user \<Rightarrow> Inr user))"

record poly_sdk =
  rpc_address :: "string option"
  chain_id :: u64

text \<open>\<open>hdr addr\<close> is the chain id in the header at height 0 that the node at \<open>addr\<close> answers with.\<close>

definition set_up_poly :: "(string \<Rightarrow> go_error + u64) \<Rightarrow> poly_sdk \<Rightarrow> string \<Rightarrow> go_error option \<times> poly_sdk" where
  "set_up_poly hdr poly rpcAddr =
     (let poly = poly\<lparr>rpc_address := Some rpcAddr\<rparr>
      in case hdr rpcAddr of Inl e \<Rightarrow> (Some e, poly)
         | Inr cid \<Rightarrow> (None, poly\<lparr>chain_id := cid\<rparr>))"

section \<open>SavedItemArr\<close>

text \<open>\<open>sort.Interface\<close> for the stored items; \<open>sort.Sort\<close> stays within the bounds.\<close>

definition arr_less :: "saved_item list \<Rightarrow> nat \<Rightarrow> nat \<Rightarrow> bool" where
  "arr_less arr i j = before (TimeReceived (arr ! i)) (TimeReceived (arr ! j))"

definition arr_swap :: "saved_item list \<Rightarrow> nat \<Rightarrow> nat \<Rightarrow> saved_item list" where
  "arr_swap arr i j = arr[i := arr ! j, j := arr ! i]"

definition arr_len :: "saved_item list \<Rightarrow> nat" where
  "arr_len arr = length arr"

text \<open>
  The documented result of \<open>sort.Sort(sort.Reverse(arr))\<close>, for items whose times have no
  monotonic reading (so that \<open>Less\<close> is a strict weak order): a permutation in which no
  item comes before a later one.
\<close>

definition sorts_reverse :: "(saved_item list \<Rightarrow> saved_item list) \<Rightarrow> bool" where
  "sorts_reverse srt \<longleftrightarrow>
     (\<forall>arr. (\<forall>x \<in> set arr. \<not> has_monotonic (TimeReceived x)) \<longrightarrow>
        mset (srt arr) = mset arr
        \<and> (\<forall>i j. i < j \<longrightarrow> j < arr_len (srt arr) \<longrightarrow> \<not> arr_less (srt arr) i j))"

end
