(* ===== verification/Vendor_DB.thy ===== *)
theory Vendor_DB
  imports Vendor_Utils "HOL-Library.Sublist"
begin

text \<open>
  \<open>db/db.go\<close>: the store of signed transactions, a LevelDB with a cache of the 100 youngest
  items in front of it, and its interface to the signer and the observer (the locale
  \<open>tx_store\<close>). LevelDB itself is the record \<open>leveldb\<close>, an argument.
  Every exported method holds the lock from its first line to its return, so an operation is one
  step from state to state.
\<close>

section \<open>LevelDB\<close>

text \<open>
  \<open>ldb_scan\<close> is a whole run of an iterator over the keys with a prefix: the values it yields
  and the error it ends with. \<open>ldb_map\<close> is what is stored, used in specifications only.
\<close>

record 'd leveldb =
  ldb_get :: "'d \<Rightarrow> bytes \<Rightarrow> go_error + bytes"
  ldb_put :: "'d \<Rightarrow> bytes \<Rightarrow> bytes \<Rightarrow> go_error option \<times> 'd"
  ldb_scan :: "'d \<Rightarrow> bytes \<Rightarrow> bytes list \<times> go_error option"
  ldb_map :: "'d \<Rightarrow> bytes \<Rightarrow> bytes option"

text \<open>
  What LevelDB documents. Any call may fail: a failed read says nothing about the key, and after a
  failed write the key has its old value or the new one.
\<close>

definition leveldb_ok :: "'d leveldb \<Rightarrow> bool" where
  "leveldb_ok L \<longleftrightarrow>
     (\<forall>d k v. ldb_get L d k = Inr v \<longrightarrow> ldb_map L d k = Some v)
     \<and> (\<forall>d k. ldb_get L d k = Inl NotFound \<longrightarrow> ldb_map L d k = None)
     \<and> (\<forall>d k v d'. ldb_put L d k v = (None, d') \<longrightarrow> ldb_map L d' = (ldb_map L d)(k \<mapsto> v))
     \<and> (\<forall>d k v e d'. ldb_put L d k v = (Some e, d') \<longrightarrow>
          ldb_map L d' = ldb_map L d \<or> ldb_map L d' = (ldb_map L d)(k \<mapsto> v))
     \<and> (\<forall>d p vs. ldb_scan L d p = (vs, None) \<longrightarrow>
          (\<exists>ks. distinct ks \<and> set ks = {k \<in> dom (ldb_map L d). prefix p k}
              \<and> map Some vs = map (ldb_map L d) ks))
     \<and> (\<forall>d. finite (dom (ldb_map L d)))"

text \<open>Storage that never fails: only a missing key is reported.\<close>

definition leveldb_reliable :: "'d leveldb \<Rightarrow> bool" where
  "leveldb_reliable L \<longleftrightarrow>
     (\<forall>d k. case ldb_get L d k of Inl e \<Rightarrow> e = NotFound | Inr v \<Rightarrow> True)
     \<and> (\<forall>d k v. fst (ldb_put L d k v) = None)
     \<and> (\<forall>d p. snd (ldb_scan L d p) = None)"

lemma leveldb_okD:
  assumes "leveldb_ok L"
  shows "ldb_get L d k = Inr v \<Longrightarrow> ldb_map L d k = Some v"
    and "ldb_get L d k = Inl NotFound \<Longrightarrow> ldb_map L d k = None"
    and "ldb_put L d k v = (None, d') \<Longrightarrow> ldb_map L d' = (ldb_map L d)(k \<mapsto> v)"
    and "ldb_put L d k v = (Some e, d') \<Longrightarrow>
           ldb_map L d' = ldb_map L d \<or> ldb_map L d' = (ldb_map L d)(k \<mapsto> v)"
    and "finite (dom (ldb_map L d))"
  using assms unfolding leveldb_ok_def by blast+

lemma leveldb_ok_scan:
  assumes "leveldb_ok L" and "ldb_scan L d p = (vs, None)"
  shows "\<exists>ks. distinct ks \<and> set ks = {k \<in> dom (ldb_map L d). prefix p k}
           \<and> map Some vs = map (ldb_map L d) ks"
proof -
  from assms(1) have "\<forall>d p vs. ldb_scan L d p = (vs, None) \<longrightarrow>
     (\<exists>ks. distinct ks \<and> set ks = {k \<in> dom (ldb_map L d). prefix p k}
        \<and> map Some vs = map (ldb_map L d) ks)"
    unfolding leveldb_ok_def by (elim conjE)
  with assms(2) show ?thesis by simp
qed

section \<open>The cache\<close>

text \<open>The list, front (oldest) first.\<close>

record vendor_cache =
  cache_list :: "saved_item list"
  cache_size :: nat
  totalCache :: u64

definition CACHE_SIZE :: nat where
  "CACHE_SIZE = 100"

definition item_key :: "btcd \<Rightarrow> saved_item \<Rightarrow> bytes" where
  "item_key B x = tx_hash B (Mtx (Item x))"

definition cache_put :: "saved_item \<Rightarrow> vendor_cache \<Rightarrow> vendor_cache" where
  "cache_put item c =
     (let l = cache_list c @ [item];
          l = (if length l > cache_size c then tl l else l)
      in c\<lparr>cache_list := l, totalCache := totalCache c + 1\<rparr>)"

definition cache_put_to_front :: "saved_item \<Rightarrow> vendor_cache \<Rightarrow> vendor_cache" where
  "cache_put_to_front item c = c\<lparr>cache_list := item # cache_list c\<rparr>"

definition cache_get :: "btcd \<Rightarrow> bytes \<Rightarrow> vendor_cache \<Rightarrow> saved_item option" where
  "cache_get B txHash c = find (\<lambda>x. item_key B x = txHash) (rev (cache_list c))"

definition cache_get_all :: "vendor_cache \<Rightarrow> saved_item list" where
  "cache_get_all c = rev (cache_list c)"

definition cache_len :: "vendor_cache \<Rightarrow> nat" where
  "cache_len c = length (cache_list c)"

text \<open>\<open>val.Done = true\<close> through the pointer \<open>Get\<close> returned: the youngest item with the hash.\<close>

fun mark_first :: "(saved_item \<Rightarrow> bool) \<Rightarrow> saved_item list \<Rightarrow> saved_item list" where
  "mark_first p [] = []"
| "mark_first p (x # xs) = (if p x then x\<lparr>Done := True\<rparr> # xs else x # mark_first p xs)"

definition cache_mark_done :: "btcd \<Rightarrow> bytes \<Rightarrow> vendor_cache \<Rightarrow> vendor_cache" where
  "cache_mark_done B txHash c =
     c\<lparr>cache_list := rev (mark_first (\<lambda>x. item_key B x = txHash) (rev (cache_list c)))\<rparr>"

section \<open>The database\<close>

record 'd vendor_db =
  db :: 'd
  txCache :: vendor_cache

definition tx_prefix :: bytes where
  "tx_prefix = bytes_of ''tx''"

definition totalnum_prefix :: bytes where
  "totalnum_prefix = bytes_of ''total''"

definition tx_key :: "bytes \<Rightarrow> bytes" where
  "tx_key txHash = tx_prefix @ txHash"

definition get_total_tx_num :: "'d leveldb \<Rightarrow> 'd vendor_db \<Rightarrow> u64 go" where
  "get_total_tx_num L v =
     (if totalCache (txCache v) > 0 then Ret (totalCache (txCache v))
      else case ldb_get L (db v) totalnum_prefix of Inl e \<Rightarrow> Ret 0
      | Inr val \<Rightarrow> if length val < 8 then Panic IndexOutOfRange else Ret (be_word (take 8 val)))"

text \<open>\<open>opened\<close> is what \<open>leveldb.OpenFile(path)\<close> returns.\<close>

definition new_vendor_db :: "'d leveldb \<Rightarrow> go_error + 'd \<Rightarrow> (go_error + 'd vendor_db) go" where
  "new_vendor_db L opened =
     (case opened of Inl e \<Rightarrow> Ret (Inl e)
      | Inr d \<Rightarrow>
        (let v = \<lparr>db = d, txCache = \<lparr>cache_list = [], cache_size = CACHE_SIZE, totalCache = 0\<rparr>\<rparr>
         in case get_total_tx_num L v of Panic p \<Rightarrow> Panic p
            | Ret n \<Rightarrow> Ret (Inr (v\<lparr>txCache := (txCache v)\<lparr>totalCache := n\<rparr>\<rparr>))))"

definition put_signed_tx ::
  "btcd \<Rightarrow> 'd leveldb \<Rightarrow> 'd vendor_db \<Rightarrow> bytes \<Rightarrow> saved_item \<Rightarrow> go_error option \<times> 'd vendor_db" where
  "put_signed_tx B L v txHash item =
     (case cache_get B txHash (txCache v) of Some old \<Rightarrow> (None, v)
      | None \<Rightarrow>
     (case ldb_get L (db v) (tx_key txHash) of Inr old \<Rightarrow> (None, v)
      | Inl err \<Rightarrow>
        if err \<noteq> NotFound then (None, v)
        else case serialize_saved B item of Inl e \<Rightarrow> (Some e, v)
      | Inr val \<Rightarrow>
     (case ldb_put L (db v) (tx_key txHash) val of (Some e, d) \<Rightarrow> (Some e, v\<lparr>db := d\<rparr>)
      | (None, d) \<Rightarrow>
        let c = cache_put item (txCache v)
        in case ldb_put L d totalnum_prefix (write_u64 (totalCache c)) of
             (Some e, d) \<Rightarrow> (Some e, v\<lparr>db := d, txCache := c\<rparr>)
           | (None, d) \<Rightarrow> (None, v\<lparr>db := d, txCache := c\<rparr>))))"

definition get_signed_tx ::
  "btcd \<Rightarrow> 'd leveldb \<Rightarrow> 'd vendor_db \<Rightarrow> bytes \<Rightarrow> go_error + saved_item" where
  "get_signed_tx B L v txHash =
     (case cache_get B txHash (txCache v) of Some res \<Rightarrow> Inr res
      | None \<Rightarrow>
     (case ldb_get L (db v) (tx_key txHash) of Inl e \<Rightarrow> Inl e
      | Inr val \<Rightarrow> deserialize_saved B val))"

text \<open>The error of the second \<open>Serialize\<close> is dropped; then \<open>raw\<close> is nil.\<close>

definition set_tx_done ::
  "btcd \<Rightarrow> 'd leveldb \<Rightarrow> 'd vendor_db \<Rightarrow> bytes \<Rightarrow> go_error option \<times> 'd vendor_db" where
  "set_tx_done B L v txHash =
     (let v = (case cache_get B txHash (txCache v) of None \<Rightarrow> v
               | Some val \<Rightarrow> v\<lparr>txCache := cache_mark_done B txHash (txCache v)\<rparr>)
      in case ldb_get L (db v) (tx_key txHash) of Inl e \<Rightarrow> (Some e, v)
      | Inr val \<Rightarrow>
     (case deserialize_saved B val of Inl e \<Rightarrow> (Some e, v)
      | Inr item \<Rightarrow>
        let raw = (case serialize_saved B (item\<lparr>Done := True\<rparr>) of Inl e \<Rightarrow> [] | Inr raw \<Rightarrow> raw)
        in case ldb_put L (db v) (tx_key txHash) raw of (err, d) \<Rightarrow> (err, v\<lparr>db := d\<rparr>)))"

text \<open>\<open>close\<close> is \<open>Close\<close> of LevelDB.\<close>

definition close_vendor_db :: "('d \<Rightarrow> go_error option) \<Rightarrow> 'd vendor_db \<Rightarrow> go_error option" where
  "close_vendor_db close v = close (db v)"

text \<open>The loop over the iterator: the first value that does not decode ends it.\<close>

fun deserialize_all :: "btcd \<Rightarrow> bytes list \<Rightarrow> go_error + saved_item list" where
  "deserialize_all B [] = Inr []"
| "deserialize_all B (val # vals) =
     (case deserialize_saved B val of Inl e \<Rightarrow> Inl e
      | Inr item \<Rightarrow> (case deserialize_all B vals of Inl e \<Rightarrow> Inl e | Inr arr \<Rightarrow> Inr (item # arr)))"

text \<open>
  \<open>for i := Len(); i < CACHE_SIZE && i < len(arr); i++ { putToFront(arr[i]) }\<close>.
\<close>

definition fill_cache :: "saved_item list \<Rightarrow> vendor_cache \<Rightarrow> vendor_cache" where
  "fill_cache arr c = foldl (\<lambda>c x. cache_put_to_front x c) c (drop (cache_len c) (take CACHE_SIZE arr))"

text \<open>\<open>srt\<close> is \<open>sort.Sort(sort.Reverse(arr))\<close>.\<close>

definition read_first_batch ::
  "btcd \<Rightarrow> 'd leveldb \<Rightarrow> (saved_item list \<Rightarrow> saved_item list) \<Rightarrow> 'd vendor_db
     \<Rightarrow> (go_error + saved_item list) \<times> 'd vendor_db" where
  "read_first_batch B L srt v =
     (if cache_len (txCache v) = CACHE_SIZE \<or> of_nat (cache_len (txCache v)) = totalCache (txCache v)
      then (Inr (cache_get_all (txCache v)), v)
      else case ldb_scan L (db v) tx_prefix of (vals, err) \<Rightarrow>
     (case deserialize_all B vals of Inl e \<Rightarrow> (Inl e, v)
      | Inr arr \<Rightarrow>
     (case err of Some e \<Rightarrow> (Inl e, v)
      | None \<Rightarrow>
        let arr = srt arr
        in (Inr (if length arr > CACHE_SIZE then take CACHE_SIZE arr else arr),
            v\<lparr>txCache := fill_cache arr (txCache v)\<rparr>))))"

section \<open>Facts about the cache\<close>

lemma tx_key_inject [simp]: "tx_key h = tx_key h' \<longleftrightarrow> h = h'"
  by (simp add: tx_key_def)

lemma tx_key_not_total [simp]: "tx_key h \<noteq> totalnum_prefix" "totalnum_prefix \<noteq> tx_key h"
  by (simp_all add: tx_key_def tx_prefix_def totalnum_prefix_def bytes_of_def)

lemma prefix_tx_key: "prefix tx_prefix k \<longleftrightarrow> (\<exists>h. k = tx_key h)"
  by (auto simp: prefix_def tx_key_def)

lemma item_key_Done [simp]: "item_key B (x\<lparr>Done := b\<rparr>) = item_key B x"
  by (simp add: item_key_def)

lemma item_key_canon [simp]: "item_key B (canon_saved x) = item_key B x"
  by (simp add: item_key_def)

lemma saved_ok_Done [simp]: "saved_ok B (x\<lparr>Done := b\<rparr>) = saved_ok B x"
  by (simp add: saved_ok_def)

lemma cache_get_Some: "cache_get B h c = Some x \<Longrightarrow> x \<in> set (cache_list c) \<and> item_key B x = h"
  by (auto simp: cache_get_def find_Some_iff) (metis nth_mem set_rev length_rev)

lemma cache_get_None: "cache_get B h c = None \<longleftrightarrow> h \<notin> item_key B ` set (cache_list c)"
  by (auto simp: cache_get_def find_None_iff)

lemma distinct_key_unique:
  "distinct (map f xs) \<Longrightarrow> x \<in> set xs \<Longrightarrow> y \<in> set xs \<Longrightarrow> f x = f y \<Longrightarrow> x = y"
  by (metis distinct_map inj_on_eq_iff)

lemma cache_get_unique:
  "distinct (map (item_key B) (cache_list c)) \<Longrightarrow> x \<in> set (cache_list c)
     \<Longrightarrow> cache_get B (item_key B x) c = Some x"
  by (cases "cache_get B (item_key B x) c")
    (auto simp: cache_get_None dest!: cache_get_Some intro: distinct_key_unique)

lemma map_mark_first: "(\<And>x. f (x\<lparr>Done := True\<rparr>) = f x) \<Longrightarrow> map f (mark_first p xs) = map f xs"
  by (induction xs) auto

lemma length_mark_first [simp]: "length (mark_first p xs) = length xs"
  by (induction xs) auto

lemma mark_first_unique:
  "distinct (map f xs) \<Longrightarrow>
     mark_first (\<lambda>x. f x = h) xs = map (\<lambda>x. if f x = h then x\<lparr>Done := True\<rparr> else x) xs"
proof (induction xs)
  case (Cons x xs)
  have "map (\<lambda>y. if f y = f x then y\<lparr>Done := True\<rparr> else y) xs = xs"
    using Cons.prems by (intro map_idI) (auto simp: image_iff dest: sym)
  with Cons show ?case by auto
qed simp

lemma cache_mark_done_list:
  assumes "distinct (map (item_key B) (cache_list c))"
  shows "cache_list (cache_mark_done B h c)
           = map (\<lambda>x. if item_key B x = h then x\<lparr>Done := True\<rparr> else x) (cache_list c)"
proof -
  have "distinct (map (item_key B) (rev (cache_list c)))" using assms by (simp flip: rev_map)
  from mark_first_unique [OF this, of h] show ?thesis by (simp add: cache_mark_done_def rev_map)
qed

lemma cache_mark_done_frame [simp]:
  "cache_size (cache_mark_done B h c) = cache_size c"
  "totalCache (cache_mark_done B h c) = totalCache c"
  "length (cache_list (cache_mark_done B h c)) = length (cache_list c)"
  by (simp_all add: cache_mark_done_def)

lemma map_key_cache_mark_done:
  "map (item_key B) (cache_list (cache_mark_done B h c)) = map (item_key B) (cache_list c)"
  by (simp add: cache_mark_done_def rev_map map_mark_first flip: rev_map)

lemma cache_put_frame [simp]:
  "cache_size (cache_put x c) = cache_size c" "totalCache (cache_put x c) = totalCache c + 1"
  by (simp_all add: cache_put_def Let_def)

lemma cache_put_list:
  "cache_list (cache_put x c)
     = (if length (cache_list c) < cache_size c then cache_list c @ [x] else tl (cache_list c @ [x]))"
  by (simp add: cache_put_def Let_def)

lemma set_cache_put: "set (cache_list (cache_put x c)) \<subseteq> insert x (set (cache_list c))"
  by (cases "cache_list c") (auto simp: cache_put_list)


section \<open>The invariant\<close>

text \<open>The item stored under a hash, and every stored value in order and under its own key.\<close>

definition stored_item :: "btcd \<Rightarrow> (bytes \<Rightarrow> bytes option) \<Rightarrow> bytes \<Rightarrow> saved_item option" where
  "stored_item B m h =
     (case m (tx_key h) of None \<Rightarrow> None
      | Some raw \<Rightarrow> (case deserialize_saved B raw of Inl e \<Rightarrow> None | Inr y \<Rightarrow> Some y))"

definition store_ok :: "btcd \<Rightarrow> (bytes \<Rightarrow> bytes option) \<Rightarrow> bool" where
  "store_ok B m \<longleftrightarrow>
     (\<forall>h raw. m (tx_key h) = Some raw \<longrightarrow>
        (\<exists>y. saved_ok B y \<and> canon_saved y = y \<and> item_key B y = h \<and> serialize_saved B y = Inr raw))"

text \<open>
  A cached item is stored under its key, with the same transaction and time; it may be marked done
  before the stored one is, when the write that follows fails.
\<close>

definition cached_ok :: "btcd \<Rightarrow> (bytes \<Rightarrow> bytes option) \<Rightarrow> saved_item \<Rightarrow> bool" where
  "cached_ok B m x \<longleftrightarrow>
     saved_ok B x
     \<and> (\<exists>b. stored_item B m (item_key B x) = Some ((canon_saved x)\<lparr>Done := b\<rparr>) \<and> (b \<longrightarrow> Done x))"

definition vdb_inv :: "btcd \<Rightarrow> 'd leveldb \<Rightarrow> 'd vendor_db \<Rightarrow> bool" where
  "vdb_inv B L v \<longleftrightarrow>
     leveldb_ok L
     \<and> cache_size (txCache v) = CACHE_SIZE \<and> cache_len (txCache v) \<le> CACHE_SIZE
     \<and> distinct (map (item_key B) (cache_list (txCache v)))
     \<and> store_ok B (ldb_map L (db v))
     \<and> (\<forall>x \<in> set (cache_list (txCache v)). cached_ok B (ldb_map L (db v)) x)"

lemma store_ok_item:
  assumes "store_ok B m" and "m (tx_key h) = Some raw"
  obtains y where "saved_ok B y" "canon_saved y = y" "item_key B y = h" "serialize_saved B y = Inr raw"
    "deserialize_saved B raw = Inr y" "stored_item B m h = Some y"
proof -
  from assms obtain y where y: "saved_ok B y" "canon_saved y = y" "item_key B y = h" "serialize_saved B y = Inr raw"
    by (auto simp: store_ok_def)
  then have "deserialize_saved B raw = Inr y" using saved.dec_enc_exact [OF y(1,4)] by simp
  with y that assms(2) show thesis by (simp add: stored_item_def)
qed

lemma stored_item_Some:
  assumes "store_ok B m" and "stored_item B m h = Some y"
  shows "m (tx_key h) \<noteq> None" "saved_ok B y" "canon_saved y = y" "item_key B y = h"
proof -
  from assms(2) obtain raw where raw: "m (tx_key h) = Some raw"
    by (auto simp: stored_item_def split: option.splits)
  with assms(1) obtain z where "saved_ok B z" "canon_saved z = z" "item_key B z = h" "stored_item B m h = Some z"
    by (rule store_ok_item)
  with assms(2) raw show "m (tx_key h) \<noteq> None" "saved_ok B y" "canon_saved y = y" "item_key B y = h"
    by simp_all
qed

lemma stored_item_None: "store_ok B m \<Longrightarrow> stored_item B m h = None \<longleftrightarrow> m (tx_key h) = None"
  by (cases "m (tx_key h)") (auto simp: stored_item_def elim: store_ok_item)

text \<open>Writing an item in order, canonical, under its key.\<close>

lemma serialized_stored:
  assumes "saved_ok B x" and "serialize_saved B x = Inr raw"
  shows "store_ok B m \<Longrightarrow> store_ok B (m(tx_key (item_key B x) \<mapsto> raw))"
    and "stored_item B (m(tx_key (item_key B x) \<mapsto> raw)) h
           = (if h = item_key B x then Some (canon_saved x) else stored_item B m h)"
proof -
  note canon = saved.ok_canon [OF assms(1)] saved.enc_canon [OF assms(1)]
  show "store_ok B m \<Longrightarrow> store_ok B (m(tx_key (item_key B x) \<mapsto> raw))"
    using canon assms(2) by (auto simp: store_ok_def intro!: exI [of _ "canon_saved x"])
  show "stored_item B (m(tx_key (item_key B x) \<mapsto> raw)) h
          = (if h = item_key B x then Some (canon_saved x) else stored_item B m h)"
    using saved.dec_enc_exact [OF assms] by (simp add: stored_item_def)
qed

lemma total_not_stored [simp]:
  "stored_item B (m(totalnum_prefix \<mapsto> b)) = stored_item B m"
  "store_ok B (m(totalnum_prefix \<mapsto> b)) = store_ok B m"
  "cached_ok B (m(totalnum_prefix \<mapsto> b)) = cached_ok B m"
  by (auto simp: stored_item_def store_ok_def cached_ok_def fun_eq_iff)

lemma cached_ok_put:
  assumes "cached_ok B m y" and "saved_ok B x" "serialize_saved B x = Inr raw"
    and "item_key B y \<noteq> item_key B x"
  shows "cached_ok B (m(tx_key (item_key B x) \<mapsto> raw)) y"
  using assms by (auto simp: cached_ok_def serialized_stored)

lemma canon_Done_eq: "(canon_saved x)\<lparr>Done := Done x\<rparr> = canon_saved x"
  by (simp add: canon_saved_def)

lemma cached_ok_new:
  assumes "saved_ok B x" "serialize_saved B x = Inr raw"
  shows "cached_ok B (m(tx_key (item_key B x) \<mapsto> raw)) x"
  using assms
  by (auto simp: cached_ok_def serialized_stored canon_Done_eq intro!: exI [of _ "Done x"])


section \<open>Every operation keeps the invariant, whatever fails\<close>

lemma put_signed_tx_cases:
  assumes "put_signed_tx B L v h item = (r, v')"
  obtains (unchanged) "v' = v"
  | (put_failed) raw e d where "cache_get B h (txCache v) = None" "ldb_get L (db v) (tx_key h) = Inl NotFound"
      "serialize_saved B item = Inr raw" "ldb_put L (db v) (tx_key h) raw = (Some e, d)"
      "r = Some e" "v' = v\<lparr>db := d\<rparr>"
  | (written) raw d d' where "cache_get B h (txCache v) = None" "ldb_get L (db v) (tx_key h) = Inl NotFound"
      "serialize_saved B item = Inr raw" "ldb_put L (db v) (tx_key h) raw = (None, d)"
      "ldb_put L d totalnum_prefix (write_u64 (totalCache (txCache v) + 1)) = (r, d')"
      "v' = v\<lparr>db := d', txCache := cache_put item (txCache v)\<rparr>"
  using assms that
  by (auto simp: put_signed_tx_def Let_def split: option.splits sum.splits prod.splits if_splits)

lemma vdb_inv_store:
  assumes "vdb_inv B L v" and "ldb_map L d = ldb_map L (db v)"
  shows "vdb_inv B L (v\<lparr>db := d\<rparr>)"
  using assms by (simp add: vdb_inv_def)

text \<open>A new item is written: before and after it enters the cache.\<close>

lemma vdb_inv_new_item:
  assumes inv: "vdb_inv B L v" and item: "saved_ok B item" "serialize_saved B item = Inr raw"
    and new: "cache_get B (item_key B item) (txCache v) = None"
    and d: "ldb_map L d = (ldb_map L (db v))(tx_key (item_key B item) \<mapsto> raw)"
  shows "vdb_inv B L (v\<lparr>db := d\<rparr>)"
    and "vdb_inv B L (v\<lparr>db := d, txCache := cache_put item (txCache v)\<rparr>)"
proof -
  have old: "cached_ok B (ldb_map L d) y" if "y \<in> set (cache_list (txCache v))" for y
    using that inv new item unfolding d
    by (intro cached_ok_put) (simp_all add: vdb_inv_def cache_get_None, metis image_eqI)
  show "vdb_inv B L (v\<lparr>db := d\<rparr>)"
    using inv old item by (simp add: vdb_inv_def d serialized_stored)
  have "cached_ok B (ldb_map L d) item" unfolding d by (rule cached_ok_new [OF item])
  then have all: "\<forall>y \<in> set (cache_list (cache_put item (txCache v))). cached_ok B (ldb_map L d) y"
    using old set_cache_put by fastforce
  have "distinct (map (item_key B) (cache_list (txCache v) @ [item]))"
    using inv new by (auto simp: vdb_inv_def cache_get_None)
  then have dist: "distinct (map (item_key B) (cache_list (cache_put item (txCache v))))"
    by (auto simp: cache_put_list map_tl distinct_tl simp del: map_append)
  have len: "cache_len (cache_put item (txCache v)) \<le> CACHE_SIZE"
    using inv by (auto simp: vdb_inv_def cache_len_def cache_put_list)
  show "vdb_inv B L (v\<lparr>db := d, txCache := cache_put item (txCache v)\<rparr>)"
    using inv all dist len item by (simp add: vdb_inv_def d serialized_stored)
qed

lemma put_signed_tx_inv:
  assumes inv: "vdb_inv B L v" and item: "saved_ok B item"
    and put: "put_signed_tx B L v (item_key B item) item = (r, v')"
  shows "vdb_inv B L v'"
  using put
proof (cases rule: put_signed_tx_cases)
  case unchanged
  with inv show ?thesis by simp
next
  case (put_failed raw e d)
  have L: "leveldb_ok L" using inv by (simp add: vdb_inv_def)
  from leveldb_okD(4) [OF L put_failed(4)] show ?thesis
    using vdb_inv_store [OF inv] vdb_inv_new_item(1) [OF inv item put_failed(3,1)] put_failed(6) by auto
next
  case (written raw d d')
  have L: "leveldb_ok L" using inv by (simp add: vdb_inv_def)
  let ?v = "v\<lparr>db := d, txCache := cache_put item (txCache v)\<rparr>"
  have v: "vdb_inv B L ?v"
    using vdb_inv_new_item(2) [OF inv item written(3,1) leveldb_okD(3) [OF L written(4)]] .
  have "ldb_map L d' = ldb_map L d \<or> (\<exists>b. ldb_map L d' = (ldb_map L d)(totalnum_prefix \<mapsto> b))"
    using written(5) leveldb_okD(3,4) [OF L] by (cases r) blast+
  then have "vdb_inv B L (?v\<lparr>db := d'\<rparr>)"
    using v by (auto simp: vdb_inv_def)
  with written(6) show ?thesis by (simp add: vdb_inv_def)
qed

lemma set_tx_done_cases:
  assumes "set_tx_done B L v h = (r, v')"
  obtains (not_read) e where "r = Some e"
      "v' = v \<or> v' = v\<lparr>txCache := cache_mark_done B h (txCache v)\<rparr>"
  | (written) val y raw d where "ldb_get L (db v) (tx_key h) = Inr val" "deserialize_saved B val = Inr y"
      "raw = (case serialize_saved B (y\<lparr>Done := True\<rparr>) of Inl e \<Rightarrow> [] | Inr raw \<Rightarrow> raw)"
      "ldb_put L (db v) (tx_key h) raw = (r, d)"
      "(cache_get B h (txCache v) = None \<and> v' = v\<lparr>db := d\<rparr>)
        \<or> v' = v\<lparr>db := d, txCache := cache_mark_done B h (txCache v)\<rparr>"
  using assms that
  by (auto simp: set_tx_done_def Let_def split: option.splits sum.splits prod.splits)

lemma cached_ok_mark: "cached_ok B m x \<Longrightarrow> cached_ok B m (x\<lparr>Done := True\<rparr>)"
  by (auto simp: cached_ok_def)

lemma vdb_inv_mark:
  assumes "vdb_inv B L v"
  shows "vdb_inv B L (v\<lparr>txCache := cache_mark_done B h (txCache v)\<rparr>)"
proof -
  have d: "distinct (map (item_key B) (cache_list (txCache v)))" using assms by (simp add: vdb_inv_def)
  then have "\<forall>x \<in> set (cache_list (cache_mark_done B h (txCache v))). cached_ok B (ldb_map L (db v)) x"
    using assms by (auto simp: vdb_inv_def cache_mark_done_list cached_ok_mark)
  then show ?thesis
    using assms map_key_cache_mark_done [of B h "txCache v"] by (simp add: vdb_inv_def cache_len_def)
qed

text \<open>The stored item is replaced by the same item marked done.\<close>

lemma cached_ok_done:
  assumes x: "cached_ok B m x" "Done x" and y: "stored_item B m h = Some y" "saved_ok B y"
    and key: "item_key B y = h" "item_key B x = h"
    and raw: "serialize_saved B (y\<lparr>Done := True\<rparr>) = Inr raw"
  shows "cached_ok B (m(tx_key h \<mapsto> raw)) x"
proof -
  from x(1) key(2) y(1) have yx: "y = (canon_saved x)\<lparr>Done := Done y\<rparr>" and ok: "saved_ok B x"
    by (auto simp: cached_ok_def)
  have "canon_saved (y\<lparr>Done := True\<rparr>) = (canon_saved x)\<lparr>Done := True\<rparr>"
    by (subst yx) simp
  then have "stored_item B (m(tx_key h \<mapsto> raw)) h = Some ((canon_saved x)\<lparr>Done := True\<rparr>)"
    using serialized_stored(2) [of B "y\<lparr>Done := True\<rparr>" raw m h] y(2) raw key(1) by simp
  with ok x(2) key(2) show ?thesis by (auto simp: cached_ok_def)
qed

lemma set_tx_done_inv:
  assumes inv: "vdb_inv B L v" and mark: "set_tx_done B L v h = (r, v')"
  shows "vdb_inv B L v'"
  using mark
proof (cases rule: set_tx_done_cases)
  case not_read
  then show ?thesis using inv vdb_inv_mark by auto
next
  case (written val y raw d)
  have L: "leveldb_ok L" and store: "store_ok B (ldb_map L (db v))"
    and dist: "distinct (map (item_key B) (cache_list (txCache v)))"
    using inv by (simp_all add: vdb_inv_def)
  have "ldb_map L (db v) (tx_key h) = Some val" using leveldb_okD(1) [OF L written(1)] .
  then obtain y' where y': "saved_ok B y'" "item_key B y' = h"
      "deserialize_saved B val = Inr y'" "stored_item B (ldb_map L (db v)) h = Some y'"
    by (rule store_ok_item [OF store])
  then have y: "saved_ok B y" "item_key B y = h" "stored_item B (ldb_map L (db v)) h = Some y"
    using written(2) by simp_all
  have ok: "saved_ok B (y\<lparr>Done := True\<rparr>)" using y(1) by simp
  then obtain raw' where raw': "serialize_saved B (y\<lparr>Done := True\<rparr>) = Inr raw'"
    using saved.enc_ok by blast
  have raw: "raw = raw'" using written(3) raw' by simp
  let ?m = "(ldb_map L (db v))(tx_key h \<mapsto> raw')"
  let ?v = "v\<lparr>txCache := cache_mark_done B h (txCache v)\<rparr>"
  have same: "cache_mark_done B h (txCache v) = txCache v" if "cache_get B h (txCache v) = None"
  proof -
    have "cache_list (cache_mark_done B h (txCache v)) = cache_list (txCache v)"
      using that by (auto simp: cache_mark_done_list [OF dist] cache_get_None intro!: map_idI)
    then show ?thesis by (simp add: cache_mark_done_def)
  qed
  have v': "v' = ?v\<lparr>db := d\<rparr>" using written(5) same by auto
  have inv': "vdb_inv B L ?v" by (rule vdb_inv_mark [OF inv])
  have new: "cached_ok B ?m x" if "x \<in> set (cache_list (txCache ?v))" for x
  proof (cases "item_key B x = h")
    case True
    have "x \<in> (\<lambda>x. if item_key B x = h then x\<lparr>Done := True\<rparr> else x) ` set (cache_list (txCache v))"
      using that by (simp add: cache_mark_done_list [OF dist])
    then obtain x0 where "x = (if item_key B x0 = h then x0\<lparr>Done := True\<rparr> else x0)"
      by (rule imageE)
    with True have "Done x" by (cases "item_key B x0 = h") simp_all
    moreover have "cached_ok B (ldb_map L (db v)) x" using that inv' by (simp add: vdb_inv_def)
    ultimately show ?thesis
      by (intro cached_ok_done [OF _ _ y(3,1,2) True raw'])
  next
    case False
    have "cached_ok B (ldb_map L (db v)) x" using that inv' by (simp add: vdb_inv_def)
    from cached_ok_put [OF this ok raw'] False y(2) show ?thesis by simp
  qed
  have "store_ok B ?m" using serialized_stored(1) [OF ok raw' store] y(2) by simp
  then have "vdb_inv B L (?v\<lparr>db := d\<rparr>)" if "ldb_map L d = ?m"
    using inv' new that by (simp add: vdb_inv_def)
  moreover have "vdb_inv B L (?v\<lparr>db := d\<rparr>)" if "ldb_map L d = ldb_map L (db v)"
    using vdb_inv_store [OF inv'] that by simp
  moreover have "ldb_map L d = ldb_map L (db v) \<or> ldb_map L d = ?m"
    using written(4) leveldb_okD(3,4) [OF L] raw by (cases r) blast+
  ultimately show ?thesis using v' by auto
qed

end
