(* ===== verification/Tx_Store.thy ===== *)
theory Tx_Store
  imports Prelude
begin

text \<open>
  The contract of the transaction store with the signer (which puts) and the observer (which
  marks done): on storage that does not fail it is a map in which a put of a new key adds the
  item, a put of a known key changes nothing, and marking done succeeds exactly for a known key.
  The database of \<open>db/db.go\<close> is proved to meet it in \<open>Vendor_DB_Contract\<close>.
\<close>

datatype ('h, 'i) store_op = PutOp 'h 'i | DoneOp 'h

primrec store_step ::
  "('s \<Rightarrow> 'h \<Rightarrow> 'i \<Rightarrow> 'e option \<times> 's) \<Rightarrow> ('s \<Rightarrow> 'h \<Rightarrow> 'e option \<times> 's)
     \<Rightarrow> 's \<Rightarrow> ('h, 'i) store_op \<Rightarrow> 's" where
  "store_step put set_done s (PutOp h x) = snd (put s h x)"
| "store_step put set_done s (DoneOp h) = snd (set_done s h)"

text \<open>The same operations on the map.\<close>

primrec abs_step ::
  "('i \<Rightarrow> 'i) \<Rightarrow> ('i \<Rightarrow> 'i) \<Rightarrow> ('h \<Rightarrow> 'i option) \<Rightarrow> ('h, 'i) store_op \<Rightarrow> ('h \<Rightarrow> 'i option)" where
  "abs_step canon mark m (PutOp h x) = (if m h = None then m(h \<mapsto> canon x) else m)"
| "abs_step canon mark m (DoneOp h) = (case m h of None \<Rightarrow> m | Some y \<Rightarrow> m(h \<mapsto> mark y))"

primrec good_op :: "('h \<Rightarrow> 'i \<Rightarrow> bool) \<Rightarrow> ('h, 'i) store_op \<Rightarrow> bool" where
  "good_op ok (PutOp h x) = ok h x"
| "good_op ok (DoneOp h) = True"

locale tx_store =
  fixes put :: "'s \<Rightarrow> 'h \<Rightarrow> 'i \<Rightarrow> 'e option \<times> 's"
    and get :: "'s \<Rightarrow> 'h \<Rightarrow> 'e + 'i"
    and set_done :: "'s \<Rightarrow> 'h \<Rightarrow> 'e option \<times> 's"
    and invar :: "'s \<Rightarrow> bool"
    and ok :: "'h \<Rightarrow> 'i \<Rightarrow> bool"
    and canon :: "'i \<Rightarrow> 'i"
    and mark :: "'i \<Rightarrow> 'i"
    and contents :: "'s \<Rightarrow> 'h \<Rightarrow> 'i option"
  assumes put_law: "invar s \<Longrightarrow> ok h x \<Longrightarrow> put s h x = (r, s') \<Longrightarrow>
             invar s' \<and> r = None \<and> contents s' = (if contents s h = None then (contents s)(h \<mapsto> canon x) else contents s)"
    and done_law: "invar s \<Longrightarrow> set_done s h = (r, s') \<Longrightarrow>
             invar s' \<and> (r = None \<longleftrightarrow> contents s h \<noteq> None)
             \<and> contents s' = (case contents s h of None \<Rightarrow> contents s | Some y \<Rightarrow> (contents s)(h \<mapsto> mark y))"
    and get_law: "invar s \<Longrightarrow>
             contents s h = (case get s h of Inl e \<Rightarrow> None | Inr x \<Rightarrow> Some (canon x))"
    and mark_mark: "mark (mark y) = mark y"

sublocale tx_store \<subseteq> run_system "store_step put set_done" invar "good_op ok"
proof
  fix s op assume inv: "invar s" and good: "good_op ok op"
  show "invar (store_step put set_done s op)"
  proof (cases op)
    case (PutOp h x)
    obtain r s' where "put s h x = (r, s')" by force
    with PutOp good put_law [OF inv _ this] show ?thesis by simp
  next
    case (DoneOp h)
    obtain r s' where "set_done s h = (r, s')" by force
    with DoneOp done_law [OF inv this] show ?thesis by simp
  qed
qed

context tx_store
begin

lemma step_contents:
  assumes "invar s" "good_op ok op"
  shows "contents (store_step put set_done s op) = abs_step canon mark (contents s) op"
proof (cases op)
  case (PutOp h x)
  obtain r s' where p: "put s h x = (r, s')" by force
  with PutOp assms put_law [OF assms(1) _ p] show ?thesis by simp
next
  case (DoneOp h)
  obtain r s' where p: "set_done s h = (r, s')" by force
  with DoneOp done_law [OF assms(1) p] show ?thesis by simp
qed

lemma run_contents:
  "invar s \<Longrightarrow> list_all (good_op ok) ops \<Longrightarrow>
     contents (foldl (store_step put set_done) s ops) = foldl (abs_step canon mark) (contents s) ops"
  by (rule run_simulation) (rule step_contents)

text \<open>The first item put under a key stays; it can only be marked done, for good.\<close>

lemma run_keeps_item:
  assumes "invar s" "list_all (good_op ok) ops" "contents s h = Some y"
  shows "contents (foldl (store_step put set_done) s ops) h \<in> {Some y, Some (mark y)}"
proof (rule run_stable [where Q = "\<lambda>s. contents s h \<in> {Some y, Some (mark y)}"])
  show "contents (store_step put set_done s op) h \<in> {Some y, Some (mark y)}"
    if "invar s" "good_op ok op" "contents s h \<in> {Some y, Some (mark y)}" for s op
    using step_contents [OF that(1,2)] that(3)
    by (cases op) (auto simp: mark_mark simp del: store_step.simps split: option.splits if_splits)
qed (use assms in auto)

lemma run_keeps_done:
  assumes "invar s" "list_all (good_op ok) ops" "contents s h = Some (mark y)"
  shows "contents (foldl (store_step put set_done) s ops) h = Some (mark y)"
  using run_keeps_item [OF assms] by (simp add: mark_mark)

lemma done_after_put:
  assumes inv: "invar s" and ok: "ok h x" and new: "contents s h = None"
    and ops: "list_all (good_op ok) ops"
    and p: "put s h x = (r, s')" and q: "set_done (foldl (store_step put set_done) s' ops) h = (r', s'')"
  shows "r = None \<and> r' = None \<and> contents s'' h = Some (mark (canon x))"
proof -
  from put_law [OF inv ok p] new have s': "invar s'" "r = None" "contents s' h = Some (canon x)" by auto
  let ?t = "foldl (store_step put set_done) s' ops"
  have t: "invar ?t" using run_invar [OF s'(1) ops] .
  have "contents ?t h \<in> {Some (canon x), Some (mark (canon x))}" by (rule run_keeps_item [OF s'(1) ops s'(3)])
  with done_law [OF t q] s'(2) show ?thesis by (auto simp: mark_mark)
qed

text \<open>A done mark that comes before the put is lost.\<close>

lemma done_before_put:
  assumes inv: "invar s" and ok: "ok h x" and new: "contents s h = None"
    and q: "set_done s h = (r', s')" and p: "put s' h x = (r, s'')"
  shows "r' \<noteq> None \<and> contents s'' h = Some (canon x)"
  using done_law [OF inv q] put_law [OF _ ok p] new by auto

end

end
