(* ===== verification/Vendor_DB_Contract.thy ===== *)
theory Vendor_DB_Contract
  imports Vendor_DB Tx_Store
begin

text \<open>
  The database of \<open>db/db.go\<close> on storage that does not fail meets the contract
  \<open>tx_store\<close>, keeps an exact count, survives a reopening, and caches the last 100 puts;
  \<open>ReadFirstBatch\<close> returns the youngest items.
\<close>

section \<open>The invariant of a run without failures\<close>

definition stored_hashes :: "(bytes \<Rightarrow> bytes option) \<Rightarrow> bytes set" where
  "stored_hashes m = {h. m (tx_key h) \<noteq> None}"

text \<open>The count in the cache and the one on disk are the number of stored transactions.\<close>

definition total_ok :: "(bytes \<Rightarrow> bytes option) \<Rightarrow> u64 \<Rightarrow> bool" where
  "total_ok m n \<longleftrightarrow>
     n = of_nat (card (stored_hashes m))
     \<and> (case m totalnum_prefix of None \<Rightarrow> stored_hashes m = {} | Some b \<Rightarrow> b = write_u64 n)"

definition vdb_sound :: "btcd \<Rightarrow> 'd leveldb \<Rightarrow> 'd vendor_db \<Rightarrow> bool" where
  "vdb_sound B L v \<longleftrightarrow>
     vdb_inv B L v \<and> leveldb_reliable L
     \<and> (\<forall>x \<in> set (cache_list (txCache v)).
          stored_item B (ldb_map L (db v)) (item_key B x) = Some (canon_saved x))
     \<and> total_ok (ldb_map L (db v)) (totalCache (txCache v))"

text \<open>The abstract state: the stored items by hash.\<close>

definition stored :: "btcd \<Rightarrow> 'd leveldb \<Rightarrow> 'd vendor_db \<Rightarrow> bytes \<Rightarrow> saved_item option" where
  "stored B L v = stored_item B (ldb_map L (db v))"

definition put_ok :: "btcd \<Rightarrow> bytes \<Rightarrow> saved_item \<Rightarrow> bool" where
  "put_ok B h x \<longleftrightarrow> saved_ok B x \<and> item_key B x = h"

definition mark_saved :: "saved_item \<Rightarrow> saved_item" where
  "mark_saved x = x\<lparr>Done := True\<rparr>"

lemma vdb_soundD:
  assumes "vdb_sound B L v"
  shows "vdb_inv B L v" "leveldb_reliable L" "leveldb_ok L" "store_ok B (ldb_map L (db v))"
    "distinct (map (item_key B) (cache_list (txCache v)))"
    "total_ok (ldb_map L (db v)) (totalCache (txCache v))"
    "x \<in> set (cache_list (txCache v)) \<Longrightarrow> stored B L v (item_key B x) = Some (canon_saved x)"
    "x \<in> set (cache_list (txCache v)) \<Longrightarrow> saved_ok B x"
proof -
  show inv: "vdb_inv B L v" and "leveldb_reliable L" and total: "total_ok (ldb_map L (db v)) (totalCache (txCache v))"
    and "x \<in> set (cache_list (txCache v)) \<Longrightarrow> stored B L v (item_key B x) = Some (canon_saved x)"
    using assms by (simp_all add: vdb_sound_def stored_def)
  from inv show "leveldb_ok L" "store_ok B (ldb_map L (db v))"
    "distinct (map (item_key B) (cache_list (txCache v)))"
    "x \<in> set (cache_list (txCache v)) \<Longrightarrow> saved_ok B x"
    by (simp_all add: vdb_inv_def cached_ok_def)
qed

lemma reliableD:
  assumes "leveldb_reliable L"
  shows "ldb_get L d k = Inl e \<Longrightarrow> e = NotFound"
    and "ldb_put L d k v = (r, d') \<Longrightarrow> r = None"
    and "ldb_scan L d p = (vs, r') \<Longrightarrow> r' = None"
proof -
  from assms have get: "case ldb_get L d k of Inl e \<Rightarrow> e = NotFound | Inr v \<Rightarrow> True"
    and put: "fst (ldb_put L d k v) = None" and scan: "snd (ldb_scan L d p) = None"
    unfolding leveldb_reliable_def by blast+
  show "ldb_get L d k = Inl e \<Longrightarrow> e = NotFound" using get by simp
  show "ldb_put L d k v = (r, d') \<Longrightarrow> r = None" using put by simp
  show "ldb_scan L d p = (vs, r') \<Longrightarrow> r' = None" using scan by simp
qed

lemma finite_stored_hashes:
  assumes "leveldb_ok L"
  shows "finite (stored_hashes (ldb_map L d))"
proof (rule finite_imageD [of tx_key])
  show "finite (tx_key ` stored_hashes (ldb_map L d))"
    using leveldb_okD(5) [OF assms, of d] by (rule rev_finite_subset) (auto simp: stored_hashes_def)
qed (simp add: inj_on_def)

lemma stored_hashes_simps [simp]:
  "stored_hashes (m(tx_key h \<mapsto> v)) = insert h (stored_hashes m)"
  "stored_hashes (m(totalnum_prefix \<mapsto> v)) = stored_hashes m"
  by (auto simp: stored_hashes_def)

lemma stored_None_iff:
  "vdb_sound B L v \<Longrightarrow> stored B L v h = None \<longleftrightarrow> h \<notin> stored_hashes (ldb_map L (db v))"
  by (simp add: stored_def stored_hashes_def stored_item_None vdb_soundD(4))

text \<open>A known key: nothing changes.\<close>

lemma put_known:
  assumes "vdb_sound B L v" and "stored B L v h \<noteq> None"
  shows "put_signed_tx B L v h x = (None, v)"
proof (cases "ldb_get L (db v) (tx_key h)")
  case (Inl e)
  with reliableD(1) [OF vdb_soundD(2) [OF assms(1)] Inl] have "ldb_get L (db v) (tx_key h) = Inl NotFound" by blast
  then have "ldb_map L (db v) (tx_key h) = None" by (rule leveldb_okD(2) [OF vdb_soundD(3) [OF assms(1)]])
  with assms(2) show ?thesis by (simp add: stored_def stored_item_def)
qed (simp add: put_signed_tx_def split: option.splits)

lemma put_fresh:
  assumes sound: "vdb_sound B L v" and x: "put_ok B h x" and new: "stored B L v h = None"
  obtains raw d d' where "serialize_saved B x = Inr raw"
    "ldb_map L d = (ldb_map L (db v))(tx_key h \<mapsto> raw)"
    "ldb_map L d' = (ldb_map L d)(totalnum_prefix \<mapsto> write_u64 (totalCache (txCache v) + 1))"
    "put_signed_tx B L v h x = (None, v\<lparr>db := d', txCache := cache_put x (txCache v)\<rparr>)"
proof -
  note D = vdb_soundD [OF sound] and R = reliableD [OF vdb_soundD(2) [OF sound]]
  have m: "ldb_map L (db v) (tx_key h) = None"
    using new D(4) by (simp add: stored_def stored_item_None)
  have get: "ldb_get L (db v) (tx_key h) = Inl NotFound"
    using R(1) leveldb_okD(1) [OF D(3)] m by (cases "ldb_get L (db v) (tx_key h)") auto
  have cache: "cache_get B h (txCache v) = None"
    using new D(7) by (auto simp: cache_get_None)
  obtain raw where raw: "serialize_saved B x = Inr raw"
    using x saved.enc_ok by (auto simp: put_ok_def)
  obtain d where d: "ldb_put L (db v) (tx_key h) raw = (None, d)"
    using R(2) by (metis prod.collapse)
  obtain d' where d': "ldb_put L d totalnum_prefix (write_u64 (totalCache (txCache v) + 1)) = (None, d')"
    using R(2) by (metis prod.collapse)
  show thesis
    using that [OF raw leveldb_okD(3) [OF D(3) d] leveldb_okD(3) [OF D(3) d']]
    by (simp add: put_signed_tx_def cache get raw d d' Let_def)
qed

lemma put_contract:
  assumes sound: "vdb_sound B L v" and x: "put_ok B h x"
    and put: "put_signed_tx B L v h x = (r, v')"
  shows "vdb_sound B L v' \<and> r = None
         \<and> stored B L v' = (if stored B L v h = None then (stored B L v)(h \<mapsto> canon_saved x) else stored B L v)"
proof (cases "stored B L v h = None")
  case False
  then show ?thesis using put_known [OF sound] sound put by auto
next
  case True
  note D = vdb_soundD [OF sound]
  have ok: "saved_ok B x" and key: "item_key B x = h" using x by (simp_all add: put_ok_def)
  obtain raw d d' where raw: "serialize_saved B x = Inr raw"
    and d: "ldb_map L d = (ldb_map L (db v))(tx_key h \<mapsto> raw)"
    and d': "ldb_map L d' = (ldb_map L d)(totalnum_prefix \<mapsto> write_u64 (totalCache (txCache v) + 1))"
    and res: "put_signed_tx B L v h x = (None, v\<lparr>db := d', txCache := cache_put x (txCache v)\<rparr>)"
    by (rule put_fresh [OF sound x True])
  have v': "v' = v\<lparr>db := d', txCache := cache_put x (txCache v)\<rparr>" "r = None" using res put by simp_all
  have st: "stored B L v' = (stored B L v)(h \<mapsto> canon_saved x)"
    using serialized_stored(2) [OF ok raw] key by (auto simp: stored_def v' d' d)
  have inv: "vdb_inv B L v'" using put_signed_tx_inv [OF D(1) ok] put key by simp
  have "stored B L v' (item_key B y) = Some (canon_saved y)" if "y \<in> set (cache_list (txCache v'))" for y
    using that set_cache_put [of x "txCache v"] D(7) [of y] st key True by (auto simp: v')
  moreover have "total_ok (ldb_map L (db v')) (totalCache (txCache v'))"
  proof -
    have "h \<notin> stored_hashes (ldb_map L (db v))" using True sound by (simp add: stored_None_iff)
    then have "card (insert h (stored_hashes (ldb_map L (db v)))) = Suc (card (stored_hashes (ldb_map L (db v))))"
      using finite_stored_hashes [OF D(3)] by simp
    with D(6) show ?thesis by (simp add: total_ok_def v' d d' add.commute)
  qed
  ultimately show ?thesis
    using inv D(2) st v' True by (simp add: vdb_sound_def stored_def)
qed

lemma get_contract:
  assumes sound: "vdb_sound B L v"
  shows "stored B L v h = (case get_signed_tx B L v h of Inl e \<Rightarrow> None | Inr x \<Rightarrow> Some (canon_saved x))"
proof (cases "cache_get B h (txCache v)")
  case (Some x)
  with cache_get_Some [OF Some] vdb_soundD(7) [OF sound, of x] show ?thesis
    by (simp add: get_signed_tx_def)
next
  case None
  note D = vdb_soundD [OF sound] and R = reliableD [OF vdb_soundD(2) [OF sound]]
  show ?thesis
  proof (cases "ldb_get L (db v) (tx_key h)")
    case (Inl e)
    with R(1) have "ldb_get L (db v) (tx_key h) = Inl NotFound" by blast
    with leveldb_okD(2) [OF D(3) this] None show ?thesis
      by (simp add: get_signed_tx_def stored_def stored_item_def)
  next
    case (Inr val)
    then have "ldb_map L (db v) (tx_key h) = Some val" by (rule leveldb_okD(1) [OF D(3)])
    then obtain y where "deserialize_saved B val = Inr y" "canon_saved y = y"
        "stored_item B (ldb_map L (db v)) h = Some y"
      by (rule store_ok_item [OF D(4)])
    with None Inr show ?thesis by (simp add: get_signed_tx_def stored_def)
  qed
qed

lemma set_done_contract:
  assumes sound: "vdb_sound B L v" and mark: "set_tx_done B L v h = (r, v')"
  shows "vdb_sound B L v' \<and> (r = None \<longleftrightarrow> stored B L v h \<noteq> None)
         \<and> stored B L v' = (case stored B L v h of None \<Rightarrow> stored B L v
                            | Some y \<Rightarrow> (stored B L v)(h \<mapsto> mark_saved y))"
proof (cases "stored B L v h")
  case None
  note D = vdb_soundD [OF sound] and R = reliableD [OF vdb_soundD(2) [OF sound]]
  have "ldb_map L (db v) (tx_key h) = None"
    using None D(4) by (simp add: stored_def stored_item_None)
  then have get: "ldb_get L (db v) (tx_key h) = Inl NotFound"
    using R(1) leveldb_okD(1) [OF D(3)] by (cases "ldb_get L (db v) (tx_key h)") auto
  have "cache_get B h (txCache v) = None" using None D(7) by (auto simp: cache_get_None)
  then show ?thesis using mark get None sound by (auto simp: set_tx_done_def)
next
  case (Some y)
  note D = vdb_soundD [OF sound] and R = reliableD [OF vdb_soundD(2) [OF sound]]
  have y: "saved_ok B y" "canon_saved y = y" "item_key B y = h"
    using stored_item_Some [OF D(4)] Some by (simp_all add: stored_def)
  have "ldb_map L (db v) (tx_key h) \<noteq> None" using stored_item_Some(1) [OF D(4)] Some by (simp add: stored_def)
  with R(1) leveldb_okD(2) [OF D(3)] have "\<not> (\<exists>e. ldb_get L (db v) (tx_key h) = Inl e)" by metis
  then obtain val where val: "ldb_get L (db v) (tx_key h) = Inr val"
    by (cases "ldb_get L (db v) (tx_key h)") simp_all
  then have mval: "ldb_map L (db v) (tx_key h) = Some val" by (rule leveldb_okD(1) [OF D(3)])
  then have des: "deserialize_saved B val = Inr y"
    using Some mval by (simp add: stored_def stored_item_def split: sum.splits)
  have ok: "saved_ok B (y\<lparr>Done := True\<rparr>)" using y(1) by simp
  then obtain raw where raw: "serialize_saved B (y\<lparr>Done := True\<rparr>) = Inr raw" using saved.enc_ok by blast
  obtain d where d: "ldb_put L (db v) (tx_key h) raw = (None, d)" using R(2) by (metis prod.collapse)
  let ?c = "cache_mark_done B h (txCache v)"
  have v': "v' = v\<lparr>db := d, txCache := ?c\<rparr>" and r: "r = None"
  proof -
    have "cache_list ?c = cache_list (txCache v)" if "cache_get B h (txCache v) = None"
      using that by (auto simp: cache_mark_done_list [OF D(5)] cache_get_None intro!: map_idI)
    then have same: "?c = txCache v" if "cache_get B h (txCache v) = None"
      using that by (simp add: cache_mark_done_def)
    have "set_tx_done B L v h = (None, v\<lparr>db := d, txCache := ?c\<rparr>)"
      by (cases "cache_get B h (txCache v)") (simp_all add: set_tx_done_def Let_def val des raw d same)
    with mark show "v' = v\<lparr>db := d, txCache := ?c\<rparr>" "r = None" by simp_all
  qed
  have m: "ldb_map L d = (ldb_map L (db v))(tx_key h \<mapsto> raw)" by (rule leveldb_okD(3) [OF D(3) d])
  have st: "stored B L v' = (stored B L v)(h \<mapsto> mark_saved y)"
    using serialized_stored(2) [OF ok raw] y
    by (auto simp: stored_def v' m mark_saved_def)
  have inv: "vdb_inv B L v'" by (rule set_tx_done_inv [OF D(1) mark])
  have "stored B L v' (item_key B x) = Some (canon_saved x)" if "x \<in> set (cache_list ?c)" for x
  proof -
    have "x \<in> (\<lambda>x. if item_key B x = h then x\<lparr>Done := True\<rparr> else x) ` set (cache_list (txCache v))"
      using that by (simp add: cache_mark_done_list [OF D(5)])
    then obtain z where z: "z \<in> set (cache_list (txCache v))"
      and x: "x = (if item_key B z = h then z\<lparr>Done := True\<rparr> else z)" by (rule imageE)
    from D(7) [OF z] show ?thesis
      by (cases "item_key B z = h") (simp_all add: st x Some mark_saved_def)
  qed
  moreover have "total_ok (ldb_map L (db v')) (totalCache (txCache v'))"
  proof -
    have "h \<in> stored_hashes (ldb_map L (db v))" using mval by (simp add: stored_hashes_def)
    with D(6) show ?thesis by (auto simp: total_ok_def v' m insert_absorb split: option.splits)
  qed
  ultimately show ?thesis
    using inv D(2) st r Some v' by (simp add: vdb_sound_def stored_def)
qed

interpretation vdb: tx_store "put_signed_tx B L" "get_signed_tx B L" "set_tx_done B L"
  "vdb_sound B L" "put_ok B" canon_saved mark_saved "stored B L" for B L
proof
  show "mark_saved (mark_saved y) = mark_saved y" for y by (simp add: mark_saved_def)
qed (rule put_contract set_done_contract get_contract; assumption)+


section \<open>The cache holds the last 100 puts\<close>

definition last_n :: "nat \<Rightarrow> 'a list \<Rightarrow> 'a list" where
  "last_n n xs = drop (length xs - n) xs"

lemma last_n_snoc: "0 < n \<Longrightarrow> last_n n (last_n n xs @ [x]) = last_n n (xs @ [x])"
  by (cases "n \<le> length xs") (simp_all add: last_n_def Suc_diff_le)

lemma cache_put_last_n:
  assumes "cache_size c = n" "0 < n" "cache_list c = last_n n xs"
  shows "cache_list (cache_put x c) = last_n n (xs @ [x])"
proof -
  have "cache_list (cache_put x c) = last_n n (last_n n xs @ [x])"
  proof (cases "length (cache_list c) < n")
    case True
    with assms show ?thesis by (simp add: cache_put_list) (simp add: last_n_def)
  next
    case False
    then have "length (last_n n xs) = n" using assms(3) by (simp add: last_n_def)
    then have "last_n n (last_n n xs @ [x]) = tl (last_n n xs @ [x])"
      using assms(2) by (cases "last_n n xs") (simp_all add: last_n_def [of n "_ # _"] last_n_def [of n "_ @ _"])
    then show ?thesis using assms(1,3) False by (simp add: cache_put_list)
  qed
  with assms(2) show ?thesis by (simp add: last_n_snoc)
qed

text \<open>Puts one after the other, each under its own key.\<close>

definition put_all :: "btcd \<Rightarrow> 'd leveldb \<Rightarrow> 'd vendor_db \<Rightarrow> saved_item list \<Rightarrow> 'd vendor_db" where
  "put_all B L v xs = foldl (\<lambda>v x. snd (put_signed_tx B L v (item_key B x) x)) v xs"

lemma put_all_cache:
  assumes "vdb_sound B L v" "\<forall>x \<in> set xs. saved_ok B x" "distinct (map (item_key B) xs)"
    and "\<forall>x \<in> set xs. stored B L v (item_key B x) = None"
    and "cache_list (txCache v) = last_n CACHE_SIZE ys"
  shows "vdb_sound B L (put_all B L v xs)
         \<and> cache_list (txCache (put_all B L v xs)) = last_n CACHE_SIZE (ys @ xs)
         \<and> totalCache (txCache (put_all B L v xs)) = totalCache (txCache v) + of_nat (length xs)"
  using assms
proof (induction xs arbitrary: v ys)
  case Nil
  then show ?case by (simp add: put_all_def)
next
  case (Cons x xs)
  let ?v = "snd (put_signed_tx B L v (item_key B x) x)"
  have x: "put_ok B (item_key B x) x" using Cons.prems(2) by (simp add: put_ok_def)
  have new: "stored B L v (item_key B x) = None" using Cons.prems(4) by simp
  obtain d' where res: "put_signed_tx B L v (item_key B x) x
      = (None, v\<lparr>db := d', txCache := cache_put x (txCache v)\<rparr>)"
    by (rule put_fresh [OF Cons.prems(1) x new])
  from put_contract [OF Cons.prems(1) x res] new
  have v: "vdb_sound B L ?v" and st: "stored B L ?v = (stored B L v)(item_key B x \<mapsto> canon_saved x)"
    by (simp_all add: res)
  have "cache_size (txCache v) = CACHE_SIZE"
    using Cons.prems(1) by (simp add: vdb_sound_def vdb_inv_def)
  then have c: "cache_list (txCache ?v) = last_n CACHE_SIZE (ys @ [x])"
    using cache_put_last_n [of "txCache v" CACHE_SIZE ys x] Cons.prems(5) by (simp add: res CACHE_SIZE_def)
  have "\<forall>y \<in> set xs. stored B L ?v (item_key B y) = None"
    using Cons.prems(3,4) by (simp add: st) (metis image_eqI)
  from Cons.IH [OF v _ _ this c] Cons.prems(2,3) show ?case
    by (simp add: put_all_def res)
qed

section \<open>Reopening\<close>

lemma get_total_sound:
  assumes "vdb_sound B L v"
  shows "get_total_tx_num L v = Ret (totalCache (txCache v))"
proof (cases "totalCache (txCache v) > 0")
  case False
  then have zero: "totalCache (txCache v) = 0" by (simp add: word_gt_0)
  note D = vdb_soundD [OF assms] and R = reliableD [OF vdb_soundD(2) [OF assms]]
  show ?thesis
  proof (cases "ldb_get L (db v) totalnum_prefix")
    case (Inl e)
    with False zero show ?thesis by (simp add: get_total_tx_num_def)
  next
    case (Inr b)
    then have "ldb_map L (db v) totalnum_prefix = Some b" by (rule leveldb_okD(1) [OF D(3)])
    with D(6) have "b = write_u64 (totalCache (txCache v))" by (simp add: total_ok_def)
    with Inr False show ?thesis
      by (simp add: get_total_tx_num_def) (simp add: write_u64_def codec_simps)
  qed
qed (simp add: get_total_tx_num_def)

text \<open>The first call of \<open>GetTotalTxNum\<close>, before the count is in the cache.\<close>

lemma get_total_from_store:
  assumes "leveldb_ok L" "leveldb_reliable L" "total_ok (ldb_map L (db v)) n" "totalCache (txCache v) = 0"
  shows "get_total_tx_num L v = Ret n"
proof (cases "ldb_get L (db v) totalnum_prefix")
  case (Inl e)
  with reliableD(1) [OF assms(2)] have "ldb_get L (db v) totalnum_prefix = Inl NotFound" by blast
  then have "ldb_map L (db v) totalnum_prefix = None" by (rule leveldb_okD(2) [OF assms(1)])
  with assms(3) have "n = 0" by (simp add: total_ok_def)
  with Inl assms(4) show ?thesis by (simp add: get_total_tx_num_def)
next
  case (Inr b)
  then have "ldb_map L (db v) totalnum_prefix = Some b" by (rule leveldb_okD(1) [OF assms(1)])
  with assms(3) have "b = write_u64 n" by (simp add: total_ok_def)
  with Inr assms(4) show ?thesis by (simp add: get_total_tx_num_def) (simp add: write_u64_def codec_simps)
qed

lemma reopen:
  assumes "vdb_sound B L v"
  obtains v' where "new_vendor_db L (Inr (db v)) = Ret (Inr v')" "vdb_sound B L v'" "db v' = db v"
    "cache_list (txCache v') = []" "totalCache (txCache v') = totalCache (txCache v)"
proof -
  note D = vdb_soundD [OF assms]
  let ?u = "\<lparr>db = db v, txCache = \<lparr>cache_list = [], cache_size = CACHE_SIZE, totalCache = 0\<rparr>\<rparr>"
  let ?n = "totalCache (txCache v)"
  let ?v = "\<lparr>db = db v, txCache = \<lparr>cache_list = [], cache_size = CACHE_SIZE, totalCache = ?n\<rparr>\<rparr>"
  have "get_total_tx_num L ?u = Ret ?n"
    using get_total_from_store [OF D(3,2), of ?u ?n] D(6) by simp
  then have "new_vendor_db L (Inr (db v)) = Ret (Inr ?v)" by (simp add: new_vendor_db_def)
  moreover have "vdb_sound B L ?v"
    using assms by (simp add: vdb_sound_def vdb_inv_def cache_len_def)
  ultimately show thesis by (intro that [of ?v]) simp_all
qed

section \<open>ReadFirstBatch\<close>

lemma deserialize_all_store:
  assumes "store_ok B m" and "map Some vals = map (\<lambda>h. m (tx_key h)) hs"
  shows "\<exists>arr. deserialize_all B vals = Inr arr \<and> map Some arr = map (stored_item B m) hs"
  using assms(2)
proof (induction vals arbitrary: hs)
  case (Cons val vals)
  then obtain h hs' where hs: "hs = h # hs'" "m (tx_key h) = Some val" "map Some vals = map (\<lambda>h. m (tx_key h)) hs'"
    by (cases hs) simp_all
  from assms(1) hs(2) obtain y where "deserialize_saved B val = Inr y" "stored_item B m h = Some y"
    by (rule store_ok_item)
  with Cons.IH [OF hs(3)] hs(1) show ?case by auto
qed simp

text \<open>The array before it is sorted: every stored item once.\<close>

lemma scan_items:
  assumes "leveldb_ok L" "store_ok B (ldb_map L d)" "ldb_scan L d tx_prefix = (vals, None)"
  obtains arr hs where "deserialize_all B vals = Inr arr" "distinct hs"
    "set hs = stored_hashes (ldb_map L d)" "map Some arr = map (stored_item B (ldb_map L d)) hs"
    "map (item_key B) arr = hs"
proof -
  let ?m = "ldb_map L d"
  obtain ks where ks: "distinct ks" "set ks = {k \<in> dom ?m. prefix tx_prefix k}" "map Some vals = map ?m ks"
    using leveldb_ok_scan [OF assms(1,3)] by blast
  have "\<exists>hs. ks = map tx_key hs"
    using ks(2) by (intro ex_map_conv [THEN iffD2]) (auto simp: prefix_tx_key)
  then obtain hs where hs: "ks = map tx_key hs" by blast
  have "map Some vals = map (\<lambda>h. ?m (tx_key h)) hs" using ks(3) hs by simp
  then obtain arr where arr: "deserialize_all B vals = Inr arr" "map Some arr = map (stored_item B ?m) hs"
    using deserialize_all_store [OF assms(2)] by blast
  have hset: "set hs = stored_hashes ?m"
  proof -
    have "h \<in> set hs \<longleftrightarrow> tx_key h \<in> set ks" for h by (auto simp: hs)
    then show ?thesis by (auto simp: ks(2) prefix_tx_key stored_hashes_def)
  qed
  have len: "length arr = length hs" using arr(2) by (metis length_map)
  have "item_key B (arr ! i) = hs ! i" if "i < length hs" for i
  proof -
    have "stored_item B ?m (hs ! i) = Some (arr ! i)"
      using arr(2) that len by (metis nth_map)
    then show ?thesis by (rule stored_item_Some(4) [OF assms(2)])
  qed
  then have "map (item_key B) arr = hs" using len by (intro nth_equalityI) simp_all
  moreover have "distinct hs" using ks(1) hs by (simp add: distinct_map)
  ultimately show thesis using that arr hset by blast
qed


lemma foldl_put_to_front:
  "cache_list (foldl (\<lambda>c x. cache_put_to_front x c) c xs) = rev xs @ cache_list c"
  "cache_size (foldl (\<lambda>c x. cache_put_to_front x c) c xs) = cache_size c"
  "totalCache (foldl (\<lambda>c x. cache_put_to_front x c) c xs) = totalCache c"
  by (induction xs arbitrary: c) (simp_all add: cache_put_to_front_def)

lemma total_zero_empty:
  assumes "vdb_sound B L v" and "card (stored_hashes (ldb_map L (db v))) < 2 ^ 64"
    and "totalCache (txCache v) = 0"
  shows "stored_hashes (ldb_map L (db v)) = {}"
proof -
  note D = vdb_soundD [OF assms(1)]
  have "(of_nat (card (stored_hashes (ldb_map L (db v)))) :: u64) = 0"
    using D(6) assms(3) by (simp add: total_ok_def)
  then have "card (stored_hashes (ldb_map L (db v))) = 0"
    using of_nat_unat_inverse [of "card (stored_hashes (ldb_map L (db v)))", where 'a = 64] assms(2) by simp
  then show ?thesis using finite_stored_hashes [OF D(3)] by simp
qed

text \<open>
  On a database that was just opened: the youngest 100 stored items (all of them when there are
  fewer), youngest first, and they are in the cache from then on.
\<close>

lemma read_first_batch_opened:
  assumes sound: "vdb_sound B L v" and empty: "cache_list (txCache v) = []"
    and few: "card (stored_hashes (ldb_map L (db v))) < 2 ^ 64" and srt: "sorts_reverse srt"
  obtains arr v' where "read_first_batch B L srt v = (Inr (take CACHE_SIZE arr), v')"
    "set arr = ran (stored B L v)" "length arr = card (stored_hashes (ldb_map L (db v)))"
    "distinct (map (item_key B) arr)"
    "\<forall>i j. i < j \<longrightarrow> j < length arr \<longrightarrow> \<not> before (TimeReceived (arr ! i)) (TimeReceived (arr ! j))"
    "vdb_sound B L v'" "stored B L v' = stored B L v" "cache_get_all (txCache v') = take CACHE_SIZE arr"
proof (cases "totalCache (txCache v) = 0")
  case True
  have "stored_hashes (ldb_map L (db v)) = {}" by (rule total_zero_empty [OF sound few True])
  then have none: "stored B L v = Map.empty"
    using stored_None_iff [OF sound] by (auto simp: fun_eq_iff)
  have "read_first_batch B L srt v = (Inr (take CACHE_SIZE []), v)"
    using True empty by (simp add: read_first_batch_def cache_len_def cache_get_all_def)
  with sound empty none \<open>stored_hashes _ = {}\<close> show thesis
    by (intro that [of "[]" v]) (simp_all add: cache_get_all_def)
next
  case False
  note D = vdb_soundD [OF sound] and R = reliableD [OF vdb_soundD(2) [OF sound]]
  let ?m = "ldb_map L (db v)"
  obtain vals where scan: "ldb_scan L (db v) tx_prefix = (vals, None)"
    using R(3) by (metis prod.collapse)
  obtain xs hs where xs: "deserialize_all B vals = Inr xs" and hs: "distinct hs" "set hs = stored_hashes ?m"
    and st: "map Some xs = map (stored_item B ?m) hs" and keys: "map (item_key B) xs = hs"
    by (rule scan_items [OF D(3,4) scan])
  have item: "stored_item B ?m (item_key B x) = Some x" "canon_saved x = x" "saved_ok B x" if "x \<in> set xs" for x
  proof -
    from that have "\<exists>i < length xs. x = xs ! i" by (metis in_set_conv_nth)
    then obtain i where i: "i < length xs" "x = xs ! i" by blast
    moreover have "length xs = length hs" using keys by auto
    moreover have "hs ! i = item_key B (xs ! i)" using keys i(1) by auto
    ultimately show s: "stored_item B ?m (item_key B x) = Some x"
      using st by (metis nth_map)
    show "canon_saved x = x" "saved_ok B x" using stored_item_Some [OF D(4) s] by simp_all
  qed
  have mono: "\<forall>x \<in> set xs. \<not> has_monotonic (TimeReceived x)"
    using item(2) by (metis canon_saved_simps(3) strip_mono_parts(1))
  let ?arr = "srt xs"
  have perm: "mset ?arr = mset xs"
    and sorted: "\<forall>i j. i < j \<longrightarrow> j < length ?arr \<longrightarrow> \<not> before (TimeReceived (?arr ! i)) (TimeReceived (?arr ! j))"
    using srt mono by (simp_all add: sorts_reverse_def arr_less_def arr_len_def)
  have sets: "set ?arr = set xs" and len: "length ?arr = length xs"
    using mset_eq_setD [OF perm] mset_eq_length [OF perm] by simp_all
  have dist: "distinct (map (item_key B) ?arr)"
  proof -
    have "mset (map (item_key B) ?arr) = mset (map (item_key B) xs)" using perm by simp
    then show ?thesis using mset_eq_imp_distinct_iff keys hs(1) by metis
  qed
  have "read_first_batch B L srt v = (Inr (take CACHE_SIZE ?arr), v\<lparr>txCache := fill_cache ?arr (txCache v)\<rparr>)"
    using False empty scan xs
    by (simp add: read_first_batch_def cache_len_def Let_def CACHE_SIZE_def)
  moreover have cache: "cache_list (fill_cache ?arr (txCache v)) = rev (take CACHE_SIZE ?arr)"
    "cache_size (fill_cache ?arr (txCache v)) = CACHE_SIZE"
    "totalCache (fill_cache ?arr (txCache v)) = totalCache (txCache v)"
    using D(1) empty by (simp_all add: fill_cache_def foldl_put_to_front cache_len_def vdb_inv_def)
  moreover have "vdb_sound B L (v\<lparr>txCache := fill_cache ?arr (txCache v)\<rparr>)"
  proof -
    have "distinct (map (item_key B) (rev (take CACHE_SIZE ?arr)))"
      using dist by (simp add: distinct_take flip: rev_map take_map)
    moreover have "\<forall>x \<in> set (take CACHE_SIZE ?arr). stored_item B ?m (item_key B x) = Some (canon_saved x)
        \<and> cached_ok B ?m x"
      using sets item by (auto simp: cached_ok_def canon_Done_eq dest!: in_set_takeD intro!: exI [of _ "Done _"])
    ultimately show ?thesis
      using sound cache by (simp add: vdb_sound_def vdb_inv_def cache_len_def)
  qed
  moreover have "set ?arr = ran (stored B L v)"
  proof -
    have "y \<in> set xs" if "stored_item B ?m h = Some y" for h y
    proof -
      have "h \<in> stored_hashes ?m" using stored_item_Some(1) [OF D(4) that] by (simp add: stored_hashes_def)
      then obtain i where "i < length hs" "h = hs ! i" using hs(2) by (metis in_set_conv_nth)
      moreover have "length xs = length hs" using keys by auto
      ultimately show ?thesis using st that by (metis nth_map nth_mem option.inject)
    qed
    then show ?thesis using item(1) by (auto simp: sets ran_def stored_def)
  qed
  moreover have "length ?arr = card (stored_hashes ?m)"
    using len keys hs by (metis distinct_card length_map)
  ultimately show thesis
    using sorted dist by (intro that [of ?arr "v\<lparr>txCache := fill_cache ?arr (txCache v)\<rparr>"])
      (simp_all add: stored_def cache_get_all_def)
qed

end
