(* ===== verification/Sample_World.thy ===== *)
theory Sample_World
  imports Vendor_DB_Contract
begin

text \<open>
  Concrete stand-ins for the modules outside the repository: a small transaction codec, a LevelDB
  that is an association list (one that works and one whose count write fails), a sort. They are
  proved to satisfy the documented behaviour the properties assume, and the properties are applied
  to them on concrete inputs.
\<close>

section \<open>Transactions\<close>

definition sample_chunk :: "bytes \<Rightarrow> bytes" where
  "sample_chunk b = of_nat (length b) # b"

fun read_chunk :: "bytes \<Rightarrow> (bytes \<times> bytes) option" where
  "read_chunk [] = None"
| "read_chunk (n # r) = (if unat n \<le> length r then Some (take (unat n) r, drop (unat n) r) else None)"

primrec read_ins :: "nat \<Rightarrow> bytes \<Rightarrow> (txin list \<times> bytes) option" where
  "read_ins 0 r = Some ([], r)"
| "read_ins (Suc n) r = (case read_chunk r of None \<Rightarrow> None
     | Some (s, r) \<Rightarrow> (case read_chunk r of None \<Rightarrow> None
     | Some (rest, r) \<Rightarrow> (case read_ins n r of None \<Rightarrow> None
     | Some (is, r) \<Rightarrow> Some (\<lparr>SignatureScript = s, txin_rest = rest\<rparr> # is, r))))"

definition sample_encode :: "msgtx \<Rightarrow> bytes" where
  "sample_encode tx = of_nat (length (TxIn tx))
     # concat (map (\<lambda>i. sample_chunk (SignatureScript i) @ sample_chunk (txin_rest i)) (TxIn tx)) @ tx_rest tx"

fun sample_decode :: "bytes \<Rightarrow> go_error + msgtx" where
  "sample_decode [] = Inl EOF"
| "sample_decode (n # r) = (case read_ins (unat n) r of None \<Rightarrow> Inl UnexpectedEOF
     | Some (is, r) \<Rightarrow> Inr \<lparr>TxIn = is, tx_rest = r\<rparr>)"

definition sample_class :: "bytes \<Rightarrow> script_class" where
  "sample_class s =
     (if length s = 23 then ScriptHashTy else if length s = 34 then WitnessV0ScriptHashTy
      else if s \<noteq> [] \<and> last s = 174 then MultiSigTy else OtherTy ''nonstandard'')"

definition sample_digest :: "bytes \<Rightarrow> bytes" where
  "sample_digest b = take 20 (b @ replicate 20 0)"

definition sample_btcd :: btcd where
  "sample_btcd =
     \<lparr>btc_encode = \<lambda>tx. Inr (sample_encode tx), btc_decode = sample_decode,
      tx_hash = sample_encode, get_script_class = sample_class,
      hash160 = sample_digest, ripemd160 = sample_digest,
      raw_tx_in_signature = \<lambda>tx i redeem k. Inr (k @ [of_nat i]),
      raw_tx_in_witness_signature = \<lambda>tx i amt redeem k. Inr (k @ [of_nat i] @ be_bytes 8 amt)\<rparr>"

lemma read_chunk_sample: "length b < 256 \<Longrightarrow> read_chunk (sample_chunk b @ r) = Some (b, r)"
  by (simp add: sample_chunk_def codec_simps)

definition small_tx :: "msgtx \<Rightarrow> bool" where
  "small_tx tx \<longleftrightarrow> length (TxIn tx) < 256
     \<and> (\<forall>i \<in> set (TxIn tx). length (SignatureScript i) < 256 \<and> length (txin_rest i) < 256)"

lemma sample_decode_encode: "small_tx tx \<Longrightarrow> sample_decode (sample_encode tx) = Inr tx"
proof -
  have "read_ins (length is) (concat (map (\<lambda>i. sample_chunk (SignatureScript i) @ sample_chunk (txin_rest i)) is) @ r)
          = Some (is, r)"
    if "\<forall>i \<in> set is. length (SignatureScript i) < 256 \<and> length (txin_rest i) < 256" for "is" r
    using that by (induction "is") (simp_all add: read_chunk_sample)
  then show "small_tx tx \<Longrightarrow> ?thesis"
    by (simp add: small_tx_def sample_encode_def codec_simps)
qed

lemma script_class_ok_sample: "script_class_ok sample_btcd"
  by (auto simp: script_class_ok_def sample_btcd_def sample_class_def sample_digest_def)

section \<open>Items\<close>

definition sample_time :: "u64 \<Rightarrow> gotime" where
  "sample_time s = \<lparr>wall = 0, ext = s, zone = UTC\<rparr>"

definition sample_tx :: "byte \<Rightarrow> msgtx" where
  "sample_tx n = \<lparr>TxIn = [\<lparr>SignatureScript = [], txin_rest = [n]\<rparr>], tx_rest = []\<rparr>"

definition sample_item :: "byte \<Rightarrow> u64 \<Rightarrow> saved_item" where
  "sample_item n s = \<lparr>Item = \<lparr>Mtx = sample_tx n, Amts = [7]\<rparr>, TimeReceived = sample_time s, Done = False\<rparr>"

lemma sample_encode_tx [simp]: "sample_encode (sample_tx n) = [1, 0, 1, n]"
  by (simp add: sample_encode_def sample_tx_def sample_chunk_def)

lemma small_sample_tx [simp]: "small_tx (sample_tx n)"
  by (simp add: small_tx_def sample_tx_def)

lemma sample_to_sign:
  "serialize_to_sign sample_btcd \<lparr>Mtx = sample_tx n, Amts = [7]\<rparr>
     = Inr (write_u32 4 @ [1, 0, 1, n] @ write_u32 1 @ write_u64 7)"
  by (simp add: serialize_to_sign_def sample_btcd_def)

lemma sample_to_sign_ok: "to_sign_ok sample_btcd \<lparr>Mtx = sample_tx n, Amts = [7]\<rparr>"
  using sample_decode_encode [OF small_sample_tx [of n]] by (simp add: to_sign_ok_def sample_btcd_def)

lemma sample_gob: "gob_encode (sample_time s) = Inr ([1] @ be_bytes 8 s @ be_bytes 4 (0 :: u32) @ be_bytes 2 (- 1 :: 16 word))"
  by (simp add: gob_encode_def gob_offset_def sample_time_def sec_def nsec_def has_monotonic_def)

lemma sample_saved_ok: "saved_ok sample_btcd (sample_item n s)"
  by (simp add: saved_ok_def sample_item_def sample_to_sign sample_gob sample_to_sign_ok)

lemma sample_key: "item_key sample_btcd (sample_item n s) = [1, 0, 1, n]"
  by (simp add: item_key_def sample_item_def sample_btcd_def)

lemma sample_put_ok: "put_ok sample_btcd [1, 0, 1, n] (sample_item n s)"
  by (simp add: put_ok_def sample_saved_ok sample_key)

lemma sample_canon: "canon_saved (sample_item n s) = sample_item n s"
  by (simp add: canon_saved_def sample_item_def strip_mono_def sample_time_def nsec_def sec_def has_monotonic_def)

section \<open>LevelDB\<close>

definition alist_db :: "(bytes \<times> bytes) list leveldb" where
  "alist_db =
     \<lparr>ldb_get = \<lambda>d k. (case map_of d k of None \<Rightarrow> Inl NotFound | Some v \<Rightarrow> Inr v),
      ldb_put = \<lambda>d k v. (None, (k, v) # d),
      ldb_scan = \<lambda>d p. (map (\<lambda>k. the (map_of d k)) (filter (prefix p) (remdups (map fst d))), None),
      ldb_map = map_of\<rparr>"

text \<open>A disk that refuses the write of the count.\<close>

definition full_db :: "(bytes \<times> bytes) list leveldb" where
  "full_db = alist_db\<lparr>ldb_put := \<lambda>d k v. if k = totalnum_prefix then (Some (Ext ''no space''), d)
                                        else (None, (k, v) # d)\<rparr>"

lemma alist_scan:
  "\<exists>ks. distinct ks \<and> set ks = {k \<in> dom (map_of d). prefix p k}
     \<and> map Some (map (\<lambda>k. the (map_of d k)) (filter (prefix p) (remdups (map fst d)))) = map (map_of d) ks"
  by (intro exI [of _ "filter (prefix p) (remdups (map fst d))"])
    (auto simp: dom_map_of_conv_image_fst map_of_eq_None_iff)

lemma leveldb_ok_alist: "leveldb_ok alist_db"
  using alist_scan
  by (auto simp: leveldb_ok_def alist_db_def finite_dom_map_of fun_eq_iff split: option.splits)

lemma leveldb_ok_full: "leveldb_ok full_db"
  using alist_scan
  by (auto simp: leveldb_ok_def full_db_def alist_db_def finite_dom_map_of fun_eq_iff split: option.splits if_splits)

lemma leveldb_reliable_alist: "leveldb_reliable alist_db"
  by (auto simp: leveldb_reliable_def alist_db_def split: sum.splits option.splits)

definition empty_vdb :: "(bytes \<times> bytes) list vendor_db" where
  "empty_vdb = \<lparr>db = [], txCache = \<lparr>cache_list = [], cache_size = CACHE_SIZE, totalCache = 0\<rparr>\<rparr>"

lemma empty_vdb_inv: "leveldb_ok L \<Longrightarrow> ldb_map L = map_of \<Longrightarrow> vdb_inv B L empty_vdb"
  by (simp add: vdb_inv_def empty_vdb_def cache_len_def store_ok_def)

lemma ldb_map_sample [simp]: "ldb_map alist_db = map_of" "ldb_map full_db = map_of"
  by (simp_all add: alist_db_def full_db_def)

lemma empty_vdb_sound: "vdb_sound B alist_db empty_vdb"
  using empty_vdb_inv [OF leveldb_ok_alist, of B] leveldb_reliable_alist
  by (simp add: vdb_sound_def total_ok_def) (simp add: empty_vdb_def stored_hashes_def)

lemma stored_empty [simp]: "stored B alist_db empty_vdb h = None"
  by (simp add: stored_def stored_item_def empty_vdb_def)

section \<open>Sorting\<close>

definition sample_sort :: "saved_item list \<Rightarrow> saved_item list" where
  "sample_sort arr = rev (sort_key (\<lambda>x. instant_of (TimeReceived x)) arr)"

lemma sample_sort_ok: "sorts_reverse sample_sort"
  unfolding sorts_reverse_def
proof (intro allI impI conjI)
  fix arr :: "saved_item list"
  assume mono: "\<forall>x \<in> set arr. \<not> has_monotonic (TimeReceived x)"
  let ?f = "\<lambda>x. instant_of (TimeReceived x)"
  show "mset (sample_sort arr) = mset arr" by (simp add: sample_sort_def)
  fix i j assume ij: "i < j" "j < arr_len (sample_sort arr)"
  let ?ys = "sort_key ?f arr"
  have len: "length ?ys = length arr" by simp
  have j: "j < length arr" using ij(2) by (simp add: arr_len_def sample_sort_def)
  have "sorted (map ?f ?ys)" by simp
  then have "map ?f ?ys ! (length arr - Suc j) \<le> map ?f ?ys ! (length arr - Suc i)"
    by (rule sorted_nth_mono) (use ij j in auto)
  then have "?f (sample_sort arr ! j) \<le> ?f (sample_sort arr ! i)"
    using ij(1) j by (simp add: sample_sort_def rev_nth)
  moreover have "\<not> has_monotonic (TimeReceived (sample_sort arr ! i))"
    using mono ij(1) j nth_mem [of i "sample_sort arr"] by (simp add: sample_sort_def)
  ultimately show "\<not> arr_less (sample_sort arr) i j"
    by (simp add: arr_less_def before_instant not_less)
qed


section \<open>A database with two transactions\<close>

definition sample_items :: "saved_item list" where
  "sample_items = [sample_item 1 10, sample_item 2 20]"

definition two_vdb :: "(bytes \<times> bytes) list vendor_db" where
  "two_vdb = put_all sample_btcd alist_db empty_vdb sample_items"

lemma empty_vdb_cache [simp]: "cache_list (txCache empty_vdb) = []" "totalCache (txCache empty_vdb) = 0"
  by (simp_all add: empty_vdb_def)

lemma two_vdb_sound: "vdb_sound sample_btcd alist_db two_vdb"
  using put_all_cache [OF empty_vdb_sound, of sample_items sample_btcd "[]"]
  by (simp add: two_vdb_def sample_items_def sample_saved_ok sample_key last_n_def)

end
