(* ===== verification/DB_Properties.thy ===== *)
theory DB_Properties
  imports Sample_World
begin

text \<open>
  The properties of the message layouts (\<open>utils/utils.go\<close>) and of the database
  (\<open>db/db.go\<close>), each with its witness.
\<close>

section \<open>Messages\<close>

text \<open>
  C37: A \<open>ToSignItem\<close> in order is serialized, and \<open>Deserialize\<close> reads the same item
  back, whatever bytes follow it.
\<close>

theorem to_sign_item_roundtrip:
  assumes "to_sign_ok B item"
  shows "\<exists>bs. serialize_to_sign B item = Inr bs \<and> deserialize_to_sign B (bs @ junk) = Inr item"
  using tosign.enc_ok [OF assms] tosign.dec_enc [OF assms] by blast

theorem to_sign_item_roundtrip_witness:
  "\<exists>bs. serialize_to_sign sample_btcd \<lparr>Mtx = sample_tx 5, Amts = [7]\<rparr> = Inr bs
     \<and> deserialize_to_sign sample_btcd (bs @ [1, 2, 3]) = Inr \<lparr>Mtx = sample_tx 5, Amts = [7]\<rparr>"
  by (rule to_sign_item_roundtrip [OF sample_to_sign_ok])

text \<open>
  C38: A \<open>SavedItem\<close> comes back from its bytes with the same transaction, amounts and done
  flag and with its time without the monotonic clock reading; writing it again gives the same bytes.
\<close>

theorem saved_item_roundtrip:
  assumes "saved_ok B s"
  shows "\<exists>bs. serialize_saved B s = Inr bs
     \<and> deserialize_saved B (bs @ junk) = Inr (s\<lparr>TimeReceived := strip_mono (TimeReceived s)\<rparr>)
     \<and> instant_of (strip_mono (TimeReceived s)) = instant_of (TimeReceived s)
     \<and> serialize_saved B (s\<lparr>TimeReceived := strip_mono (TimeReceived s)\<rparr>) = Inr bs"
  using saved.enc_ok [OF assms] saved.dec_enc [OF assms] saved.enc_canon [OF assms]
  by (auto simp: canon_saved_def)

theorem saved_item_roundtrip_witness:
  "\<exists>bs. serialize_saved sample_btcd (sample_item 5 9) = Inr bs
     \<and> deserialize_saved sample_btcd (bs @ [0])
         = Inr ((sample_item 5 9)\<lparr>TimeReceived := strip_mono (TimeReceived (sample_item 5 9))\<rparr>)"
  using saved_item_roundtrip [OF sample_saved_ok [of 5 9], of "[0]"] by blast

text \<open>
  \<open>Deserialize\<close> rejects every proper prefix of a serialized \<open>ToSignItem\<close>, although
  its \<open>Read\<close> calls accept short reads.
\<close>

theorem truncated_item_rejected:
  assumes "to_sign_ok B item" and "serialize_to_sign B item = Inr bs" and "n < length bs"
  shows "\<exists>e. deserialize_to_sign B (take n bs) = Inl e"
  using assms by (rule to_sign_no_truncation)

theorem truncated_item_rejected_witness:
  "\<exists>e. deserialize_to_sign sample_btcd
          (take 9 (write_u32 4 @ [1, 0, 1, 5] @ write_u32 1 @ write_u64 7)) = Inl e"
  by (rule truncated_item_rejected [OF sample_to_sign_ok sample_to_sign]) simp

text \<open>
  With btcd's script classes as documented, \<open>GetUtxoKey\<close> never panics; its result
  is the 40 hex digits of a 20-byte hash for the three classes it knows and empty for every other.
\<close>

theorem utxo_key_shape:
  assumes "script_class_ok B"
  shows "\<exists>k. get_utxo_key B s = Ret k
     \<and> (if get_script_class B s \<in> {MultiSigTy, ScriptHashTy, WitnessV0ScriptHashTy}
        then length k = 40 \<and> (\<exists>h. length h = 20 \<and> hex_decode k = Inr h) else k = [])"
  using assms
  by (auto simp: script_class_ok_def get_utxo_key_def slice_def hex_decode_encode split: script_class.splits)

lemma sample_multisig_class: "get_script_class sample_btcd [1, 174] = MultiSigTy"
  by (simp add: sample_btcd_def sample_class_def)

theorem utxo_key_shape_witness:
  "\<exists>k. get_utxo_key sample_btcd [1, 174] = Ret k \<and> length k = 40"
  using utxo_key_shape [OF script_class_ok_sample, of "[1, 174]"]
  by (auto simp: sample_multisig_class)

section \<open>The database\<close>

interpretation vdb_any: run_system "store_step (put_signed_tx B L) (set_tx_done B L)" "vdb_inv B L"
  "good_op (put_ok B)" for B L
proof
  fix v op assume inv: "vdb_inv B L v" and good: "good_op (put_ok B) op"
  show "vdb_inv B L (store_step (put_signed_tx B L) (set_tx_done B L) v op)"
  proof (cases op)
    case (PutOp h x)
    obtain r v' where "put_signed_tx B L v h x = (r, v')" by force
    with PutOp good put_signed_tx_inv [OF inv] show ?thesis by (auto simp: put_ok_def)
  next
    case (DoneOp h)
    obtain r v' where "set_tx_done B L v h = (r, v')" by force
    with DoneOp set_tx_done_inv [OF inv this] show ?thesis by simp
  qed
qed

lemma get_signed_tx_key:
  assumes inv: "vdb_inv B L v" and get: "get_signed_tx B L v h = Inr x"
  shows "item_key B x = h"
proof (cases "cache_get B h (txCache v)")
  case None
  with get obtain val where val: "ldb_get L (db v) (tx_key h) = Inr val" "deserialize_saved B val = Inr x"
    by (auto simp: get_signed_tx_def split: sum.splits)
  have "ldb_map L (db v) (tx_key h) = Some val"
    using leveldb_okD(1) inv val(1) by (auto simp: vdb_inv_def)
  with inv val(2) show ?thesis
    by (auto simp: vdb_inv_def elim: store_ok_item)
next
  case (Some y)
  with get cache_get_Some [OF Some] show ?thesis by (simp add: get_signed_tx_def)
qed

text \<open>
  C2: Whatever LevelDB calls fail during a run of puts and done marks, the cache holds at most 100
  items, no two under one key, each of them stored under its key (marked done at least as early as
  on disk), every stored value decodes to an item of its key, and \<open>GetSignedTx\<close> never returns
  an item of another key.
\<close>

theorem db_consistent_under_failures:
  assumes "vdb_inv B L v" and "list_all (good_op (put_ok B)) ops"
    and "v' = foldl (store_step (put_signed_tx B L) (set_tx_done B L)) v ops"
  shows "vdb_inv B L v' \<and> (\<forall>h x. get_signed_tx B L v' h = Inr x \<longrightarrow> item_key B x = h)"
  using vdb_any.run_invar [OF assms(1,2)] get_signed_tx_key assms(3) by blast

theorem db_consistent_under_failures_witness:
  "vdb_inv sample_btcd full_db
     (foldl (store_step (put_signed_tx sample_btcd full_db) (set_tx_done sample_btcd full_db)) empty_vdb
        [PutOp [1, 0, 1, 4] (sample_item 4 9), DoneOp [1, 0, 1, 4]])"
  using db_consistent_under_failures [OF empty_vdb_inv [OF leveldb_ok_full], of sample_btcd
      "[PutOp [1, 0, 1, 4] (sample_item 4 9), DoneOp [1, 0, 1, 4]]", OF _ _ refl]
  by (simp add: sample_put_ok)

text \<open>
  C1: On storage that does not fail the database is a map: after any run of puts and done marks
  \<open>GetSignedTx\<close> returns, up to the monotonic clock reading, exactly what the same run on a
  map holds, where the first put of a key wins and done is set for known keys only.
\<close>

theorem db_refines_map:
  assumes "vdb_sound B L v" and "list_all (good_op (put_ok B)) ops"
    and "v' = foldl (store_step (put_signed_tx B L) (set_tx_done B L)) v ops"
  shows "vdb_sound B L v'
     \<and> (case get_signed_tx B L v' h of Inl e \<Rightarrow> None | Inr x \<Rightarrow> Some (canon_saved x))
         = foldl (abs_step canon_saved (\<lambda>x. x\<lparr>Done := True\<rparr>)) (stored B L v) ops h"
proof -
  have "vdb_sound B L v'" using vdb.run_invar [OF assms(1,2)] assms(3) by simp
  moreover have "mark_saved = (\<lambda>x. x\<lparr>Done := True\<rparr>)" by (simp add: mark_saved_def fun_eq_iff)
  ultimately show ?thesis
    using vdb.run_contents [OF assms(1,2)] vdb.get_law [of B L v' h] assms(3) by simp
qed

theorem db_refines_map_witness:
  "(case get_signed_tx sample_btcd alist_db
          (foldl (store_step (put_signed_tx sample_btcd alist_db) (set_tx_done sample_btcd alist_db)) empty_vdb
             [PutOp [1, 0, 1, 4] (sample_item 4 9), DoneOp [1, 0, 1, 4], PutOp [1, 0, 1, 4] (sample_item 4 8)])
          [1, 0, 1, 4] of Inl e \<Rightarrow> None | Inr x \<Rightarrow> Some (canon_saved x))
     = Some ((sample_item 4 9)\<lparr>Done := True\<rparr>)"
  using conjunct2 [OF db_refines_map [OF empty_vdb_sound [of sample_btcd],
      of "[PutOp [1, 0, 1, 4] (sample_item 4 9), DoneOp [1, 0, 1, 4], PutOp [1, 0, 1, 4] (sample_item 4 8)]",
      OF _ refl, of "[1, 0, 1, 4]"]]
  by (simp add: sample_put_ok sample_canon)

text \<open>
  C21: A cache that starts empty holds, after puts of any number of new transactions, exactly the
  last 100 of them in order, and the counter has grown by their number.
\<close>

theorem cache_holds_last_100:
  assumes "vdb_sound B L v" and "cache_list (txCache v) = []"
    and "\<forall>x \<in> set xs. saved_ok B x \<and> stored B L v (item_key B x) = None"
    and "distinct (map (item_key B) xs)"
  shows "cache_list (txCache (put_all B L v xs)) = drop (length xs - 100) xs
     \<and> totalCache (txCache (put_all B L v xs)) = totalCache (txCache v) + of_nat (length xs)"
  using put_all_cache [OF assms(1) _ assms(4), of "[]"] assms(2,3)
  by (simp add: last_n_def CACHE_SIZE_def)

theorem cache_holds_last_100_witness:
  "cache_list (txCache (put_all sample_btcd alist_db empty_vdb sample_items)) = sample_items
     \<and> totalCache (txCache (put_all sample_btcd alist_db empty_vdb sample_items)) = 2"
  using cache_holds_last_100 [OF empty_vdb_sound [of sample_btcd], of sample_items]
  by (simp add: sample_items_def sample_saved_ok sample_key)

text \<open>
  C23: A done mark that arrives after the put of its transaction succeeds and stays, whatever runs
  between and after; one that arrives before the put reports an error and is lost: the item is then
  stored as not done.
\<close>

theorem done_mark_needs_put:
  assumes "vdb_sound B L v" and "put_ok B h x" and "stored B L v h = None"
    and "list_all (good_op (put_ok B)) ops"
  shows "(let v1 = snd (put_signed_tx B L v h x);
              v2 = foldl (store_step (put_signed_tx B L) (set_tx_done B L)) v1 ops
          in fst (set_tx_done B L v2 h) = None
             \<and> stored B L (snd (set_tx_done B L v2 h)) h = Some ((canon_saved x)\<lparr>Done := True\<rparr>))
     \<and> (let v1 = snd (set_tx_done B L v h)
        in fst (set_tx_done B L v h) \<noteq> None
           \<and> stored B L (snd (put_signed_tx B L v1 h x)) h = Some (canon_saved x))"
  using vdb.done_after_put [OF assms(1-4) prod.collapse [symmetric] prod.collapse [symmetric]]
    vdb.done_before_put [OF assms(1-3) prod.collapse [symmetric] prod.collapse [symmetric]]
  by (simp add: Let_def mark_saved_def)

theorem done_mark_needs_put_witness:
  "fst (set_tx_done sample_btcd alist_db empty_vdb [1, 0, 1, 4]) \<noteq> None
   \<and> stored sample_btcd alist_db (snd (put_signed_tx sample_btcd alist_db
        (snd (set_tx_done sample_btcd alist_db empty_vdb [1, 0, 1, 4])) [1, 0, 1, 4] (sample_item 4 9))) [1, 0, 1, 4]
       = Some (sample_item 4 9)"
  using done_mark_needs_put [OF empty_vdb_sound sample_put_ok stored_empty, of "[]" 4 9]
  by (simp add: Let_def sample_canon)

text \<open>
  C22: Reopening loses nothing, and the first \<open>ReadFirstBatch\<close> after it returns the
  youngest 100 stored items (all, when there are fewer), youngest first and each once, and leaves
  exactly them in the cache.
\<close>

theorem reopened_first_batch:
  assumes "vdb_sound B L v" and "card (stored_hashes (ldb_map L (db v))) < 2 ^ 64" and "sorts_reverse srt"
  shows "\<exists>v1 arr v2. new_vendor_db L (Inr (db v)) = Ret (Inr v1) \<and> stored B L v1 = stored B L v
     \<and> get_total_tx_num L v1 = get_total_tx_num L v
     \<and> read_first_batch B L srt v1 = (Inr (take 100 arr), v2)
     \<and> set arr = ran (stored B L v) \<and> distinct (map (item_key B) arr)
     \<and> (\<forall>i j. i < j \<longrightarrow> j < length arr \<longrightarrow> \<not> before (TimeReceived (arr ! i)) (TimeReceived (arr ! j)))
     \<and> cache_get_all (txCache v2) = take 100 arr \<and> vdb_sound B L v2"
proof -
  obtain v1 where v1: "new_vendor_db L (Inr (db v)) = Ret (Inr v1)" "vdb_sound B L v1" "db v1 = db v"
    "cache_list (txCache v1) = []" "totalCache (txCache v1) = totalCache (txCache v)"
    by (rule reopen [OF assms(1)])
  have st: "stored B L v1 = stored B L v" by (simp add: stored_def v1(3))
  have "get_total_tx_num L v1 = get_total_tx_num L v"
    using get_total_sound assms(1) v1(2,5) by metis
  moreover have "card (stored_hashes (ldb_map L (db v1))) < 2 ^ 64" using assms(2) v1(3) by simp
  ultimately show ?thesis
    using v1(1) st by (elim read_first_batch_opened [OF v1(2,4) _ assms(3)]) (auto simp: CACHE_SIZE_def)
qed

lemma card_two_vdb: "card (stored_hashes (ldb_map alist_db (db two_vdb))) < 2 ^ 64"
proof -
  have "stored_hashes (ldb_map alist_db (db two_vdb)) \<subseteq> {[1, 0, 1, 1], [1, 0, 1, 2]}"
  proof
    fix h assume "h \<in> stored_hashes (ldb_map alist_db (db two_vdb))"
    then have "stored sample_btcd alist_db two_vdb h \<noteq> None"
      using stored_None_iff [OF two_vdb_sound] by simp
    moreover have "stored sample_btcd alist_db two_vdb
        = foldl (abs_step canon_saved mark_saved) (stored sample_btcd alist_db empty_vdb)
            [PutOp [1, 0, 1, 1] (sample_item 1 10), PutOp [1, 0, 1, 2] (sample_item 2 20)]"
      using vdb.run_contents [OF empty_vdb_sound [of sample_btcd],
          of "[PutOp [1, 0, 1, 1] (sample_item 1 10), PutOp [1, 0, 1, 2] (sample_item 2 20)]"]
      by (simp add: two_vdb_def sample_items_def put_all_def sample_key sample_put_ok)
    ultimately show "h \<in> {[1, 0, 1, 1], [1, 0, 1, 2]}" by (auto split: if_splits)
  qed
  then have "card (stored_hashes (ldb_map alist_db (db two_vdb))) \<le> card {[1, 0, 1, 1], [1, 0, 1, 2 :: byte]}"
    by (intro card_mono) simp_all
  also have "\<dots> < 2 ^ 64" by simp
  finally show ?thesis .
qed

theorem reopened_first_batch_witness:
  "\<exists>v1 arr v2. new_vendor_db alist_db (Inr (db two_vdb)) = Ret (Inr v1)
     \<and> read_first_batch sample_btcd alist_db sample_sort v1 = (Inr (take 100 arr), v2)
     \<and> set arr = ran (stored sample_btcd alist_db two_vdb)"
  using reopened_first_batch [OF two_vdb_sound card_two_vdb sample_sort_ok] by blast

end
