(* ===== verification/Poly_Client.thy ===== *)
theory Poly_Client
  imports Prelude
begin

text \<open>
  What the code sees of a call to the Poly chain through the Go SDK: an answer, an error of type
  \<open>client.PostErr\<close> (the request did not get through) or any other error. The chain and the
  network are a state of the world \<open>'w\<close> that every call may change. The calls that are
  repeated after a \<open>PostErr\<close> are instances of \<open>retry\<close>; the facts about them are
  stated once, in the locale \<open>retried_call\<close>.
\<close>

datatype 'a call_result = Answer 'a | PostErr string | CallErr string

primrec is_post_err :: "'a call_result \<Rightarrow> bool" where
  "is_post_err (Answer x) = False"
| "is_post_err (PostErr e) = True"
| "is_post_err (CallErr e) = False"

locale retried_call =
  fixes again :: "'r \<Rightarrow> bool"
    and loop :: "('w \<Rightarrow> 'r \<times> 'w) \<Rightarrow> 'w \<Rightarrow> ('r \<times> 'w) option"
  assumes loop_retry: "loop call w = retry call again w"
begin

text \<open>The loop returns if and only if some call does not ask for another.\<close>

lemma returns_iff: "(\<exists>p. loop call w = Some p) \<longleftrightarrow> (\<exists>n. \<not> again (fst (call (after_calls call n w))))"
proof
  assume "\<exists>p. loop call w = Some p"
  then obtain r w' where "retry call again w = Some (r, w')" by (auto simp: loop_retry)
  then show "\<exists>n. \<not> again (fst (call (after_calls call n w)))"
    using retry_diverges [of "\<lambda>u. \<exists>n. u = after_calls call n w" w again call]
    by (metis after_calls_Suc after_calls.simps(1) option.distinct(1))
next
  assume "\<exists>n. \<not> again (fst (call (after_calls call n w)))"
  then show "\<exists>p. loop call w = Some p"
    using retry_None_forever [of call again w]
    by (cases "retry call again w") (auto simp: loop_retry)
qed

lemma returns_first:
  assumes "\<forall>i < n. again (fst (call (after_calls call i w)))"
    and "call (after_calls call n w) = (r, w')" and "\<not> again r"
  shows "loop call w = Some (r, w')"
  using retry_after [OF assms] by (simp add: loop_retry)

lemma result_final: "loop call w = Some (r, w') \<Longrightarrow> \<not> again r"
  using retry_result by (fastforce simp: loop_retry)

end

text \<open>\<open>RETRY\<close> on a \<open>PostErr\<close>.\<close>

definition retry_post_err :: "('w \<Rightarrow> 'a call_result \<times> 'w) \<Rightarrow> 'w \<Rightarrow> ('a call_result \<times> 'w) option" where
  "retry_post_err call w = retry call is_post_err w"

interpretation post_loop: retried_call is_post_err retry_post_err
  by unfold_locales (rule retry_post_err_def)

end
