(* ===== verification/Vendor_Signer.thy ===== *)
theory Vendor_Signer
  imports Poly_Client Vendor_DB_Contract
begin

text \<open>
  \<open>signer/signer.go\<close>: the signer takes captured transactions from the channel (or, in mode
  \<open>onlysig\<close>, from the REST service), signs every input with the vendor's key, submits the
  signatures to the Poly chain and stores what was accepted. The chain call
  \<open>BtcMultiSign\<close> is the argument \<open>multi_sign\<close>, a step of the world \<open>'w\<close>;
  the clock reads the world.
\<close>

record signer =
  privk :: bytes
  addr :: string
  acct :: account
  redeem :: bytes

type_synonym 'w multi_sign =
  "u64 \<Rightarrow> string \<Rightarrow> bytes \<Rightarrow> string \<Rightarrow> bytes list \<Rightarrow> account \<Rightarrow> 'w \<Rightarrow> string call_result \<times> 'w"

text \<open>
  \<open>pubkey_addr\<close> is the compressed public key of a private key followed by
  \<open>btcutil.NewAddressPubKey\<close>, which fails for a key that does not parse and panics for the others when
  the network parameters are nil, and \<open>EncodeAddress\<close>.
\<close>

definition new_signer ::
  "wallets \<Rightarrow> (bytes \<Rightarrow> (go_error + string) go) \<Rightarrow> string \<Rightarrow> bytes \<Rightarrow> account \<Rightarrow> bytes \<Rightarrow> (go_error + signer) go" where
  "new_signer W pubkey_addr privkFile pwd acc rdm =
     (case get_account_by_password W privkFile pwd of
        Inl err \<Rightarrow> Ret (Inl (Errorf ''[NewSigner] failed to get btc account: %v'' err))
      | Inr btcAcct \<Rightarrow>
     (case ec_private_key btcAcct of None \<Rightarrow> Panic TypeAssertion
      | Some key \<Rightarrow>
     (case pubkey_addr key of Panic p \<Rightarrow> Panic p
      | Ret (Inl err) \<Rightarrow> Ret (Inl (Errorf ''[NewSigner] failed to new AddressPubKey: %v'' err))
      | Ret (Inr a) \<Rightarrow> Ret (Inr \<lparr>privk = key, addr = a, acct = acc, redeem = rdm\<rparr>))))"

section \<open>Signatures\<close>

definition class_name :: "script_class \<Rightarrow> string" where
  "class_name c = (case c of MultiSigTy \<Rightarrow> ''multisig'' | ScriptHashTy \<Rightarrow> ''scripthash''
     | WitnessV0ScriptHashTy \<Rightarrow> ''witness_v0_scripthash'' | OtherTy s \<Rightarrow> s)"

definition input_error :: "nat \<Rightarrow> script_class \<Rightarrow> go_error + bytes \<Rightarrow> go_error + bytes" where
  "input_error i c res =
     (case res of
        Inl err \<Rightarrow> Inl (Errorf (''Failed to sign tx's No.'' @ format_nat i @ '' input('' @ class_name c @ ''): %v'') err)
      | Inr sig \<Rightarrow> Inr sig)"

text \<open>One round of the loop of \<open>getSigs\<close>: input \<open>i\<close>, whose script was \<open>pks\<close>.\<close>

definition sign_input ::
  "btcd \<Rightarrow> signer \<Rightarrow> msgtx \<Rightarrow> u64 list \<Rightarrow> nat \<Rightarrow> bytes \<Rightarrow> (go_error + bytes) go" where
  "sign_input B s mtx amts i pks =
     (let c = get_script_class B pks
      in case c of
           MultiSigTy \<Rightarrow> Ret (input_error i c (raw_tx_in_signature B mtx i (redeem s) (privk s)))
         | ScriptHashTy \<Rightarrow> Ret (input_error i c (raw_tx_in_signature B mtx i (redeem s) (privk s)))
         | WitnessV0ScriptHashTy \<Rightarrow> go_bind (index amts i) (\<lambda>amt.
             Ret (input_error i c (raw_tx_in_witness_signature B mtx i amt (redeem s) (privk s))))
         | OtherTy t \<Rightarrow> Ret (Inl (Text (''wrong type of input: '' @ t))))"

primrec sign_inputs ::
  "btcd \<Rightarrow> signer \<Rightarrow> msgtx \<Rightarrow> u64 list \<Rightarrow> nat \<Rightarrow> bytes list \<Rightarrow> (go_error + bytes list) go" where
  "sign_inputs B s mtx amts i [] = Ret (Inr [])"
| "sign_inputs B s mtx amts i (pks # pkScripts) =
     go_bind (sign_input B s mtx amts i pks) (\<lambda>res. case res of Inl err \<Rightarrow> Ret (Inl err)
     | Inr sig \<Rightarrow> go_bind (sign_inputs B s mtx amts (Suc i) pkScripts) (\<lambda>res. case res of
         Inl err \<Rightarrow> Ret (Inl err) | Inr sigs \<Rightarrow> Ret (Inr (sig # sigs))))"

text \<open>
  The scripts are taken out of the item before the first signature is made, and stay out whatever
  the result is.
\<close>

definition get_sigs :: "btcd \<Rightarrow> signer \<Rightarrow> to_sign_item \<Rightarrow> (go_error + bytes list) go \<times> to_sign_item" where
  "get_sigs B s item =
     (let pkScripts = map SignatureScript (TxIn (Mtx item));
          item = item\<lparr>Mtx := strip_scripts (Mtx item)\<rparr>
      in (sign_inputs B s (Mtx item) (Amts item) 0 pkScripts, item))"

section \<open>Submission\<close>

text \<open>The loop at \<open>RETRY\<close>.\<close>

definition submit :: "'w multi_sign \<Rightarrow> signer \<Rightarrow> string \<Rightarrow> bytes \<Rightarrow> bytes list \<Rightarrow> 'w \<Rightarrow> (string call_result \<times> 'w) option" where
  "submit multi_sign s key txHash sigs w =
     retry_post_err (multi_sign 1 key txHash (addr s) sigs (acct s)) w"

text \<open>
  What an item comes to before the database is touched: \<open>Inl\<close> an error that is logged, or the
  item with its scripts taken out.
\<close>

definition sign_and_submit ::
  "btcd \<Rightarrow> 'w multi_sign \<Rightarrow> signer \<Rightarrow> string \<Rightarrow> to_sign_item \<Rightarrow> 'w
     \<Rightarrow> ((go_error + to_sign_item) go \<times> 'w) option" where
  "sign_and_submit B multi_sign s key item w =
     (let txHash = tx_hash B (Mtx item)
      in case get_sigs B s item of (Panic p, item) \<Rightarrow> Some (Panic p, w)
         | (Ret (Inl err), item) \<Rightarrow> Some (Ret (Inl err), w)
         | (Ret (Inr sigs), item) \<Rightarrow>
        (case submit multi_sign s key txHash sigs w of None \<Rightarrow> None
         | Some (Answer txid, w) \<Rightarrow> Some (Ret (Inr item), w)
         | Some (PostErr e, w) \<Rightarrow> Some (Ret (Inl (Ext e)), w)
         | Some (CallErr e, w) \<Rightarrow> Some (Ret (Inl (Ext e)), w)))"

text \<open>
  One round of \<open>Signing\<close> on an item from the channel; \<open>None\<close>: it retries forever.
  The error of \<open>PutSignedTx\<close> is logged only.
\<close>

definition signing_round ::
  "btcd \<Rightarrow> 'd leveldb \<Rightarrow> 'w multi_sign \<Rightarrow> ('w \<Rightarrow> gotime) \<Rightarrow> signer \<Rightarrow> string \<Rightarrow> to_sign_item
     \<Rightarrow> 'd vendor_db \<Rightarrow> 'w \<Rightarrow> ('d vendor_db go \<times> 'w) option" where
  "signing_round B L multi_sign now s key item v w =
     (case sign_and_submit B multi_sign s key item w of None \<Rightarrow> None
      | Some (Panic p, w) \<Rightarrow> Some (Panic p, w)
      | Some (Ret (Inl err), w) \<Rightarrow> Some (Ret v, w)
      | Some (Ret (Inr item), w) \<Rightarrow>
        let dbkey = tx_hash B (strip_scripts (Mtx item))
        in Some (Ret (snd (put_signed_tx B L v dbkey
                        \<lparr>Item = item, TimeReceived = now w, Done = False\<rparr>)), w))"

text \<open>\<open>Signing\<close> on the items that the channel delivers, in this order.\<close>

primrec signing_items ::
  "btcd \<Rightarrow> 'd leveldb \<Rightarrow> 'w multi_sign \<Rightarrow> ('w \<Rightarrow> gotime) \<Rightarrow> signer \<Rightarrow> string \<Rightarrow> to_sign_item list
     \<Rightarrow> 'd vendor_db \<Rightarrow> 'w \<Rightarrow> ('d vendor_db go \<times> 'w) option" where
  "signing_items B L multi_sign now s key [] v w = Some (Ret v, w)"
| "signing_items B L multi_sign now s key (item # txchan) v w =
     (case signing_round B L multi_sign now s key item v w of None \<Rightarrow> None
      | Some (Panic p, w) \<Rightarrow> Some (Panic p, w)
      | Some (Ret v, w) \<Rightarrow> signing_items B L multi_sign now s key txchan v w)"

definition signing ::
  "btcd \<Rightarrow> 'd leveldb \<Rightarrow> 'w multi_sign \<Rightarrow> ('w \<Rightarrow> gotime) \<Rightarrow> signer \<Rightarrow> to_sign_item list
     \<Rightarrow> 'd vendor_db \<Rightarrow> 'w \<Rightarrow> ('d vendor_db go \<times> 'w) option" where
  "signing B L multi_sign now s txchan v w =
     (case get_utxo_key B (redeem s) of Panic p \<Rightarrow> Some (Panic p, w)
      | Ret key \<Rightarrow> signing_items B L multi_sign now s key txchan v w)"

text \<open>
  \<open>Sign\<close>, which the REST service calls: its own copy of the round, with nothing stored and every
  error returned.
\<close>

definition sign ::
  "btcd \<Rightarrow> 'w multi_sign \<Rightarrow> signer \<Rightarrow> to_sign_item \<Rightarrow> 'w \<Rightarrow> (go_error option go \<times> 'w) option" where
  "sign B multi_sign s item w =
     (let txHash = tx_hash B (Mtx item)
      in case get_utxo_key B (redeem s) of Panic p \<Rightarrow> Some (Panic p, w)
         | Ret key \<Rightarrow>
        (case get_sigs B s item of (Panic p, item) \<Rightarrow> Some (Panic p, w)
         | (Ret (Inl err), item) \<Rightarrow> Some (Ret (Some err), w)
         | (Ret (Inr sigs), item) \<Rightarrow>
        (case retry_post_err (multi_sign 1 key txHash (addr s) sigs (acct s)) w of None \<Rightarrow> None
         | Some (Answer txid, w) \<Rightarrow> Some (Ret None, w)
         | Some (PostErr e, w) \<Rightarrow> Some (Ret (Some (Ext e)), w)
         | Some (CallErr e, w) \<Rightarrow> Some (Ret (Some (Ext e)), w))))"

section \<open>Facts about the signatures\<close>

text \<open>The signature that belongs to input \<open>i\<close>, whose script is \<open>pks\<close>.\<close>

definition is_signature_of :: "btcd \<Rightarrow> signer \<Rightarrow> msgtx \<Rightarrow> u64 list \<Rightarrow> nat \<Rightarrow> bytes \<Rightarrow> bytes \<Rightarrow> bool" where
  "is_signature_of B s mtx amts i pks sig =
     (case get_script_class B pks of
        MultiSigTy \<Rightarrow> raw_tx_in_signature B mtx i (redeem s) (privk s) = Inr sig
      | ScriptHashTy \<Rightarrow> raw_tx_in_signature B mtx i (redeem s) (privk s) = Inr sig
      | WitnessV0ScriptHashTy \<Rightarrow> i < length amts
          \<and> raw_tx_in_witness_signature B mtx i (amts ! i) (redeem s) (privk s) = Inr sig
      | OtherTy t \<Rightarrow> False)"

lemma input_error_Inr: "input_error i c res = Inr sig \<longleftrightarrow> res = Inr sig"
  by (cases res) (simp_all add: input_error_def)

lemma sign_input_Inr:
  "sign_input B s mtx amts i pks = Ret (Inr sig) \<longleftrightarrow> is_signature_of B s mtx amts i pks sig"
  by (simp add: sign_input_def is_signature_of_def index_def Let_def input_error_Inr split: script_class.split)

lemma sign_input_Panic:
  "sign_input B s mtx amts i pks = Panic p \<longleftrightarrow>
     p = IndexOutOfRange \<and> get_script_class B pks = WitnessV0ScriptHashTy \<and> length amts \<le> i"
  by (auto simp: sign_input_def index_def Let_def split: script_class.split)

lemma sign_inputs_Cons_Inr:
  "sign_inputs B s mtx amts i (pks # pkScripts) = Ret (Inr (sig # sigs)) \<longleftrightarrow>
     sign_input B s mtx amts i pks = Ret (Inr sig) \<and> sign_inputs B s mtx amts (Suc i) pkScripts = Ret (Inr sigs)"
proof (cases "sign_input B s mtx amts i pks")
  case (Ret res)
  then show ?thesis
    by (cases res; cases "sign_inputs B s mtx amts (Suc i) pkScripts") (simp_all split: sum.split)
qed simp

lemma sign_inputs_Cons_Panic:
  "sign_inputs B s mtx amts i (pks # pkScripts) = Panic p \<longleftrightarrow>
     sign_input B s mtx amts i pks = Panic p
     \<or> (\<exists>sig. sign_input B s mtx amts i pks = Ret (Inr sig)) \<and> sign_inputs B s mtx amts (Suc i) pkScripts = Panic p"
proof (cases "sign_input B s mtx amts i pks")
  case (Ret res)
  then show ?thesis
    by (cases res; cases "sign_inputs B s mtx amts (Suc i) pkScripts") (simp_all split: sum.split)
qed simp

lemma sign_inputs_Inr:
  "sign_inputs B s mtx amts i pkScripts = Ret (Inr sigs) \<longleftrightarrow>
     length sigs = length pkScripts
     \<and> (\<forall>j < length sigs. is_signature_of B s mtx amts (i + j) (pkScripts ! j) (sigs ! j))"
proof (induction pkScripts arbitrary: i sigs)
  case (Cons pks pkScripts)
  show ?case
  proof (cases sigs)
    case Nil
    then show ?thesis by (auto simp: go_bind_Ret_iff split: sum.splits)
  next
    case (Cons sig sigs')
    note sign_inputs_Cons_Inr [of B s mtx amts i pks pkScripts sig sigs']
    then show ?thesis
      using Cons.IH [of "Suc i" sigs'] Cons
      by (simp add: sign_input_Inr All_less_Suc2 conj_left_commute del: sign_inputs.simps)
  qed
qed auto

lemma sign_inputs_Panic:
  "sign_inputs B s mtx amts i pkScripts = Panic p \<longleftrightarrow>
     (\<exists>j < length pkScripts. sign_input B s mtx amts (i + j) (pkScripts ! j) = Panic p
        \<and> (\<forall>k < j. \<exists>sig. is_signature_of B s mtx amts (i + k) (pkScripts ! k) sig))"
proof (induction pkScripts arbitrary: i)
  case (Cons pks pkScripts)
  have "sign_inputs B s mtx amts i (pks # pkScripts) = Panic p \<longleftrightarrow>
      sign_input B s mtx amts i pks = Panic p
      \<or> (\<exists>sig. is_signature_of B s mtx amts i pks sig) \<and> sign_inputs B s mtx amts (Suc i) pkScripts = Panic p"
    unfolding sign_input_Inr [symmetric] by (rule sign_inputs_Cons_Panic)
  then show ?case
    unfolding Cons.IH by (auto simp: Ex_less_Suc2 All_less_Suc2 simp del: sign_inputs.simps)
qed simp

lemma get_sigs_snd [simp]: "snd (get_sigs B s item) = item\<lparr>Mtx := strip_scripts (Mtx item)\<rparr>"
  by (simp add: get_sigs_def Let_def)

lemma get_sigs_Inr:
  "fst (get_sigs B s item) = Ret (Inr sigs) \<longleftrightarrow>
     length sigs = length (TxIn (Mtx item))
     \<and> (\<forall>j < length sigs. is_signature_of B s (strip_scripts (Mtx item)) (Amts item) j
          (SignatureScript (TxIn (Mtx item) ! j)) (sigs ! j))"
  by (auto simp: get_sigs_def Let_def sign_inputs_Inr)

lemma get_sigs_Panic:
  "fst (get_sigs B s item) = Panic p \<longleftrightarrow>
     p = IndexOutOfRange
     \<and> (\<exists>j < length (TxIn (Mtx item)). length (Amts item) \<le> j
          \<and> get_script_class B (SignatureScript (TxIn (Mtx item) ! j)) = WitnessV0ScriptHashTy
          \<and> (\<forall>k < j. \<exists>sig. is_signature_of B s (strip_scripts (Mtx item)) (Amts item) k
                (SignatureScript (TxIn (Mtx item) ! k)) sig))"
  by (auto simp: get_sigs_def Let_def sign_inputs_Panic sign_input_Panic)

section \<open>Facts about a round of the signer\<close>

abbreviation stripped_item :: "to_sign_item \<Rightarrow> to_sign_item" where
  "stripped_item item \<equiv> item\<lparr>Mtx := strip_scripts (Mtx item)\<rparr>"

lemma get_sigs_eq: "fst (get_sigs B s item) = r \<Longrightarrow> get_sigs B s item = (r, stripped_item item)"
  by (simp add: prod_eq_iff)

definition unsigned_hash :: "btcd \<Rightarrow> to_sign_item \<Rightarrow> bytes" where
  "unsigned_hash B item = tx_hash B (strip_scripts (Mtx item))"

definition new_saved :: "to_sign_item \<Rightarrow> gotime \<Rightarrow> saved_item" where
  "new_saved item t = \<lparr>Item = stripped_item item, TimeReceived = t, Done = False\<rparr>"

lemma item_key_new_saved [simp]: "item_key B (new_saved item t) = unsigned_hash B item"
  by (simp add: item_key_def new_saved_def unsigned_hash_def)

lemma sign_and_submit_accepted:
  assumes "fst (get_sigs B s item) = Ret (Inr sigs)"
    and "submit multi_sign s key (tx_hash B (Mtx item)) sigs w = Some (res, w')"
  shows "sign_and_submit B multi_sign s key item w =
           Some (Ret (case res of Answer txid \<Rightarrow> Inr (stripped_item item) | PostErr e \<Rightarrow> Inl (Ext e) | CallErr e \<Rightarrow> Inl (Ext e)), w')"
  using get_sigs_eq [OF assms(1)] assms(2) by (simp add: sign_and_submit_def split: call_result.split)

lemma signing_round_submitted:
  assumes "fst (get_sigs B s item) = Ret (Inr sigs)"
    and "submit multi_sign s key (tx_hash B (Mtx item)) sigs w = Some (res, w')"
  shows "signing_round B L multi_sign now s key item v w =
           Some (Ret (case res of Answer txid \<Rightarrow>
                        snd (put_signed_tx B L v (unsigned_hash B item) (new_saved item (now w')))
                      | PostErr e \<Rightarrow> v | CallErr e \<Rightarrow> v), w')"
  using sign_and_submit_accepted [OF assms]
  by (simp add: signing_round_def unsigned_hash_def new_saved_def split: call_result.split)

lemma signing_round_returns:
  "(\<exists>p. signing_round B L multi_sign now s key item v w = Some p) \<longleftrightarrow>
     (\<forall>sigs. fst (get_sigs B s item) = Ret (Inr sigs) \<longrightarrow>
        (\<exists>p. submit multi_sign s key (tx_hash B (Mtx item)) sigs w = Some p))"
proof (cases "fst (get_sigs B s item)")
  case (Ret res)
  note eq = get_sigs_eq [OF Ret]
  show ?thesis
  proof (cases res)
    case (Inr sigs)
    with Ret have sigs: "fst (get_sigs B s item) = Ret (Inr sigs)" by simp
    show ?thesis
    proof (cases "submit multi_sign s key (tx_hash B (Mtx item)) sigs w")
      case None
      with Inr eq have "signing_round B L multi_sign now s key item v w = None"
        by (simp add: signing_round_def sign_and_submit_def)
      with None sigs show ?thesis by auto
    next
      case (Some p)
      then have "submit multi_sign s key (tx_hash B (Mtx item)) sigs w = Some (fst p, snd p)" by simp
      from signing_round_submitted [OF sigs this, of L now v] Some sigs show ?thesis by auto
    qed
  next
    case (Inl e)
    then show ?thesis using eq Ret by (simp add: signing_round_def sign_and_submit_def)
  qed
next
  case (Panic p)
  then show ?thesis using get_sigs_eq [OF Panic] by (simp add: signing_round_def sign_and_submit_def)
qed

text \<open>The two copies come to the same.\<close>

lemma sign_submits:
  "sign B multi_sign s item w =
     (case get_utxo_key B (redeem s) of Panic p \<Rightarrow> Some (Panic p, w)
      | Ret key \<Rightarrow>
     (case sign_and_submit B multi_sign s key item w of None \<Rightarrow> None
      | Some (Panic p, w) \<Rightarrow> Some (Panic p, w)
      | Some (Ret (Inl err), w) \<Rightarrow> Some (Ret (Some err), w)
      | Some (Ret (Inr item), w) \<Rightarrow> Some (Ret None, w)))"
  by (simp add: sign_def sign_and_submit_def submit_def Let_def
      split: go.split prod.split sum.split option.split call_result.split)

end
