(* ===== verification/Signer_Properties.thy ===== *)
theory Signer_Properties
  imports Vendor_Signer Sample_World
begin

text \<open>The properties of the signer (\<open>signer/signer.go\<close>), each with its witness.\<close>

section \<open>A concrete signer\<close>

definition sample_account :: account where
  "sample_account = \<lparr>acct_addr = ''poly'', ec_private_key = Some [9]\<rparr>"

definition sample_signer :: signer where
  "sample_signer = \<lparr>privk = [9], addr = ''btc'', acct = sample_account, redeem = [1, 174]\<rparr>"

text \<open>The item of the chain event: one input, whose script is the vendor's.\<close>

definition event_item :: "byte \<Rightarrow> to_sign_item" where
  "event_item n = \<lparr>Mtx = \<lparr>TxIn = [\<lparr>SignatureScript = [1, 174], txin_rest = [n]\<rparr>], tx_rest = []\<rparr>, Amts = [7]\<rparr>"

text \<open>A chain that cannot be reached for the next \<open>w\<close> calls.\<close>

definition sample_chain :: "nat multi_sign" where
  "sample_chain i key h a sigs acc w = (if w = 0 then (Answer ''txid'', 0) else (PostErr ''timeout'', w - 1))"

definition sample_now :: "nat \<Rightarrow> gotime" where
  "sample_now w = sample_time 9"

lemma sample_multisig: "get_script_class sample_btcd [1, 174] = MultiSigTy"
  by (simp add: sample_btcd_def sample_class_def)

lemma sample_key_Ret: "get_utxo_key sample_btcd (redeem sample_signer) = Ret (hex_encode (hash160 sample_btcd [1, 174]))"
  by (simp add: get_utxo_key_def sample_signer_def sample_multisig)

lemma sample_strip [simp]: "stripped_item (event_item n) = \<lparr>Mtx = sample_tx n, Amts = [7]\<rparr>"
  by (simp add: event_item_def strip_scripts_def sample_tx_def)

lemma sample_new_saved: "new_saved (event_item n) (sample_now w) = sample_item n 9"
  unfolding new_saved_def sample_strip by (simp add: sample_now_def sample_item_def)

lemma sample_unsigned_hash [simp]: "unsigned_hash sample_btcd (event_item n) = [1, 0, 1, n]"
  using item_key_new_saved [of sample_btcd "event_item n" "sample_now 0"]
  by (simp add: sample_new_saved sample_key)

lemma sample_signed: "fst (get_sigs sample_btcd sample_signer (event_item n)) = Ret (Inr [[9, 0]])"
  by (simp add: get_sigs_Inr event_item_def is_signature_of_def sample_multisig)
    (simp add: sample_btcd_def sample_signer_def)

lemma after_sample_chain: "after_calls (sample_chain i key h a sigs acc) n w = w - n"
  by (induction n arbitrary: w) (simp_all add: sample_chain_def)

section \<open>Properties\<close>

text \<open>
  C5: \<open>getSigs\<close> succeeds exactly when every input can be signed, and then returns one
  signature per input, the \<open>i\<close>-th made for input \<open>i\<close> by the rule of its script class, over
  the transaction with all scripts taken out; the item keeps its amounts and loses its scripts
  whatever the result is.
\<close>

theorem one_signature_per_input:
  "(fst (get_sigs B s item) = Ret (Inr sigs) \<longleftrightarrow>
      length sigs = length (TxIn (Mtx item))
      \<and> (\<forall>j < length sigs. is_signature_of B s (strip_scripts (Mtx item)) (Amts item) j
           (SignatureScript (TxIn (Mtx item) ! j)) (sigs ! j)))
   \<and> Mtx (snd (get_sigs B s item)) = strip_scripts (Mtx item)
   \<and> Amts (snd (get_sigs B s item)) = Amts item"
  by (simp add: get_sigs_Inr)

theorem one_signature_per_input_witness:
  "is_signature_of sample_btcd sample_signer (strip_scripts (Mtx (event_item 4))) [7] 0 [1, 174] [9, 0]"
  using conjunct1 [OF one_signature_per_input [of sample_btcd sample_signer "event_item 4" "[[9, 0]]"]]
  using sample_signed [of 4] by (simp add: event_item_def)



text \<open>
  C7: A round of \<open>Signing\<close> stores the item exactly when the chain accepted its signatures:
  under the hash of the unsigned transaction, without scripts, not done, and only if that hash is
  new; after any other answer of the chain the database is as before.
\<close>

theorem signing_stores_accepted:
  assumes "vdb_sound B L v" and "fst (get_sigs B s item) = Ret (Inr sigs)"
    and "submit multi_sign s key (tx_hash B (Mtx item)) sigs w = Some (res, w')"
    and "saved_ok B (new_saved item (now w'))"
  shows "\<exists>v'. signing_round B L multi_sign now s key item v w = Some (Ret v', w')
     \<and> vdb_sound B L v'
     \<and> stored B L v' = (case res of
          Answer txid \<Rightarrow> if stored B L v (unsigned_hash B item) = None
            then (stored B L v)(unsigned_hash B item \<mapsto> canon_saved (new_saved item (now w')))
            else stored B L v
        | PostErr e \<Rightarrow> stored B L v | CallErr e \<Rightarrow> stored B L v)"
proof -
  have ok: "put_ok B (unsigned_hash B item) (new_saved item (now w'))"
    using assms(4) by (simp add: put_ok_def)
  show ?thesis
    using signing_round_submitted [OF assms(2,3), of L now v] assms(1)
      vdb.put_law [OF assms(1) ok prod.collapse [symmetric]]
    by (simp split: call_result.split)
qed

lemma sample_submit:
  "submit sample_chain s key h sigs w = Some (Answer ''txid'', 0)"
  unfolding submit_def
  by (rule post_loop.returns_first [where n = w])
    (simp_all add: after_sample_chain sample_chain_def)

theorem signing_stores_accepted_witness:
  "\<exists>v'. signing_round sample_btcd alist_db sample_chain sample_now sample_signer ''key'' (event_item 4) empty_vdb 3
          = Some (Ret v', 0)
     \<and> stored sample_btcd alist_db v' [1, 0, 1, 4] = Some (sample_item 4 9)"
  using signing_stores_accepted [OF empty_vdb_sound sample_signed sample_submit,
      of 4 sample_now "''key''" 3]
  by (auto simp: sample_new_saved sample_saved_ok sample_canon)

text \<open>
  C32: A round comes to an end (it returns, or panics on a missing amount) exactly when the item cannot
  be signed or some call of the chain is answered otherwise than by a \<open>PostErr\<close>. When the item can be signed, the calls before the first such call
  have no effect but on the world, and that call decides: accepted, the item is put into the database; any other
  error leaves the database as it was.
\<close>

theorem signing_round_terminates:
  "((\<exists>p. signing_round B L multi_sign now s key item v w = Some p) \<longleftrightarrow>
     (\<forall>sigs. fst (get_sigs B s item) = Ret (Inr sigs) \<longrightarrow>
        (let call = multi_sign 1 key (tx_hash B (Mtx item)) (addr s) sigs (acct s)
         in \<exists>n. \<not> is_post_err (fst (call (after_calls call n w))))))
   \<and> (\<forall>sigs n res w'. fst (get_sigs B s item) = Ret (Inr sigs) \<longrightarrow>
        (let call = multi_sign 1 key (tx_hash B (Mtx item)) (addr s) sigs (acct s)
         in (\<forall>k < n. is_post_err (fst (call (after_calls call k w))))
            \<and> call (after_calls call n w) = (res, w') \<and> \<not> is_post_err res \<longrightarrow>
              signing_round B L multi_sign now s key item v w
                = Some (Ret (case res of
                    Answer txid \<Rightarrow> snd (put_signed_tx B L v (unsigned_hash B item) (new_saved item (now w')))
                  | PostErr e \<Rightarrow> v | CallErr e \<Rightarrow> v), w')))"
proof (intro conjI allI impI)
  show "(\<exists>p. signing_round B L multi_sign now s key item v w = Some p) \<longleftrightarrow>
     (\<forall>sigs. fst (get_sigs B s item) = Ret (Inr sigs) \<longrightarrow>
        (let call = multi_sign 1 key (tx_hash B (Mtx item)) (addr s) sigs (acct s)
         in \<exists>n. \<not> is_post_err (fst (call (after_calls call n w)))))"
    unfolding signing_round_returns submit_def post_loop.returns_iff Let_def ..
next
  fix sigs n res w' assume sigs: "fst (get_sigs B s item) = Ret (Inr sigs)"
  let ?call = "multi_sign 1 key (tx_hash B (Mtx item)) (addr s) sigs (acct s)"
  have "signing_round B L multi_sign now s key item v w
      = Some (Ret (case res of
          Answer txid \<Rightarrow> snd (put_signed_tx B L v (unsigned_hash B item) (new_saved item (now w')))
        | PostErr e \<Rightarrow> v | CallErr e \<Rightarrow> v), w')"
    if "\<forall>k < n. is_post_err (fst (?call (after_calls ?call k w)))" "?call (after_calls ?call n w) = (res, w')"
      "\<not> is_post_err res"
  proof -
    have "submit multi_sign s key (tx_hash B (Mtx item)) sigs w = Some (res, w')"
      unfolding submit_def using that by (intro post_loop.returns_first [where n = n]) auto
    from signing_round_submitted [OF sigs this] show ?thesis .
  qed
  then show "let call = ?call
     in (\<forall>k < n. is_post_err (fst (call (after_calls call k w))))
        \<and> call (after_calls call n w) = (res, w') \<and> \<not> is_post_err res \<longrightarrow>
          signing_round B L multi_sign now s key item v w
            = Some (Ret (case res of
                Answer txid \<Rightarrow> snd (put_signed_tx B L v (unsigned_hash B item) (new_saved item (now w')))
              | PostErr e \<Rightarrow> v | CallErr e \<Rightarrow> v), w')"
    unfolding Let_def by blast
qed

theorem signing_round_terminates_witness:
  "signing_round sample_btcd alist_db sample_chain sample_now sample_signer ''key'' (event_item 4) empty_vdb 3
     = Some (Ret (snd (put_signed_tx sample_btcd alist_db empty_vdb [1, 0, 1, 4] (sample_item 4 9))), 0)"
proof -
  have "sample_chain 1 key h a sigs acc 0 = (Answer ''txid'', 0)"
    "k < 3 \<Longrightarrow> is_post_err (fst (sample_chain 1 key h a sigs acc (3 - k)))" for key h a sigs acc k
    by (simp_all add: sample_chain_def)
  then show ?thesis
    using conjunct2 [OF signing_round_terminates [of sample_btcd alist_db sample_chain sample_now sample_signer "''key''"
          "event_item 4" empty_vdb 3], rule_format, of "[[9, 0]]" 3 "Answer ''txid''" 0]
    by (simp add: sample_signed after_sample_chain sample_new_saved Let_def)
qed

text \<open>
  C33: \<open>Sign\<close>, the path of mode \<open>onlysig\<close>, returns, panics or retries forever exactly as
  a round of \<open>Signing\<close> does and leaves the world in the same state; when it reports an error,
  the round leaves the database as it was.
\<close>

theorem sign_agrees_with_signing:
  assumes "get_utxo_key B (redeem s) = Ret key"
  shows "case signing_round B L multi_sign now s key item v w of
       None \<Rightarrow> sign B multi_sign s item w = None
     | Some (Panic p, w') \<Rightarrow> sign B multi_sign s item w = Some (Panic p, w')
     | Some (Ret v', w') \<Rightarrow> (\<exists>err. sign B multi_sign s item w = Some (Ret err, w')
          \<and> (v' = (if err = None
                   then snd (put_signed_tx B L v (unsigned_hash B item) (new_saved item (now w'))) else v)))"
proof (cases "sign_and_submit B multi_sign s key item w")
  case (Some p)
  obtain r u where p: "p = (r, u)" by force
  have "r = Ret (Inr item') \<Longrightarrow> item' = stripped_item item" for item'
    using Some p by (cases "get_sigs B s item") (auto simp: sign_and_submit_def get_sigs_def Let_def
        split: go.splits sum.splits option.splits call_result.splits)
  then show ?thesis
    using assms Some p
    by (auto simp: sign_submits signing_round_def unsigned_hash_def new_saved_def Let_def split: go.split sum.split)
qed (simp add: assms sign_submits signing_round_def)

theorem sign_agrees_with_signing_witness:
  "\<exists>err. sign sample_btcd sample_chain sample_signer (event_item 4) 3 = Some (Ret err, 0)"
  using sign_agrees_with_signing [OF sample_key_Ret, where L = alist_db and multi_sign = sample_chain
      and now = sample_now and item = "event_item 4" and v = empty_vdb and w = 3]
    signing_round_submitted [OF sample_signed sample_submit, of alist_db sample_now
      "hex_encode (hash160 sample_btcd [1, 174])" 4 empty_vdb 3]
  by auto

section \<open>A whole run of the signer\<close>

definition chain_accepts :: "'w multi_sign \<Rightarrow> bool" where
  "chain_accepts multi_sign \<longleftrightarrow>
     (\<forall>i key h a sigs acc w.
        (\<exists>n. \<not> is_post_err (fst (multi_sign i key h a sigs acc (after_calls (multi_sign i key h a sigs acc) n w))))
        \<and> (\<forall>e. fst (multi_sign i key h a sigs acc w) \<noteq> CallErr e))"

definition signable :: "btcd \<Rightarrow> ('w \<Rightarrow> gotime) \<Rightarrow> signer \<Rightarrow> to_sign_item \<Rightarrow> bool" where
  "signable B now s item \<longleftrightarrow>
     (\<exists>sigs. fst (get_sigs B s item) = Ret (Inr sigs)) \<and> (\<forall>w. saved_ok B (new_saved item (now w)))"

lemma chain_accepts_submit:
  assumes "chain_accepts multi_sign"
  obtains txid w' where "submit multi_sign s key h sigs w = Some (Answer txid, w')"
proof -
  let ?call = "multi_sign 1 key h (addr s) sigs (acct s)"
  have "\<exists>p. submit multi_sign s key h sigs w = Some p"
    using assms unfolding submit_def post_loop.returns_iff chain_accepts_def by blast
  then obtain r w' where r: "submit multi_sign s key h sigs w = Some (r, w')" by auto
  then have "retry ?call is_post_err w = Some (r, w')" by (simp add: submit_def retry_post_err_def)
  from retry_result [OF this] have "\<not> is_post_err r" "\<exists>u. ?call u = (r, w')" by simp_all
  moreover from this(2) have "r \<noteq> CallErr e" for e
    using assms unfolding chain_accepts_def by (metis fst_conv)
  ultimately show thesis using that r by (cases r) auto
qed

lemma signing_items_stored:
  assumes "vdb_sound B L v" "chain_accepts multi_sign" "\<forall>item \<in> set txchan. signable B now s item"
  shows "\<exists>v' w'. signing_items B L multi_sign now s key txchan v w = Some (Ret v', w') \<and> vdb_sound B L v'
     \<and> dom (stored B L v') = dom (stored B L v) \<union> unsigned_hash B ` set txchan
     \<and> (\<forall>h y. stored B L v h = Some y \<longrightarrow> stored B L v' h = Some y)"
  using assms(1,3)
proof (induction txchan arbitrary: v w)
  case (Cons item txchan)
  from Cons.prems(2) obtain sigs where sigs: "fst (get_sigs B s item) = Ret (Inr sigs)"
    and ok: "\<And>w. saved_ok B (new_saved item (now w))" by (auto simp: signable_def)
  obtain txid w1 where sub: "submit multi_sign s key (tx_hash B (Mtx item)) sigs w = Some (Answer txid, w1)"
    by (rule chain_accepts_submit [OF assms(2)])
  let ?v = "snd (put_signed_tx B L v (unsigned_hash B item) (new_saved item (now w1)))"
  have round: "signing_round B L multi_sign now s key item v w = Some (Ret ?v, w1)"
    using signing_round_submitted [OF sigs sub] by simp
  have "put_ok B (unsigned_hash B item) (new_saved item (now w1))" using ok by (simp add: put_ok_def)
  from vdb.put_law [OF Cons.prems(1) this prod.collapse [symmetric]]
  have v: "vdb_sound B L ?v" and dom: "dom (stored B L ?v) = insert (unsigned_hash B item) (dom (stored B L v))"
    and keep: "\<forall>h y. stored B L v h = Some y \<longrightarrow> stored B L ?v h = Some y"
    by auto
  from Cons.IH [OF v, of w1] Cons.prems(2) obtain v' w' where
    rest: "signing_items B L multi_sign now s key txchan ?v w1 = Some (Ret v', w')" "vdb_sound B L v'"
    "dom (stored B L v') = dom (stored B L ?v) \<union> unsigned_hash B ` set txchan"
    "\<forall>h y. stored B L ?v h = Some y \<longrightarrow> stored B L v' h = Some y"
    by auto
  then show ?case using round dom keep by auto
qed simp

text \<open>
  C8: When the chain accepts what gets through and every call gets through at last, \<open>Signing\<close>
  works off any number of signable items without panic or endless retry, and the database then holds
  exactly what it held before, unchanged, and every item of the channel under its unsigned hash.
\<close>

theorem every_accepted_item_stored:
  assumes "vdb_sound B L v" and "script_class_ok B" and "chain_accepts multi_sign"
    and "\<forall>item \<in> set txchan. signable B now s item"
  shows "\<exists>v' w'. signing B L multi_sign now s txchan v w = Some (Ret v', w') \<and> vdb_sound B L v'
     \<and> dom (stored B L v') = dom (stored B L v) \<union> unsigned_hash B ` set txchan
     \<and> (\<forall>h y. stored B L v h = Some y \<longrightarrow> stored B L v' h = Some y)"
  using get_utxo_key_total [OF assms(2), of "redeem s"] signing_items_stored [OF assms(1,3,4)]
  by (auto simp: signing_def)

lemma sample_chain_accepts: "chain_accepts sample_chain"
proof -
  have "\<exists>n. \<not> is_post_err (fst (sample_chain i key h a sigs acc (w - n)))" for i key h a sigs acc w
    by (intro exI [of _ w]) (simp add: sample_chain_def)
  then show ?thesis unfolding chain_accepts_def after_sample_chain by (simp add: sample_chain_def)
qed

lemma sample_signable: "signable sample_btcd sample_now sample_signer (event_item n)"
  using sample_signed by (simp add: signable_def sample_new_saved sample_saved_ok)

theorem every_accepted_item_stored_witness:
  "\<exists>v' w'. signing sample_btcd alist_db sample_chain sample_now sample_signer [event_item 4, event_item 5] empty_vdb 2
       = Some (Ret v', w')
     \<and> dom (stored sample_btcd alist_db v') = {[1, 0, 1, 4], [1, 0, 1, 5]}"
  using every_accepted_item_stored [OF empty_vdb_sound script_class_ok_sample sample_chain_accepts,
      of "[event_item 4, event_item 5]" sample_now sample_signer 2]
  by (auto simp: sample_signable)

end
