(* ===== verification/Go_Utf8.thy ===== *)
theory Go_Utf8
  imports Go_Strings
begin

text \<open>
  UTF-8 as Go's \<open>unicode/utf8\<close> reads it: a string is any list of bytes, and where it is no
  code point, one byte is read as the replacement character U+FFFD.
\<close>

section \<open>Code points\<close>

definition utf8 :: "nat \<Rightarrow> string" where
  "utf8 n =
     (if n < 128 then [char_of n]
      else if n < 2048 then [char_of (192 + n div 64), char_of (128 + n mod 64)]
      else if n < 65536 then [char_of (224 + n div 4096), char_of (128 + n div 64 mod 64), char_of (128 + n mod 64)]
      else [char_of (240 + n div 262144), char_of (128 + n div 4096 mod 64), char_of (128 + n div 64 mod 64),
            char_of (128 + n mod 64)])"

text \<open>How many bytes begin with this one, and what the second may be.\<close>

definition rune_length :: "nat \<Rightarrow> nat" where
  "rune_length n =
     (if n < 128 then 1 else if 194 \<le> n \<and> n \<le> 223 then 2 else if 224 \<le> n \<and> n \<le> 239 then 3
      else if 240 \<le> n \<and> n \<le> 244 then 4 else 0)"

definition second_ok :: "nat \<Rightarrow> nat \<Rightarrow> bool" where
  "second_ok n m \<longleftrightarrow>
     (if n = 224 then 160 \<le> m else if n = 237 then m \<le> 159 else if n = 240 then 144 \<le> m
      else if n = 244 then m \<le> 143 else True)"

definition continues :: "char \<Rightarrow> bool" where
  "continues c \<longleftrightarrow> 128 \<le> (of_char c :: nat) \<and> (of_char c :: nat) \<le> 191"

text \<open>
  The bytes of the code point that a string begins with; 0: it begins with none (no shortest form, a
  surrogate, beyond U+10FFFF, or cut off).
\<close>

fun rune_size :: "string \<Rightarrow> nat" where
  "rune_size [] = 0"
| "rune_size (c # s) =
     (let n = of_char c; k = rune_length n; t = take (k - 1) s in
      if k < 2 then k
      else if length t = k - 1 \<and> second_ok n (of_char (hd t)) \<and> list_all continues t then k else 0)"

definition replacement :: string where
  "replacement = [CHR 0xEF, CHR 0xBF, CHR 0xBD]"

lemma utf8_replacement: "utf8 65533 = replacement"
  by (simp add: utf8_def replacement_def char_of_eq_iff take_bit_nat_eq_self)

function to_valid_utf8 :: "string \<Rightarrow> string" where
  "to_valid_utf8 [] = []"
| "to_valid_utf8 (c # s) =
     (let k = rune_size (c # s) in
      if k = 0 then replacement @ to_valid_utf8 s
      else take k (c # s) @ to_valid_utf8 (drop (k - 1) s))"
  by pat_completeness auto
termination
  by (relation "measure length") auto

function valid_utf8 :: "string \<Rightarrow> bool" where
  "valid_utf8 [] = True"
| "valid_utf8 (c # s) = (let k = rune_size (c # s) in k \<noteq> 0 \<and> valid_utf8 (drop (k - 1) s))"
  by pat_completeness auto
termination
  by (relation "measure length") auto

section \<open>Facts\<close>

lemma rune_size_le: "rune_size s \<le> length s"
  by (cases s) (auto simp: Let_def)

lemma rune_size_ascii: "(of_char c :: nat) < 128 \<Longrightarrow> rune_size (c # s) = 1"
  by (simp add: rune_length_def)

lemma rune_size_one: "rune_size (c # s) = 1 \<Longrightarrow> (of_char c :: nat) < 128"
  by (auto simp: Let_def rune_length_def split: if_splits)

text \<open>Only the bytes of the code point count.\<close>

lemma rune_size_take:
  assumes "rune_size s = k" and "k \<noteq> 0"
  shows "rune_size (take k s @ t) = k"
proof -
  obtain c u where s: "s = c # u" using assms by (cases s) simp_all
  let ?m = "rune_length (of_char c)"
  from assms s have k: "k = ?m"
    and rest: "\<not> ?m < 2 \<Longrightarrow> length (take (?m - 1) u) = ?m - 1
      \<and> second_ok (of_char c) (of_char (hd (take (?m - 1) u))) \<and> list_all continues (take (?m - 1) u)"
    by (auto simp: Let_def split: if_splits)
  have "take k s = c # take (?m - 1) u" using s k assms(2) by (cases ?m) simp_all
  with k rest assms(2) show ?thesis by (cases "?m < 2") (simp_all add: Let_def)
qed

lemma rune_bytes_high:
  assumes "rune_size s = k" and "1 < k" and "x \<in> set (take k s)"
  shows "128 \<le> (of_char x :: nat)"
  using assms
  by (cases s) (auto simp: Let_def rune_length_def continues_def list_all_iff take_Cons' split: if_splits)

lemma to_valid_length: "length s \<le> length (to_valid_utf8 s) \<and> (length (to_valid_utf8 s) = length s \<longleftrightarrow> valid_utf8 s)"
proof (induction s rule: to_valid_utf8.induct)
  case (2 c s)
  have "rune_size (c # s) \<le> Suc (length s)" using rune_size_le [of "c # s"] by simp
  with 2 show ?case by (auto simp: Let_def replacement_def simp del: rune_size.simps)
qed simp

theorem to_valid_iff: "to_valid_utf8 s = s \<longleftrightarrow> valid_utf8 s"
proof
  assume "to_valid_utf8 s = s"
  with to_valid_length [of s] show "valid_utf8 s" by simp
next
  show "valid_utf8 s \<Longrightarrow> to_valid_utf8 s = s"
  proof (induction s rule: valid_utf8.induct)
    case (2 c s)
    then show ?case
      by (cases "rune_size (c # s)") (simp_all add: Let_def del: rune_size.simps)
  qed simp
qed

abbreviation ascii :: "string \<Rightarrow> bool" where
  "ascii s \<equiv> list_all (\<lambda>c. (of_char c :: nat) < 128) s"

lemma ascii_valid: "ascii s \<Longrightarrow> valid_utf8 s"
  by (induction s rule: valid_utf8.induct) (simp_all add: rune_size_ascii del: rune_size.simps)

lemma ascii_to_valid: "ascii s \<Longrightarrow> to_valid_utf8 s = s"
  by (simp add: to_valid_iff ascii_valid)

text \<open>What was replaced is no ASCII text.\<close>

lemma to_valid_ascii: "to_valid_utf8 s = t \<Longrightarrow> ascii t \<Longrightarrow> s = t"
proof (induction s arbitrary: t rule: to_valid_utf8.induct)
  case (2 c s)
  let ?k = "rune_size (c # s)"
  have pos: "?k \<noteq> 0"
  proof
    assume "?k = 0"
    with "2.prems" show False by (auto simp: replacement_def simp del: rune_size.simps)
  qed
  have "\<not> 1 < ?k"
  proof
    assume one: "1 < ?k"
    then have "c \<in> set (take ?k (c # s))" by (cases ?k) (auto simp del: rune_size.simps)
    from rune_bytes_high [OF refl one this] have "128 \<le> (of_char c :: nat)" .
    moreover from "2.prems" pos have "t = take ?k (c # s) @ to_valid_utf8 (drop (?k - 1) s)"
      by (simp add: Let_def del: rune_size.simps)
    with "2.prems"(2) \<open>c \<in> set (take ?k (c # s))\<close> have "(of_char c :: nat) < 128"
      by (auto simp: list_all_iff simp del: rune_size.simps)
    ultimately show False by simp
  qed
  with pos have k: "?k = 1" by simp
  with "2.prems" "2.IH"(2) [OF refl pos] show ?case
    by (auto simp del: rune_size.simps)
qed simp

lemma replacement_valid: "rune_size (replacement @ t) = 3"
  by (simp add: replacement_def rune_length_def second_ok_def continues_def)

lemma valid_append_rune: "rune_size s = k \<Longrightarrow> k \<noteq> 0 \<Longrightarrow> valid_utf8 (take k s @ t) = valid_utf8 t"
proof -
  assume k: "rune_size s = k" "k \<noteq> 0"
  then obtain c u where s: "s = c # u" by (cases s) simp_all
  have "k \<le> length s" using rune_size_le [of s] k by simp
  with k s rune_size_take [OF k, of t] show ?thesis
    by (cases k) (auto simp: Let_def simp del: rune_size.simps)
qed

theorem valid_to_valid: "valid_utf8 (to_valid_utf8 s)"
proof (induction s rule: to_valid_utf8.induct)
  case (2 c s)
  have "valid_utf8 (replacement @ t) = valid_utf8 t" for t
    using valid_append_rune [of replacement 3 t] replacement_valid [of "[]"] by (simp add: replacement_def)
  with 2 show ?case by (simp add: Let_def valid_append_rune del: rune_size.simps take_Suc_Cons)
qed simp

lemma ascii_hex_encode [simp]: "ascii (hex_encode bs)"
proof -
  have "\<forall>n \<in> set [0..<16]. (of_char (hex_digit n) :: nat) < 128"
    by (simp add: upt_rec hex_digit_def)
  then have "n < 16 \<Longrightarrow> (of_char (hex_digit n) :: nat) < 128" for n by simp
  then show ?thesis by (induction bs) (simp_all add: hex_encode_def nibbles)
qed

text \<open>A text of ASCII characters is seen to be valid at once.\<close>

declare rune_size.simps(2) [simp del] to_valid_utf8.simps(2) [simp del] valid_utf8.simps(2) [simp del]
  ascii_valid [simp] ascii_to_valid [simp]

end
