(* ===== verification/Go_Json.thy ===== *)
theory Go_Json
  imports Go_Utf8
begin

text \<open>
  What the code uses of \<open>encoding/json\<close>: the text of a value (\<open>Marshal\<close>), its parser
  (\<open>Unmarshal\<close>), and the proof that parsing reads back what was printed. A number is kept as
  its literal, since decoding into a \<open>uint32\<close> and into an \<open>interface{}\<close> read it
  differently. A string is any list of bytes: where it is no UTF-8, printing and parsing put the
  replacement character.
\<close>

datatype json = JNull | JBool bool | JNum string | JStr string | JArr "json list" | JObj "(string \<times> json) list"

section \<open>Printing\<close>

text \<open>
  An ASCII character: quotes, backslashes, control characters and the three HTML characters are
  escaped.
\<close>

definition json_escape :: "char \<Rightarrow> string" where
  "json_escape c =
     (let n = of_char c :: nat in
      if c = CHR 0x22 \<or> c = CHR 0x5C then [CHR 0x5C, c]
      else if n = 10 then [CHR 0x5C, CHR ''n'']
      else if n = 13 then [CHR 0x5C, CHR ''r'']
      else if n = 9 then [CHR 0x5C, CHR ''t'']
      else if n < 32 \<or> c = CHR ''<'' \<or> c = CHR ''>'' \<or> c = CHR ''&''
      then [CHR 0x5C, CHR ''u'', CHR ''0'', CHR ''0'', hex_digit (n div 16), hex_digit (n mod 16)]
      else [c])"

text \<open>A code point of several bytes: the separators U+2028 and U+2029 are escaped.\<close>

definition escape_rune :: "string \<Rightarrow> string" where
  "escape_rune r =
     (if r = utf8 8232 then CHR 0x5C # ''u2028'' else if r = utf8 8233 then CHR 0x5C # ''u2029'' else r)"

function escape_string :: "string \<Rightarrow> string" where
  "escape_string [] = []"
| "escape_string (c # s) =
     (let k = rune_size (c # s) in
      if k = 0 then CHR 0x5C # ''ufffd'' @ escape_string s
      else if k = 1 then json_escape c @ escape_string s
      else escape_rune (take k (c # s)) @ escape_string (drop (k - 1) s))"
  by pat_completeness auto
termination
  by (relation "measure length") auto

declare escape_string.simps(2) [simp del]

definition print_string :: "string \<Rightarrow> string" where
  "print_string s = CHR 0x22 # escape_string s @ [CHR 0x22]"

fun join_comma :: "string list \<Rightarrow> string" where
  "join_comma [] = []"
| "join_comma [s] = s"
| "join_comma (s # t # ts) = s @ CHR '','' # join_comma (t # ts)"

lemma join_comma_Cons: "ts \<noteq> [] \<Longrightarrow> join_comma (s # ts) = s @ CHR '','' # join_comma ts"
  by (cases ts) simp_all

fun print_json :: "json \<Rightarrow> string" where
  "print_json JNull = ''null''"
| "print_json (JBool b) = (if b then ''true'' else ''false'')"
| "print_json (JNum lit) = lit"
| "print_json (JStr s) = print_string s"
| "print_json (JArr js) = CHR ''['' # join_comma (map print_json js) @ '']''"
| "print_json (JObj kvs) =
     CHR ''{'' # join_comma (map (\<lambda>kv. print_string (fst kv) @ CHR '':'' # print_json (snd kv)) kvs) @ ''}''"

section \<open>Parsing\<close>

definition is_digit :: "char \<Rightarrow> bool" where
  "is_digit c \<longleftrightarrow> digit_value c \<noteq> None"

definition is_space :: "char \<Rightarrow> bool" where
  "is_space c \<longleftrightarrow> (of_char c :: nat) \<in> {9, 10, 13, 32}"

definition skip_ws :: "string \<Rightarrow> string" where
  "skip_ws s = dropWhile is_space s"

definition next_is :: "char \<Rightarrow> string \<Rightarrow> bool" where
  "next_is c s \<longleftrightarrow> skip_ws s \<noteq> [] \<and> hd (skip_ws s) = c"

text \<open>The grammar of a number; a literal is the longest run of its characters.\<close>

definition num_char :: "char \<Rightarrow> bool" where
  "num_char c \<longleftrightarrow> is_digit c \<or> c \<in> {CHR ''-'', CHR ''+'', CHR ''.'', CHR ''e'', CHR ''E''}"

definition drop_sign :: "char list \<Rightarrow> string \<Rightarrow> string" where
  "drop_sign signs s = (case s of [] \<Rightarrow> [] | c # r \<Rightarrow> if c \<in> set signs then r else s)"

definition exponent_ok :: "string \<Rightarrow> bool" where
  "exponent_ok s = (case s of [] \<Rightarrow> True
     | c # r \<Rightarrow> (c = CHR ''e'' \<or> c = CHR ''E'')
         \<and> (let d = drop_sign ''+-'' r in d \<noteq> [] \<and> list_all is_digit d))"

definition fraction_ok :: "string \<Rightarrow> bool" where
  "fraction_ok s = (case s of [] \<Rightarrow> True
     | c # r \<Rightarrow> if c = CHR ''.'' then takeWhile is_digit r \<noteq> [] \<and> exponent_ok (dropWhile is_digit r)
               else exponent_ok s)"

definition number_ok :: "string \<Rightarrow> bool" where
  "number_ok s =
     (let t = drop_sign ''-'' s; d = takeWhile is_digit t
      in d \<noteq> [] \<and> (hd d = CHR ''0'' \<longrightarrow> length d = 1) \<and> fraction_ok (dropWhile is_digit t))"

definition hex4 :: "char \<Rightarrow> char \<Rightarrow> char \<Rightarrow> char \<Rightarrow> nat option" where
  "hex4 a b c d =
     (case (from_hex_char a, from_hex_char b, from_hex_char c, from_hex_char d) of
        (Some w, Some x, Some y, Some z) \<Rightarrow> Some (((unat w * 16 + unat x) * 16 + unat y) * 16 + unat z)
      | _ \<Rightarrow> None)"

definition simple_escape :: "char \<Rightarrow> char option" where
  "simple_escape e =
     (if e \<in> {CHR 0x22, CHR 0x5C, CHR ''/''} then Some e
      else if e = CHR ''b'' then Some (CHR 0x08) else if e = CHR ''f'' then Some (CHR 0x0C)
      else if e = CHR ''n'' then Some (CHR 0x0A) else if e = CHR ''r'' then Some (CHR 0x0D)
      else if e = CHR ''t'' then Some (CHR 0x09) else None)"

definition prepend :: "string \<Rightarrow> go_error + string \<times> string \<Rightarrow> go_error + string \<times> string" where
  "prepend p res = (case res of Inl e \<Rightarrow> Inl e | Inr (s, r) \<Rightarrow> Inr (p @ s, r))"

text \<open>The low half of a surrogate pair, when the text goes on with one.\<close>

fun low_surrogate :: "string \<Rightarrow> (nat \<times> string) option" where
  "low_surrogate (b # u # h1 # h2 # h3 # h4 # r) =
     (if b = CHR 0x5C \<and> u = CHR ''u'' then
        (case hex4 h1 h2 h3 h4 of None \<Rightarrow> None
         | Some m \<Rightarrow> if 56320 \<le> m \<and> m < 57344 then Some (m, r) else None)
      else None)"
| "low_surrogate s = None"

lemma low_surrogate_length: "low_surrogate s = Some (m, r) \<Longrightarrow> length r < length s"
  by (induction s rule: low_surrogate.induct) (auto split: if_splits option.splits)

text \<open>The characters up to the closing quote.\<close>

function parse_chars :: "string \<Rightarrow> go_error + string \<times> string" where
  "parse_chars s =
     (case s of [] \<Rightarrow> Inl (JsonError ''unexpected end of JSON input'')
      | c # r \<Rightarrow>
        if c = CHR 0x22 then Inr ([], r)
        else if (of_char c :: nat) < 32 then Inl (JsonError ''invalid character in string literal'')
        else if c \<noteq> CHR 0x5C then
          (let k = rune_size (c # r) in
           if k = 0 then prepend replacement (parse_chars r)
           else prepend (take k (c # r)) (parse_chars (drop (k - 1) r)))
        else case r of [] \<Rightarrow> Inl (JsonError ''unexpected end of JSON input'')
          | e # r \<Rightarrow>
            if e = CHR ''u'' then
              (case r of h1 # h2 # h3 # h4 # r \<Rightarrow>
                 (case hex4 h1 h2 h3 h4 of
                    None \<Rightarrow> Inl (JsonError ''invalid character in hexadecimal character escape'')
                  | Some n \<Rightarrow>
                      if 55296 \<le> n \<and> n < 56320 then
                        (case low_surrogate r of
                           None \<Rightarrow> prepend (utf8 65533) (parse_chars r)
                         | Some (m, r) \<Rightarrow> prepend (utf8 (65536 + (n - 55296) * 1024 + (m - 56320))) (parse_chars r))
                      else if 56320 \<le> n \<and> n < 57344 then prepend (utf8 65533) (parse_chars r)
                      else prepend (utf8 n) (parse_chars r))
               | _ \<Rightarrow> Inl (JsonError ''unexpected end of JSON input''))
            else case simple_escape e of
                   None \<Rightarrow> Inl (JsonError ''invalid character in string escape code'')
                 | Some ch \<Rightarrow> prepend [ch] (parse_chars r))"
  by pat_completeness auto
termination
  by (relation "measure length") (auto dest: low_surrogate_length)

declare parse_chars.simps [simp del]

text \<open>
  The values. Every call takes one unit of fuel, and two nested calls read at least one character,
  so twice the length of the text and one is enough (\<open>parse_fuel_enough\<close>).
\<close>

fun parse_value :: "nat \<Rightarrow> string \<Rightarrow> go_error + json \<times> string"
  and parse_elems :: "nat \<Rightarrow> string \<Rightarrow> go_error + json list \<times> string"
  and parse_members :: "nat \<Rightarrow> string \<Rightarrow> go_error + (string \<times> json) list \<times> string" where
  "parse_value 0 s = Inl (JsonError ''unexpected end of JSON input'')"
| "parse_value (Suc n) s =
     (case skip_ws s of [] \<Rightarrow> Inl (JsonError ''unexpected end of JSON input'')
      | c # r \<Rightarrow>
        if c = CHR ''['' then
          (if next_is (CHR '']'') r then Inr (JArr [], tl (skip_ws r))
           else case parse_elems n r of Inl e \<Rightarrow> Inl e | Inr (js, r) \<Rightarrow> Inr (JArr js, r))
        else if c = CHR ''{'' then
          (if next_is (CHR ''}'') r then Inr (JObj [], tl (skip_ws r))
           else case parse_members n r of Inl e \<Rightarrow> Inl e | Inr (kvs, r) \<Rightarrow> Inr (JObj kvs, r))
        else if c = CHR 0x22 then
          (case parse_chars r of Inl e \<Rightarrow> Inl e | Inr (s, r) \<Rightarrow> Inr (JStr s, r))
        else if take 4 (c # r) = ''null'' then Inr (JNull, drop 4 (c # r))
        else if take 4 (c # r) = ''true'' then Inr (JBool True, drop 4 (c # r))
        else if take 5 (c # r) = ''false'' then Inr (JBool False, drop 5 (c # r))
        else if number_ok (takeWhile num_char (c # r))
        then Inr (JNum (takeWhile num_char (c # r)), dropWhile num_char (c # r))
        else Inl (JsonError ''invalid character looking for beginning of value''))"
| "parse_elems 0 s = Inl (JsonError ''unexpected end of JSON input'')"
| "parse_elems (Suc n) s =
     (case parse_value n s of Inl e \<Rightarrow> Inl e
      | Inr (j, r) \<Rightarrow>
     (case skip_ws r of [] \<Rightarrow> Inl (JsonError ''unexpected end of JSON input'')
      | c # r \<Rightarrow>
        if c = CHR '']'' then Inr ([j], r)
        else if c = CHR '','' then
          (case parse_elems n r of Inl e \<Rightarrow> Inl e | Inr (js, r) \<Rightarrow> Inr (j # js, r))
        else Inl (JsonError ''invalid character after array element'')))"
| "parse_members 0 s = Inl (JsonError ''unexpected end of JSON input'')"
| "parse_members (Suc n) s =
     (case skip_ws s of [] \<Rightarrow> Inl (JsonError ''unexpected end of JSON input'')
      | q # r \<Rightarrow>
     (if q \<noteq> CHR 0x22 then Inl (JsonError ''invalid character looking for beginning of object key string'')
      else case parse_chars r of Inl e \<Rightarrow> Inl e
      | Inr (k, r) \<Rightarrow>
     (case skip_ws r of [] \<Rightarrow> Inl (JsonError ''unexpected end of JSON input'')
      | c # r \<Rightarrow>
     (if c \<noteq> CHR '':'' then Inl (JsonError ''invalid character after object key'')
      else case parse_value n r of Inl e \<Rightarrow> Inl e
      | Inr (j, r) \<Rightarrow>
     (case skip_ws r of [] \<Rightarrow> Inl (JsonError ''unexpected end of JSON input'')
      | c # r \<Rightarrow>
        if c = CHR ''}'' then Inr ([(k, j)], r)
        else if c = CHR '','' then
          (case parse_members n r of Inl e \<Rightarrow> Inl e | Inr (kvs, r) \<Rightarrow> Inr ((k, j) # kvs, r))
        else Inl (JsonError ''invalid character after object key:value pair''))))))"

declare parse_value.simps(2) [simp del] parse_elems.simps(2) [simp del] parse_members.simps(2) [simp del]

definition parse_json :: "string \<Rightarrow> go_error + json" where
  "parse_json s =
     (case parse_value (2 * length s + 1) s of Inl e \<Rightarrow> Inl e
      | Inr (j, r) \<Rightarrow> if skip_ws r = [] then Inr j
                     else Inl (JsonError ''invalid character after top-level value''))"

section \<open>Fuel\<close>

lemma skip_ws_length: "length (skip_ws s) \<le> length s"
  by (simp add: skip_ws_def length_dropWhile_le)

lemma skip_ws_Cons: "skip_ws s = c # r \<Longrightarrow> length r < length s"
  using skip_ws_length [of s] by simp

lemma prepend_Inr: "prepend p res = Inr (s, r) \<longleftrightarrow> (\<exists>t. res = Inr (t, r) \<and> s = p @ t)"
  by (auto simp: prepend_def split: sum.splits)

lemma parse_chars_length: "parse_chars s = Inr (t, r) \<Longrightarrow> length r < length s"
proof (induction s arbitrary: t r rule: measure_induct_rule [where f = length])
  case (less s)
  have IH: "parse_chars y = Inr (t, r) \<Longrightarrow> length y < length s \<Longrightarrow> length r < length y" for y t r
    by (rule less.IH)
  from less.prems show ?case
    by (subst (asm) parse_chars.simps)
      (auto simp: prepend_Inr Let_def split: list.splits if_splits option.splits dest!: low_surrogate_length dest: IH,
        use IH in fastforce)
qed

lemma number_ok_not_Nil: "\<not> number_ok []"
  by (simp add: number_ok_def drop_sign_def)

lemma parse_length:
  "parse_value n s = Inr (j, r) \<Longrightarrow> length r < length s"
  "parse_elems n s = Inr (js, r) \<Longrightarrow> length r < length s"
  "parse_members n s = Inr (kvs, r) \<Longrightarrow> length r < length s"
proof (induction n s and n s and n s arbitrary: j r and js r and kvs r
    rule: parse_value_parse_elems_parse_members.induct)
  case (2 n s)
  have tl: "length (skip_ws t) - Suc 0 \<le> length t" for t
    using skip_ws_length [of t] by simp
  have num: "number_ok (takeWhile num_char t) \<Longrightarrow> length (dropWhile num_char t) < length t" for t
    using arg_cong [OF takeWhile_dropWhile_id [of num_char t], of length] number_ok_not_Nil
    by (cases "takeWhile num_char t") (auto simp del: takeWhile_dropWhile_id)
  show ?case
  proof (cases "skip_ws s")
    case Nil
    with "2.prems" show ?thesis by (simp add: parse_value.simps(2))
  next
    case (Cons c t)
    note len = skip_ws_Cons [OF Cons]
    have step: "length u < length t \<Longrightarrow> length u < length s" for u :: string using len by simp
    show ?thesis
      using "2.prems" Cons len tl [of t] num [of "c # t"] "2.IH" [OF Cons]
      by (auto simp: parse_value.simps(2) split: if_splits sum.splits dest!: parse_chars_length)
  qed
next
  case (4 n s)
  then show ?case
    by (auto simp: parse_elems.simps(2) split: if_splits sum.splits list.splits dest!: skip_ws_Cons)
      fastforce+
next
  case (6 n s)
  then show ?case
    by (auto simp: parse_members.simps(2) split: if_splits sum.splits list.splits
        dest!: skip_ws_Cons parse_chars_length) fastforce+
qed simp_all

text \<open>More fuel than \<open>parse_json\<close> gives changes nothing.\<close>

lemma parse_fuel_enough:
  "2 * length s < n \<Longrightarrow> 2 * length s < m \<Longrightarrow> parse_value n s = parse_value m s"
  "2 * length s + 1 < n \<Longrightarrow> 2 * length s + 1 < m \<Longrightarrow> parse_elems n s = parse_elems m s"
  "2 * length s + 1 < n \<Longrightarrow> 2 * length s + 1 < m \<Longrightarrow> parse_members n s = parse_members m s"
proof (induction n s and n s and n s arbitrary: m and m and m
    rule: parse_value_parse_elems_parse_members.induct)
  case (2 n s)
  obtain k where m: "m = Suc k" using "2.prems"(2) by (cases m) auto
  show ?case
  proof (cases "skip_ws s")
    case (Cons c r)
    have "2 * length r + 1 < n" "2 * length r + 1 < k"
      using skip_ws_Cons [OF Cons] "2.prems" m by linarith+
    note less = this
    consider (arr) "c = CHR ''[''" "\<not> (next_is (CHR '']'') r)"
      | (obj) "c = CHR ''{''" "\<not> (next_is (CHR ''}'') r)"
      | (other) "c = CHR ''['' \<longrightarrow> next_is (CHR '']'') r"
          "c = CHR ''{'' \<longrightarrow> next_is (CHR ''}'') r"
      by blast
    then show ?thesis
    proof cases
      case arr
      have "parse_elems n r = parse_elems k r" using "2.IH"(1) [OF Cons] arr less by blast
      with arr Cons m show ?thesis by (simp add: parse_value.simps(2))
    next
      case obj
      have "parse_members n r = parse_members k r" by (rule "2.IH"(2) [OF Cons]) (use obj less in simp_all)
      with obj Cons m show ?thesis by (simp add: parse_value.simps(2))
    next
      case other
      with Cons m show ?thesis by (simp add: parse_value.simps(2))
    qed
  qed (simp add: m parse_value.simps(2))
next
  case (4 n s)
  obtain k where m: "m = Suc k" using "4.prems"(2) by (cases m) auto
  have eq: "parse_value n s = parse_value k s" using "4.IH"(1) [of k] "4.prems" m by simp
  show ?case
  proof (cases "parse_value k s")
    case (Inr p)
    obtain j r where p: "p = (j, r)" by force
    show ?thesis
    proof (cases "skip_ws r")
      case (Cons c r')
      have "2 * length r' + 1 < n" "2 * length r' + 1 < k"
        using skip_ws_Cons [OF Cons] parse_length(1) [of k s j r] Inr p "4.prems" m by simp_all
      note less = this
      have "parse_value n s = Inr (j, r)" using eq Inr p by simp
      note IH = "4.IH"(2) [OF this refl Cons]
      have "c = CHR '','' \<Longrightarrow> parse_elems n r' = parse_elems k r'" by (rule IH) (use less in simp_all)
      then show ?thesis using Inr p Cons m eq by (simp add: parse_elems.simps(2))
    qed (use Inr p m eq in \<open>simp add: parse_elems.simps(2)\<close>)
  qed (use m eq in \<open>simp add: parse_elems.simps(2)\<close>)
next
  case (6 n s)
  obtain k where m: "m = Suc k" using "6.prems"(2) by (cases m) auto
  show ?case
  proof (cases "\<exists>t key u v. skip_ws s = CHR 0x22 # t \<and> parse_chars t = Inr (key, u) \<and> skip_ws u = CHR '':'' # v")
    case True
    then obtain t key u v where tuv: "skip_ws s = CHR 0x22 # t" "parse_chars t = Inr (key, u)" "skip_ws u = CHR '':'' # v"
      by blast
    have len: "length v + 2 < length s"
      using skip_ws_Cons [OF tuv(1)] parse_chars_length [OF tuv(2)] skip_ws_Cons [OF tuv(3)] by linarith
    have eq: "parse_value n v = parse_value k v"
      using "6.IH"(1) [OF tuv(1) _ tuv(2) refl tuv(3), of k] "6.prems" m len by simp
    show ?thesis
    proof (cases "parse_value k v")
      case (Inr p)
      obtain j r where p: "p = (j, r)" by force
      show ?thesis
      proof (cases "skip_ws r")
        case (Cons c r')
        have "2 * length r' + 1 < n" "2 * length r' + 1 < k"
          using skip_ws_Cons [OF Cons] parse_length(1) [of k v j r] Inr p len "6.prems" m by simp_all
        note less = this
        have pv: "parse_value n v = Inr (j, r)" using eq Inr p by simp
        have "c = CHR '','' \<Longrightarrow> parse_members n r' = parse_members k r'"
          by (rule "6.IH"(2) [OF tuv(1) _ tuv(2) refl tuv(3) _ pv refl Cons]) (use less in simp_all)
        then show ?thesis using Inr p Cons m eq tuv by (simp add: parse_members.simps(2))
      qed (use Inr p m eq tuv in \<open>simp add: parse_members.simps(2)\<close>)
    qed (use m eq tuv in \<open>simp add: parse_members.simps(2)\<close>)
  next
    case False
    then show ?thesis
      by (auto simp: m parse_members.simps(2) split: list.split sum.split)
  qed
qed simp_all

section \<open>Reading back what was printed\<close>

text \<open>A value whose number literals are numbers.\<close>

primrec json_ok :: "json \<Rightarrow> bool" where
  "json_ok JNull = True"
| "json_ok (JBool b) = True"
| "json_ok (JNum lit) = (number_ok lit \<and> list_all num_char lit)"
| "json_ok (JStr s) = True"
| "json_ok (JArr js) = list_all id (map json_ok js)"
| "json_ok (JObj kvs) = list_all (\<lambda>kv. snd kv) (map (map_prod id json_ok) kvs)"

lemma hex_digit_cases: "n < 16 \<Longrightarrow> hex_digit n \<noteq> CHR 0x22 \<and> hex_digit n \<noteq> CHR 0x5C"
proof -
  have "\<forall>n \<in> set [0..<16]. hex_digit n \<noteq> CHR 0x22 \<and> hex_digit n \<noteq> CHR 0x5C"
    by (simp add: upt_rec hex_digit_def)
  then show "n < 16 \<Longrightarrow> ?thesis" by simp
qed

lemma hex4_escape:
  assumes "n < 256"
  shows "hex4 (CHR ''0'') (CHR ''0'') (hex_digit (n div 16)) (hex_digit (n mod 16)) = Some n"
proof -
  have z: "from_hex_char (CHR ''0'') = Some 0" by (simp add: from_hex_char_def)
  have "n div 16 < 16" using assms by simp
  then show ?thesis
    by (simp add: hex4_def z from_hex_hex_digit codec_simps)
qed

lemma parse_chars_escape:
  assumes "(of_char c :: nat) < 128"
  shows "parse_chars (json_escape c @ r) = prepend [c] (parse_chars r)"
proof -
  let ?n = "of_char c :: nat"
  have c: "c = char_of ?n" by simp
  have n: "?n < 256" using nat_of_char_less_256 by simp
  consider (quote) "c = CHR 0x22 \<or> c = CHR 0x5C" | (nl) "?n = 10" | (cr) "?n = 13" | (tab) "?n = 9"
    | (hex) "\<not> (c = CHR 0x22 \<or> c = CHR 0x5C)" "?n \<noteq> 10" "?n \<noteq> 13" "?n \<noteq> 9"
        "?n < 32 \<or> c = CHR ''<'' \<or> c = CHR ''>'' \<or> c = CHR ''&''"
    | (plain) "\<not> (c = CHR 0x22 \<or> c = CHR 0x5C)" "\<not> ?n < 32" "\<not> (c = CHR ''<'' \<or> c = CHR ''>'' \<or> c = CHR ''&'')"
    by argo
  then show ?thesis
  proof cases
    case quote
    then show ?thesis by (subst parse_chars.simps) (auto simp: json_escape_def simple_escape_def)
  next
    case nl
    then have "?n = of_char (CHR 0x0A)" by simp
    then have "c = CHR 0x0A" by (simp only: of_char_eq_iff)
    then show ?thesis by (subst parse_chars.simps) (simp add: json_escape_def simple_escape_def)
  next
    case cr
    then have "?n = of_char (CHR 0x0D)" by simp
    then have "c = CHR 0x0D" by (simp only: of_char_eq_iff)
    then show ?thesis by (subst parse_chars.simps) (simp add: json_escape_def simple_escape_def)
  next
    case tab
    then have "?n = of_char (CHR 0x09)" by simp
    then have "c = CHR 0x09" by (simp only: of_char_eq_iff)
    then show ?thesis by (subst parse_chars.simps) (simp add: json_escape_def simple_escape_def)
  next
    case hex
    then have "?n < 128" by auto
    moreover have "json_escape c = [CHR 0x5C, CHR ''u'', CHR ''0'', CHR ''0'', hex_digit (?n div 16), hex_digit (?n mod 16)]"
      using hex unfolding json_escape_def Let_def by (simp only: if_False if_True)
    ultimately show ?thesis using hex4_escape [OF n]
      by (subst parse_chars.simps) (simp add: utf8_def)
  next
    case plain
    then have "json_escape c = [c]" by (auto simp: json_escape_def Let_def)
    with plain rune_size_ascii [OF assms, of r] show ?thesis
      by (subst parse_chars.simps) (simp add: Let_def)
  qed
qed

lemma hex4_separators:
  "hex4 (CHR ''2'') (CHR ''0'') (CHR ''2'') (CHR ''8'') = Some 8232"
  "hex4 (CHR ''2'') (CHR ''0'') (CHR ''2'') (CHR ''9'') = Some 8233"
  "hex4 (CHR ''f'') (CHR ''f'') (CHR ''f'') (CHR ''d'') = Some 65533"
  by (simp_all add: hex4_def from_hex_char_def)

lemma parse_chars_rune:
  assumes "rune_size s = k" and "1 < k"
  shows "parse_chars (escape_rune (take k s) @ r) = prepend (take k s) (parse_chars r)"
proof (cases "take k s = utf8 8232 \<or> take k s = utf8 8233")
  case True
  moreover have "utf8 8232 \<noteq> utf8 8233" by (simp add: utf8_def char_of_eq_iff)
  ultimately show ?thesis
    by (subst parse_chars.simps) (auto simp: escape_rune_def hex4_separators)
next
  case False
  obtain c u where s: "s = c # u" using assms by (cases s) simp_all
  obtain m where k: "k = Suc m" using assms(2) by (cases k) simp_all
  have le: "m \<le> length u" using rune_size_le [of s] assms(1) s k by simp
  have run: "rune_size (c # take m u @ r) = k" using rune_size_take [OF assms(1), of r] assms(2) s k by simp
  have "128 \<le> (of_char c :: nat)" using rune_bytes_high [OF assms, of c] s k by simp
  then have c: "c \<noteq> CHR 0x22" "c \<noteq> CHR 0x5C" "\<not> (of_char c :: nat) < 32" by auto
  from False have "escape_rune (take k s) = c # take m u" using s k by (simp add: escape_rune_def)
  with c run k le s show ?thesis
    by (subst parse_chars.simps) (simp add: Let_def)
qed

lemma parse_chars_printed: "parse_chars (escape_string s @ CHR 0x22 # r) = Inr (to_valid_utf8 s, r)"
proof (induction s rule: escape_string.induct)
  case 1
  show ?case by (subst parse_chars.simps) simp
next
  case (2 c s)
  note unfold = Let_def escape_string.simps(2) to_valid_utf8.simps(2)
  consider (bad) "rune_size (c # s) = 0" | (one) "rune_size (c # s) = 1" | (more) "1 < rune_size (c # s)" by linarith
  then show ?case
  proof cases
    case bad
    then have "escape_string (c # s) @ CHR 0x22 # r = CHR 0x5C # ''ufffd'' @ escape_string s @ CHR 0x22 # r"
      by (simp add: unfold)
    moreover have "parse_chars (CHR 0x5C # ''ufffd'' @ t) = prepend replacement (parse_chars t)" for t
      by (subst parse_chars.simps) (simp add: hex4_separators utf8_replacement)
    ultimately show ?thesis using bad "2.IH"(1) [OF refl bad] by (simp add: prepend_def unfold)
  next
    case one
    then show ?thesis using "2.IH"(2) [OF refl] parse_chars_escape [OF rune_size_one [OF one]]
      by (simp add: prepend_def unfold)
  next
    case more
    then have "rune_size (c # s) \<noteq> 0" "rune_size (c # s) \<noteq> 1" by simp_all
    note IH = "2.IH"(3) [OF refl this]
    from more have "escape_string (c # s) @ CHR 0x22 # r = escape_rune (take (rune_size (c # s)) (c # s))
        @ escape_string (drop (rune_size (c # s) - 1) s) @ CHR 0x22 # r"
      by (simp add: unfold)
    with more IH parse_chars_rune [OF refl more] show ?thesis
      by (simp add: prepend_def unfold)
  qed
qed

text \<open>A value with its strings as they are read back.\<close>

primrec valid_json :: "json \<Rightarrow> json" where
  "valid_json JNull = JNull"
| "valid_json (JBool b) = JBool b"
| "valid_json (JNum lit) = JNum lit"
| "valid_json (JStr s) = JStr (to_valid_utf8 s)"
| "valid_json (JArr js) = JArr (map valid_json js)"
| "valid_json (JObj kvs) = JObj (map (map_prod to_valid_utf8 valid_json) kvs)"

abbreviation valid_member :: "string \<times> json \<Rightarrow> string \<times> json" where
  "valid_member \<equiv> map_prod to_valid_utf8 valid_json"

lemma skip_ws_id: "s = [] \<or> \<not> is_space (hd s) \<Longrightarrow> skip_ws s = s"
  by (cases s) (simp_all add: skip_ws_def)

lemma skip_ws_char: "\<not> is_space c \<Longrightarrow> skip_ws (c # s) = c # s"
  by (simp add: skip_ws_def)

lemma not_space [simp]:
  "\<not> is_space (CHR ''['')" "\<not> is_space (CHR '']'')" "\<not> is_space (CHR ''{'')" "\<not> is_space (CHR ''}'')"
  "\<not> is_space (CHR 0x22)" "\<not> is_space (CHR '','')" "\<not> is_space (CHR '':'')"
  "\<not> is_space (CHR ''n'')" "\<not> is_space (CHR ''t'')" "\<not> is_space (CHR ''f'')"
  by (simp_all add: is_space_def)

lemma not_num_char [simp]:
  "\<not> num_char (CHR ''['')" "\<not> num_char (CHR '']'')" "\<not> num_char (CHR ''{'')" "\<not> num_char (CHR ''}'')"
  "\<not> num_char (CHR 0x22)" "\<not> num_char (CHR '','')" "\<not> num_char (CHR ''n'')" "\<not> num_char (CHR ''t'')"
  "\<not> num_char (CHR ''f'')"
  by (simp_all add: num_char_def is_digit_def digit_value_def)

lemma num_char_not_space: "num_char c \<Longrightarrow> \<not> is_space c"
  by (auto simp: num_char_def is_space_def is_digit_def digit_value_def Let_def split: if_splits)

text \<open>What a printed value begins with.\<close>

lemma print_json_first:
  assumes "json_ok j"
  obtains c t where "print_json j = c # t" "\<not> is_space c" "c \<noteq> CHR '']''" "c \<noteq> CHR ''}''"
proof (cases j)
  case (JNum lit)
  with assms obtain c t where "lit = c # t" "num_char c" by (cases lit) (auto simp: number_ok_not_Nil)
  with JNum show thesis by (intro that [of c t]) (auto simp: num_char_not_space)
next
  case (JBool b)
  then show thesis by (cases b) (auto intro: that)
qed (auto simp: print_string_def intro: that)

lemma parse_number:
  assumes "number_ok lit" "list_all num_char lit" "r = [] \<or> \<not> num_char (hd r)"
  shows "parse_value (Suc n) (lit @ r) = Inr (JNum lit, r)"
proof -
  obtain c t where lit: "lit = c # t" using assms(1) by (cases lit) (simp_all add: number_ok_not_Nil)
  have c: "num_char c" using assms(2) lit by simp
  have "takeWhile num_char (lit @ r) = lit" "dropWhile num_char (lit @ r) = r"
    using assms(2,3) by (cases r; simp add: takeWhile_append2 list_all_iff)+
  moreover have "c \<noteq> CHR ''[''" "c \<noteq> CHR ''{''" "c \<noteq> CHR 0x22" "c \<noteq> CHR ''n''" "c \<noteq> CHR ''t''" "c \<noteq> CHR ''f''"
    using c by auto
  moreover have "skip_ws (c # t @ r) = c # t @ r" by (rule skip_ws_char) (rule num_char_not_space [OF c])
  ultimately show ?thesis using assms(1) lit by (simp add: parse_value.simps(2))
qed

lemma parse_elems_printed:
  assumes "js \<noteq> []" "2 * length (join_comma (map print_json js)) < n"
    and "\<And>j n r. j \<in> set js \<Longrightarrow> 2 * length (print_json j) \<le> n \<Longrightarrow> r = [] \<or> \<not> num_char (hd r)
           \<Longrightarrow> parse_value n (print_json j @ r) = Inr (valid_json j, r)"
  shows "parse_elems n (join_comma (map print_json js) @ CHR '']'' # r) = Inr (map valid_json js, r)"
  using assms
proof (induction js arbitrary: n)
  case (Cons j js)
  obtain k where n: "n = Suc k" using Cons.prems(2) by (cases n) auto
  show ?case
  proof (cases js)
    case Nil
    with Cons.prems(2,3) n show ?thesis by (simp add: parse_elems.simps(2) skip_ws_char)
  next
    case (Cons j' js')
    let ?rest = "join_comma (map print_json js)"
    have split: "join_comma (map print_json (j # js)) = print_json j @ CHR '','' # ?rest"
      using Cons by simp
    have "parse_elems k (?rest @ CHR '']'' # r) = Inr (map valid_json js, r)"
      using Cons.prems(2) n Cons by (intro Cons.IH Cons.prems(3)) (auto simp: split)
    moreover have "parse_value k (print_json j @ CHR '','' # ?rest @ CHR '']'' # r)
        = Inr (valid_json j, CHR '','' # ?rest @ CHR '']'' # r)"
      using Cons.prems(2) n arg_cong [OF split, of length] by (intro Cons.prems(3)) simp_all
    moreover have "js \<noteq> []" using Cons by simp
    ultimately show ?thesis by (simp add: n join_comma_Cons parse_elems.simps(2) skip_ws_char)
  qed
qed simp

abbreviation print_member :: "string \<times> json \<Rightarrow> string" where
  "print_member kv \<equiv> print_string (fst kv) @ CHR '':'' # print_json (snd kv)"

lemma parse_members_printed:
  assumes "kvs \<noteq> []" "2 * length (join_comma (map print_member kvs)) < n"
    and "\<And>j n r. j \<in> snd ` set kvs \<Longrightarrow> 2 * length (print_json j) \<le> n \<Longrightarrow> r = [] \<or> \<not> num_char (hd r)
           \<Longrightarrow> parse_value n (print_json j @ r) = Inr (valid_json j, r)"
  shows "parse_members n (join_comma (map print_member kvs) @ CHR ''}'' # r) = Inr (map valid_member kvs, r)"
  using assms
proof (induction kvs arbitrary: n)
  case (Cons kv kvs)
  obtain k where n: "n = Suc k" using Cons.prems(2) by (cases n) auto
  obtain key j where kv: "kv = (key, j)" by force
  have val: "parse_value k (print_json j @ u) = Inr (valid_json j, u)"
    if "2 * length (print_json j) \<le> k" "u = [] \<or> \<not> num_char (hd u)" for u
    using that kv by (intro Cons.prems(3)) auto
  have key: "parse_chars (escape_string key @ CHR 0x22 # u) = Inr (to_valid_utf8 key, u)" for u
    by (rule parse_chars_printed)
  show ?case
  proof (cases kvs)
    case Nil
    have "2 * length (print_json j) \<le> k" using Cons.prems(2) n kv Nil by (simp add: print_string_def)
    then show ?thesis using val [of "CHR ''}'' # r"] Nil kv n
      by (simp add: parse_members.simps(2) skip_ws_char print_string_def key)
  next
    case (Cons kv' kvs')
    let ?rest = "join_comma (map print_member kvs)"
    have split: "join_comma (map print_member (kv # kvs)) = print_member kv @ CHR '','' # ?rest"
      using Cons by simp
    have "parse_members k (?rest @ CHR ''}'' # r) = Inr (map valid_member kvs, r)"
      using Cons.prems(2) n Cons by (intro Cons.IH Cons.prems(3)) (auto simp: split)
    moreover have "2 * length (print_json j) \<le> k" using Cons.prems(2) n kv arg_cong [OF split, of length] by simp
    moreover have "kvs \<noteq> []" using Cons by simp
    ultimately show ?thesis using val [of "CHR '','' # ?rest @ CHR ''}'' # r"] kv n
      by (simp add: join_comma_Cons parse_members.simps(2) skip_ws_char print_string_def key)
  qed
qed simp

lemma parse_printed:
  "json_ok j \<Longrightarrow> 2 * length (print_json j) \<le> n \<Longrightarrow> r = [] \<or> \<not> num_char (hd r)
     \<Longrightarrow> parse_value n (print_json j @ r) = Inr (valid_json j, r)"
proof (induction j arbitrary: n r)
  case (JArr js)
  obtain k where n: "n = Suc k" using JArr.prems(2) by (cases n) auto
  show ?case
  proof (cases js)
    case Nil
    then show ?thesis by (simp add: n parse_value.simps(2) skip_ws_char next_is_def)
  next
    case (Cons j js')
    have el: "parse_elems k (join_comma (map print_json js) @ CHR '']'' # r) = Inr (map valid_json js, r)"
      using JArr.prems(1,2) Cons n JArr.IH by (intro parse_elems_printed) (auto simp: list_all_iff)
    have "json_ok j" using JArr.prems(1) Cons by simp
    then obtain c t where "print_json j = c # t" "\<not> is_space c" "c \<noteq> CHR '']''"
      by (rule print_json_first)
    then have "\<not> next_is (CHR '']'') (join_comma (map print_json js) @ CHR '']'' # r)"
      using Cons by (cases js') (simp_all add: next_is_def skip_ws_char)
    with el show ?thesis by (simp add: n parse_value.simps(2) skip_ws_char)
  qed
next
  case (JObj kvs)
  obtain k where n: "n = Suc k" using JObj.prems(2) by (cases n) auto
  show ?case
  proof (cases kvs)
    case Nil
    then show ?thesis by (simp add: n parse_value.simps(2) skip_ws_char next_is_def)
  next
    case (Cons kv kvs')
    have ok: "json_ok j" if "j \<in> snd ` set kvs" for j
      using JObj.prems(1) that by (auto simp: list_all_iff)
    have el: "parse_members k (join_comma (map print_member kvs) @ CHR ''}'' # r) = Inr (map valid_member kvs, r)"
    proof (rule parse_members_printed)
      show "parse_value n (print_json j @ r) = Inr (valid_json j, r)"
        if "j \<in> snd ` set kvs" "2 * length (print_json j) \<le> n" "r = [] \<or> \<not> num_char (hd r)" for j n r
      proof -
        from that(1) obtain kv where "kv \<in> set kvs" "j = snd kv" by auto
        then show ?thesis using JObj.IH [of kv j n r] ok that by (auto intro: snds.intros)
      qed
    qed (use JObj.prems(2) Cons n in auto)
    have "\<not> next_is (CHR ''}'') (join_comma (map print_member kvs) @ CHR ''}'' # r)"
      using Cons by (cases kvs') (simp_all add: next_is_def skip_ws_char print_string_def)
    with el show ?thesis by (simp add: n parse_value.simps(2) skip_ws_char)
  qed
next
  case (JNum lit)
  then obtain k where n: "n = Suc k" by (cases n) (auto simp: number_ok_not_Nil)
  with JNum parse_number show ?case by simp
next
  case (JStr s)
  then obtain k where n: "n = Suc k" by (cases n) (auto simp: print_string_def)
  then show ?case
    by (simp add: parse_value.simps(2) skip_ws_char print_string_def parse_chars_printed)
next
  case JNull
  then obtain k where n: "n = Suc k" by (cases n) auto
  then show ?case by (simp add: parse_value.simps(2) skip_ws_char)
next
  case (JBool b)
  then obtain k where n: "n = Suc k" by (cases n) (auto split: if_splits)
  then show ?case by (simp add: parse_value.simps(2) skip_ws_char)
qed

theorem parse_print_json: "json_ok j \<Longrightarrow> parse_json (print_json j) = Inr (valid_json j)"
  using parse_printed [of j "2 * length (print_json j) + 1" "[]"] by (simp add: parse_json_def skip_ws_def)

text \<open>What the parser accepts is such a value.\<close>

lemma parse_result_ok:
  "parse_value n s = Inr (j, r) \<Longrightarrow> json_ok j"
  "parse_elems n s = Inr (js, r) \<Longrightarrow> \<forall>j \<in> set js. json_ok j"
  "parse_members n s = Inr (kvs, r) \<Longrightarrow> \<forall>kv \<in> set kvs. json_ok (snd kv)"
proof (induction n s and n s and n s arbitrary: j r and js r and kvs r
    rule: parse_value_parse_elems_parse_members.induct)
  case (2 n s)
  have lit: "list_all num_char (takeWhile num_char u)" for u by (auto simp: list_all_iff dest: set_takeWhileD)
  show ?case
  proof (cases "skip_ws s")
    case Nil
    with "2.prems" show ?thesis by (simp add: parse_value.simps(2))
  next
    case (Cons c t)
    show ?thesis
      using "2.prems" Cons lit [of "c # t"] "2.IH" [OF Cons]
      by (auto simp: parse_value.simps(2) list_all_iff split: if_splits sum.splits)
  qed
next
  case (4 n s)
  then show ?case
    by (auto simp: parse_elems.simps(2) split: if_splits sum.splits list.splits)
next
  case (6 n s)
  then show ?case
    by (auto simp: parse_members.simps(2) split: if_splits sum.splits list.splits) fastforce+
qed simp_all

lemma parse_json_ok: "parse_json s = Inr j \<Longrightarrow> json_ok j"
  by (auto simp: parse_json_def split: sum.splits prod.splits if_splits dest: parse_result_ok(1))

end
