(* ===== verification/Rest_Common.thy ===== *)
theory Rest_Common
  imports Go_Json "HOL-Library.Char_ord" "HOL-Library.List_Lexorder"
begin

text \<open>
  The messages of the REST interface between observer and signer:
  \<open>rest/http/common/common.go\<close>, \<open>rest/http/restful/error.go\<close>,
  \<open>rest/http/restful/resp_utils.go\<close> and \<open>rest/utils/utils.go\<close>. A
  \<open>map[string]interface{}\<close> is a list of members in the order they were written; what
  \<open>json.Marshal\<close> makes of it is the sorted object.
\<close>

section \<open>The HTTP clients\<close>

text \<open>
  How both HTTP clients are set up, \<open>ObCli\<close> of the observer and \<open>RestClient\<close>; a request that
  takes longer than the time limit fails like any other.
\<close>

record http_settings =
  MaxIdleConnsPerHost :: nat
  DisableKeepAlives :: bool
  IdleConnTimeout :: u64
  ResponseHeaderTimeout :: u64
  InsecureSkipVerify :: bool
  Timeout :: u64

definition client_settings :: http_settings where
  "client_settings = \<lparr>MaxIdleConnsPerHost = 5, DisableKeepAlives = False, IdleConnTimeout = second * 300,
     ResponseHeaderTimeout = second * 300, InsecureSkipVerify = True, Timeout = second * 300\<rparr>"

section \<open>Decoding into structs\<close>

text \<open>
  A member goes to the field its key equals up to case; beside the ASCII letters, the long s
  (U+017F) folds to \<open>s\<close> and the Kelvin sign (U+212A) to \<open>k\<close>.
\<close>

definition lower_char :: "char \<Rightarrow> char" where
  "lower_char c = (let n = of_char c :: nat in if 65 \<le> n \<and> n \<le> 90 then char_of (n + 32) else c)"

fun fold_key :: "string \<Rightarrow> string" where
  "fold_key [] = []"
| "fold_key (c # s) =
     (if c = CHR 0xC5 \<and> s \<noteq> [] \<and> hd s = CHR 0xBF then CHR ''s'' # fold_key (tl s)
      else if c = CHR 0xE2 \<and> take 2 s = [CHR 0x84, CHR 0xAA] then CHR ''k'' # fold_key (drop 2 s)
      else lower_char c # fold_key s)"

text \<open>
  A member of the wrong type is left out and reported, but the members after it are still decoded:
  the first such error is the result of \<open>Unmarshal\<close>.
\<close>

definition keep_error :: "go_error option \<Rightarrow> go_error \<Rightarrow> go_error option" where
  "keep_error err e = (case err of None \<Rightarrow> Some e | Some e' \<Rightarrow> Some e')"

definition type_error :: go_error where
  "type_error = JsonError ''cannot unmarshal into Go struct field''"

definition decode_string :: "json \<Rightarrow> string \<Rightarrow> go_error + string" where
  "decode_string j old = (case j of JStr s \<Rightarrow> Inr s | JNull \<Rightarrow> Inr old | _ \<Rightarrow> Inl type_error)"

definition decode_uint32 :: "json \<Rightarrow> u32 \<Rightarrow> go_error + u32" where
  "decode_uint32 j old =
     (case j of JNum lit \<Rightarrow> (case parse_uint 32 lit of Inl e \<Rightarrow> Inl type_error | Inr n \<Rightarrow> Inr (ucast n))
      | JNull \<Rightarrow> Inr old | _ \<Rightarrow> Inl type_error)"

text \<open>
  A number for an \<open>interface{}\<close> becomes a \<open>float64\<close> and is an error when it is beyond
  its range: when it is at least half a unit above the largest finite value.
\<close>

definition digits_value :: "string \<Rightarrow> nat" where
  "digits_value s = foldl (\<lambda>n c. 10 * n + (case digit_value c of None \<Rightarrow> 0 | Some d \<Rightarrow> d)) 0 s"

definition literal_size :: "string \<Rightarrow> rat" where
  "literal_size lit =
     (let t = drop_sign ''-'' lit; i = takeWhile is_digit t; u = dropWhile is_digit t;
          f = (case u of [] \<Rightarrow> [] | c # r \<Rightarrow> if c = CHR ''.'' then takeWhile is_digit r else []);
          x = (case dropWhile (\<lambda>c. c \<noteq> CHR ''e'' \<and> c \<noteq> CHR ''E'') u of [] \<Rightarrow> [] | c # r \<Rightarrow> r);
          m = of_nat (digits_value (i @ f)) / 10 ^ length f;
          e = digits_value (drop_sign ''+-'' x)
      in if x \<noteq> [] \<and> hd x = CHR ''-'' then m / 10 ^ e else m * 10 ^ e)"

definition float_range :: "string \<Rightarrow> bool" where
  "float_range lit \<longleftrightarrow> literal_size lit < 2 ^ 1024 - 2 ^ 970"

primrec iface_ok :: "json \<Rightarrow> bool" where
  "iface_ok JNull = True"
| "iface_ok (JBool b) = True"
| "iface_ok (JNum lit) = float_range lit"
| "iface_ok (JStr s) = True"
| "iface_ok (JArr js) = list_all id (map iface_ok js)"
| "iface_ok (JObj kvs) = list_all (\<lambda>kv. snd kv) (map (map_prod id iface_ok) kvs)"

section \<open>Requests and responses\<close>

definition SIGNTX :: string where
  "SIGNTX = ''/api/v1/signtx''"

definition ACTION_SIGNTX :: string where
  "ACTION_SIGNTX = ''signtx''"

record response =
  Action :: string
  Desc :: string
  Error :: u32
  Result :: json

record sign_item_req =
  Raw :: string

definition SUCCESS :: u32 where "SUCCESS = 0"
definition FAILED :: u32 where "FAILED = 1"
definition INVALID_METHOD :: u32 where "INVALID_METHOD = 42001"
definition INVALID_PARAMS :: u32 where "INVALID_PARAMS = 42002"
definition ILLEGAL_DATAFORMAT :: u32 where "ILLEGAL_DATAFORMAT = 42003"
definition INTERNAL_ERROR :: u32 where "INTERNAL_ERROR = 42004"

definition ErrMap :: "u32 \<Rightarrow> string option" where
  "ErrMap = [SUCCESS \<mapsto> ''SUCCESS'', FAILED \<mapsto> ''FAILED'', INVALID_METHOD \<mapsto> ''INVALID METHOD'',
     INVALID_PARAMS \<mapsto> ''INVALID PARAMS'', ILLEGAL_DATAFORMAT \<mapsto> ''ILLEGAL DATAFORMAT'',
     INTERNAL_ERROR \<mapsto> ''INTERNAL_ERROR'']"

text \<open>\<open>json.Marshal\<close> of the two structs and of a response map: the keys are in this order.\<close>

definition marshal_sign_item_req :: "sign_item_req \<Rightarrow> string" where
  "marshal_sign_item_req req = print_json (JObj [(''raw'', JStr (Raw req))])"

definition response_json :: "response \<Rightarrow> json" where
  "response_json resp =
     JObj [(''action'', JStr (Action resp)), (''desc'', JStr (Desc resp)),
           (''error'', JNum (format_nat (unat (Error resp)))), (''result'', Result resp)]"

definition marshal_response :: "response \<Rightarrow> string" where
  "marshal_response resp = print_json (response_json resp)"

text \<open>\<open>json.Unmarshal(data, &resp)\<close>, one member after the other.\<close>

definition decode_member :: "string \<times> json \<Rightarrow> response \<times> go_error option \<Rightarrow> response \<times> go_error option" where
  "decode_member kv st =
     (let (resp, err) = st; (k, j) = kv; name = fold_key k in
      if name = ''action'' then
        (case decode_string j (Action resp) of Inl e \<Rightarrow> (resp, keep_error err e) | Inr s \<Rightarrow> (resp\<lparr>Action := s\<rparr>, err))
      else if name = ''desc'' then
        (case decode_string j (Desc resp) of Inl e \<Rightarrow> (resp, keep_error err e) | Inr s \<Rightarrow> (resp\<lparr>Desc := s\<rparr>, err))
      else if name = ''error'' then
        (case decode_uint32 j (Error resp) of Inl e \<Rightarrow> (resp, keep_error err e) | Inr n \<Rightarrow> (resp\<lparr>Error := n\<rparr>, err))
      else if name = ''result'' then
        (if iface_ok j then (resp\<lparr>Result := j\<rparr>, err) else (resp, keep_error err type_error))
      else (resp, err))"

definition zero_response :: response where
  "zero_response = \<lparr>Action = [], Desc = [], Error = 0, Result = JNull\<rparr>"

definition unmarshal_response :: "string \<Rightarrow> go_error + response" where
  "unmarshal_response data =
     (case parse_json data of Inl e \<Rightarrow> Inl e
      | Inr (JObj kvs) \<Rightarrow> (case fold decode_member kvs (zero_response, None) of
          (resp, None) \<Rightarrow> Inr resp | (resp, Some e) \<Rightarrow> Inl e)
      | Inr JNull \<Rightarrow> Inr zero_response
      | Inr _ \<Rightarrow> Inl type_error)"

text \<open>
  The members of the object that \<open>json.Marshal\<close> writes for a map, sorted by their keys, as they are
  read back.
\<close>

definition marshal_map :: "(string \<times> json) list \<Rightarrow> (string \<times> json) list" where
  "marshal_map params =
     map (\<lambda>k. (to_valid_utf8 k, valid_json (the (map_of (rev params) k)))) (sort (remdups (map fst params)))"

definition decode_raw :: "string \<times> json \<Rightarrow> sign_item_req \<times> go_error option \<Rightarrow> sign_item_req \<times> go_error option" where
  "decode_raw kv st =
     (let (req, err) = st; (k, j) = kv in
      if fold_key k = ''raw'' then
        (case decode_string j (Raw req) of Inl e \<Rightarrow> (req, keep_error err e) | Inr s \<Rightarrow> (req\<lparr>Raw := s\<rparr>, err))
      else (req, err))"

text \<open>\<open>ParseParams\<close>: what \<open>Marshal\<close> writes is read back by \<open>Unmarshal\<close>.\<close>

definition parse_params :: "(string \<times> json) list \<Rightarrow> go_error + sign_item_req" where
  "parse_params params =
     (case fold decode_raw (marshal_map params) (\<lparr>Raw = []\<rparr>, None) of
        (req, None) \<Rightarrow> Inr req
      | (req, Some e) \<Rightarrow> Inl (Errorf ''ParseParams: unmarshal req failed, err: %s'' e))"

definition refactor_resp :: "response \<Rightarrow> u32 \<Rightarrow> response" where
  "refactor_resp resp errCode = resp\<lparr>Error := errCode\<rparr>"

definition pack_response :: "u32 \<Rightarrow> response" where
  "pack_response errCode = \<lparr>Action = [], Desc = [], Error = errCode, Result = JStr []\<rparr>"

section \<open>A response is read back by the client\<close>

lemma format_nat_number:
  "format_nat n \<noteq> [] \<and> list_all is_digit (format_nat n) \<and> (hd (format_nat n) = CHR ''0'' \<longrightarrow> length (format_nat n) = 1)"
proof (induction n rule: format_nat.induct)
  case (1 n)
  have digit: "is_digit (char_of (48 + m))" if "m < 10" for m :: nat
    using that by (simp add: is_digit_def digit_value_def Let_def)
  show ?case
  proof (cases "n < 10")
    case True
    then show ?thesis by (simp add: format_nat.simps [of n] digit)
  next
    case False
    then have IH: "format_nat (n div 10) \<noteq> []" "list_all is_digit (format_nat (n div 10))"
      "hd (format_nat (n div 10)) = CHR ''0'' \<longrightarrow> length (format_nat (n div 10)) = 1" using "1.IH" by blast+
    have "hd (format_nat (n div 10)) \<noteq> CHR ''0''"
    proof
      assume zero: "hd (format_nat (n div 10)) = CHR ''0''"
      then have one: "length (format_nat (n div 10)) = 1" using IH by blast
      have "n div 10 < 10"
      proof (rule ccontr)
        assume big: "\<not> n div 10 < 10"
        have "format_nat (n div 10 div 10) \<noteq> []" by (subst format_nat.simps) simp
        with one show False by (subst (asm) format_nat.simps) (simp add: big)
      qed
      then have "format_nat (n div 10) = [char_of (48 + n div 10)]" by (simp add: format_nat.simps)
      with zero have "of_char (char_of (48 + n div 10) :: char) = (of_char (CHR ''0'') :: nat)" by simp
      with \<open>n div 10 < 10\<close> False show False by simp
    qed
    with False IH digit show ?thesis by (simp add: format_nat.simps [of n])
  qed
qed

lemma number_ok_format: "number_ok (format_nat n)" "list_all num_char (format_nat n)"
proof -
  have digits: "list_all is_digit (format_nat n)" and ne: "format_nat n \<noteq> []"
    using format_nat_number [of n] by simp_all
  then have "hd (format_nat n) \<noteq> CHR ''-''"
    by (cases "format_nat n") (auto simp: is_digit_def digit_value_def)
  then have "drop_sign ''-'' (format_nat n) = format_nat n"
    using ne by (cases "format_nat n") (auto simp: drop_sign_def)
  moreover have "takeWhile is_digit (format_nat n) = format_nat n" "dropWhile is_digit (format_nat n) = []"
    using digits by (simp_all add: list_all_iff)
  ultimately have "number_ok (format_nat n) \<longleftrightarrow> format_nat n \<noteq> []
      \<and> (hd (format_nat n) = CHR ''0'' \<longrightarrow> length (format_nat n) = 1) \<and> fraction_ok []"
    unfolding number_ok_def Let_def by metis
  then show "number_ok (format_nat n)"
    using format_nat_number [of n] by (simp add: fraction_ok_def)
  show "list_all num_char (format_nat n)"
    using digits by (auto simp: list_all_iff num_char_def)
qed

lemma unat_ucast_u64: "unat (ucast (e :: u32) :: u64) = unat e"
proof -
  have "unat e < 2 ^ 64" using unat_bounds(2) [of e] by (rule less_trans) simp
  then show ?thesis by (simp add: unsigned_ucast_eq take_bit_nat_eq_self)
qed

lemma ucast_u64_u32: "ucast (ucast (e :: u32) :: u64) = e"
proof -
  have "unat (ucast (ucast e :: u64) :: u32) = unat e"
    by (simp add: unsigned_ucast_eq [of "ucast e :: u64"] unat_ucast_u64 take_bit_nat_eq_self)
  then show ?thesis by (simp add: word_unat_eq_iff)
qed

lemma parse_uint32_format: "parse_uint 32 (format_nat (unat (e :: u32))) = Inr (ucast e)"
  using parse_uint_format [of 32 "ucast e"] unat_bounds(2) [of e]
  by (simp add: format_uint_def unat_ucast_u64)

lemma fold_key_ascii:
  "fold_key ''action'' = ''action''" "fold_key ''desc'' = ''desc''" "fold_key ''error'' = ''error''"
  "fold_key ''result'' = ''result''" "fold_key ''raw'' = ''raw''" "fold_key ''host'' = ''host''"
  by (simp_all add: lower_char_def)

lemma decode_member_simps:
  "decode_member (''action'', JStr s) (resp, err) = (resp\<lparr>Action := s\<rparr>, err)"
  "decode_member (''desc'', JStr s) (resp, err) = (resp\<lparr>Desc := s\<rparr>, err)"
  "decode_member (''error'', JNum (format_nat (unat n))) (resp, err) = (resp\<lparr>Error := n\<rparr>, err)"
  "iface_ok j \<Longrightarrow> decode_member (''result'', j) (resp, err) = (resp\<lparr>Result := j\<rparr>, err)"
  unfolding decode_member_def Let_def prod.case fold_key_ascii
  by (simp_all add: decode_string_def decode_uint32_def parse_uint32_format ucast_u64_u32)

text \<open>A response as it is read back.\<close>

definition valid_response :: "response \<Rightarrow> response" where
  "valid_response resp =
     resp\<lparr>Action := to_valid_utf8 (Action resp), Desc := to_valid_utf8 (Desc resp), Result := valid_json (Result resp)\<rparr>"

lemma iface_ok_valid [simp]: "iface_ok (valid_json j) = iface_ok j"
  by (induction j) (auto simp: list_all_iff)

lemma unmarshal_marshal_response:
  assumes "json_ok (Result resp)" "iface_ok (Result resp)"
  shows "unmarshal_response (marshal_response resp) = Inr (valid_response resp)"
proof -
  have "json_ok (response_json resp)" using assms(1) by (simp add: response_json_def number_ok_format)
  then have "parse_json (marshal_response resp) = Inr (valid_json (response_json resp))"
    unfolding marshal_response_def by (rule parse_print_json)
  then show ?thesis using assms(2)
    by (simp add: unmarshal_response_def response_json_def decode_member_simps zero_response_def
        valid_response_def)
qed

lemma parse_sign_item_req:
  "parse_json (marshal_sign_item_req req) = Inr (JObj [(''raw'', JStr (to_valid_utf8 (Raw req)))])"
  unfolding marshal_sign_item_req_def by (subst parse_print_json) simp_all

end
