(* ===== verification/Vendor_Observer.thy ===== *)
theory Vendor_Observer
  imports Poly_Client Rest_Common Vendor_DB_Contract
begin

text \<open>
  \<open>observer/alliaob.go\<close>: the observer walks over the blocks of the Poly chain, hands every
  transaction to sign to the signer (through the channel, or through the REST client \<open>ObCli\<close>
  when there is none) and marks signed transactions done in the database. What it calls outside the
  repository is the record \<open>node\<close>; the world \<open>'w\<close> holds the chain, the network and the
  files.
\<close>

section \<open>Events\<close>

text \<open>Values of type \<open>interface{}\<close>, as the SDK decodes them from JSON.\<close>

datatype iface = INil | IBool bool | IFloat rat | IStr string | IArr "iface list" | IMap "(string \<times> iface) list"

record notify_event =
  ContractAddress :: string
  States :: iface

record contract_event =
  TxHash :: string
  Notify :: "notify_event list"

definition TO_SIGN_TX_KEY :: string where
  "TO_SIGN_TX_KEY = ''makeBtcTx''"

definition SIGNED_TX_KEY :: string where
  "SIGNED_TX_KEY = ''btcTxToRelay''"

text \<open>
  \<open>uint64(f)\<close> cuts the fraction off; for a value outside the range the language leaves the
  result open (\<open>cvt\<close>).
\<close>

definition float_to_u64 :: "(rat \<Rightarrow> u64) \<Rightarrow> rat \<Rightarrow> u64" where
  "float_to_u64 cvt f =
     (let n = (if f < 0 then \<lceil>f\<rceil> else \<lfloor>f\<rfloor>) in if 0 \<le> n \<and> n < 2 ^ 64 then of_int n else cvt f)"

text \<open>The type assertions \<open>states[i].(string)\<close> and \<open>states[i].([]interface{})\<close>.\<close>

definition string_at :: "iface list \<Rightarrow> nat \<Rightarrow> string go" where
  "string_at states i =
     go_bind (index states i) (\<lambda>x. case x of IStr s \<Rightarrow> Ret s | _ \<Rightarrow> Panic TypeAssertion)"

definition array_at :: "iface list \<Rightarrow> nat \<Rightarrow> iface list go" where
  "array_at states i =
     go_bind (index states i) (\<lambda>x. case x of IArr xs \<Rightarrow> Ret xs | _ \<Rightarrow> Panic TypeAssertion)"

fun event_amts :: "(rat \<Rightarrow> u64) \<Rightarrow> iface list \<Rightarrow> u64 list go" where
  "event_amts cvt [] = Ret []"
| "event_amts cvt (IFloat f # vs) =
     go_bind (event_amts cvt vs) (\<lambda>amts. Ret (float_to_u64 cvt f # amts))"
| "event_amts cvt (_ # vs) = Panic TypeAssertion"

text \<open>What a notification asks for; errors in it are logged and it is skipped.\<close>

datatype event_action = Skip | Capture to_sign_item | MarkDone bytes

definition decode_event_tx :: "btcd \<Rightarrow> string \<Rightarrow> go_error + msgtx" where
  "decode_event_tx B s = (case hex_decode s of Inl e \<Rightarrow> Inl e | Inr txb \<Rightarrow> btc_decode B txb)"

definition notify_action :: "btcd \<Rightarrow> (rat \<Rightarrow> u64) \<Rightarrow> string \<Rightarrow> iface \<Rightarrow> event_action go" where
  "notify_action B cvt hashKey st =
     (case st of IArr states \<Rightarrow>
        go_bind (index states 0) (\<lambda>s0.
          if s0 = IStr TO_SIGN_TX_KEY then
            go_bind (string_at states 1) (\<lambda>key.
              if key = hashKey then
                go_bind (string_at states 2) (\<lambda>tx.
                  case decode_event_tx B tx of Inl err \<Rightarrow> Ret Skip
                  | Inr mtx \<Rightarrow> go_bind (array_at states 3) (\<lambda>vs. go_bind (event_amts cvt vs) (\<lambda>amts.
                      Ret (Capture \<lparr>Mtx = mtx, Amts = amts\<rparr>))))
              else Ret Skip)
          else if s0 = IStr SIGNED_TX_KEY then
            go_bind (string_at states 5) (\<lambda>key.
              if key = hashKey then
                go_bind (string_at states 3) (\<lambda>tx.
                  case decode_event_tx B tx of Inl err \<Rightarrow> Ret Skip
                  | Inr mtx \<Rightarrow> Ret (MarkDone (tx_hash B (strip_scripts mtx))))
              else Ret Skip)
          else Ret Skip)
      | _ \<Rightarrow> Ret Skip)"

section \<open>The node, the files and the signer's REST service\<close>

text \<open>
  A \<open>Post\<close> fails, or answers with a body whose reading may fail. A file is named by its
  directory and its name (\<open>path.Join\<close>).
\<close>

record 'w node =
  http_post :: "string \<Rightarrow> string \<Rightarrow> 'w \<Rightarrow> (go_error + (go_error + string)) \<times> 'w"
  current_height :: "'w \<Rightarrow> (go_error + u32) \<times> 'w"
  events_by_block :: "u32 \<Rightarrow> 'w \<Rightarrow> (go_error + contract_event list) \<times> 'w"
  read_file :: "string \<Rightarrow> string \<Rightarrow> 'w \<Rightarrow> go_error + bytes"
  write_file :: "string \<Rightarrow> string \<Rightarrow> bytes \<Rightarrow> 'w \<Rightarrow> go_error option \<times> 'w"

definition send_request :: "'w node \<Rightarrow> string \<Rightarrow> string \<Rightarrow> 'w \<Rightarrow> (go_error + string) \<times> 'w" where
  "send_request N url data w =
     (case http_post N url data w of
        (Inl err, w) \<Rightarrow> (Inl (Errorf (''rest post request:'' @ data @ '' error:%s'') err), w)
      | (Inr (Inl err), w) \<Rightarrow> (Inl (Errorf ''read rest response body error:%s'' err), w)
      | (Inr (Inr body), w) \<Rightarrow> (Inr body, w))"

definition send_to_sign :: "btcd \<Rightarrow> 'w node \<Rightarrow> string \<Rightarrow> to_sign_item \<Rightarrow> 'w \<Rightarrow> go_error option \<times> 'w" where
  "send_to_sign B N addr item w =
     (case serialize_to_sign B item of Inl err \<Rightarrow> (Some err, w)
      | Inr rawItem \<Rightarrow>
     (case send_request N (''http://'' @ addr @ ''/api/v1/signtx'')
             (marshal_sign_item_req \<lparr>Raw = hex_encode rawItem\<rparr>) w of
        (Inl err, w) \<Rightarrow> (Some err, w)
      | (Inr data, w) \<Rightarrow>
     (case unmarshal_response data of
        Inl err \<Rightarrow> (Some (Errorf ''failed to unmarshal resp to json: %v'' err), w)
      | Inr resp \<Rightarrow>
          if Error resp \<noteq> 0 \<or> Desc resp \<noteq> ''SUCCESS''
          then (Some (Text (''response shows failure: '' @ Desc resp)), w) else (None, w))))"

text \<open>The two loops that repeat a call after any error.\<close>

definition retry_send :: "('w \<Rightarrow> go_error option \<times> 'w) \<Rightarrow> 'w \<Rightarrow> (go_error option \<times> 'w) option" where
  "retry_send call w = retry call (\<lambda>r. r \<noteq> None) w"

definition is_failed :: "go_error + 'a \<Rightarrow> bool" where
  "is_failed r \<longleftrightarrow> (case r of Inl e \<Rightarrow> True | Inr x \<Rightarrow> False)"

definition retry_events :: "('w \<Rightarrow> (go_error + 'a) \<times> 'w) \<Rightarrow> 'w \<Rightarrow> ((go_error + 'a) \<times> 'w) option" where
  "retry_events call w = retry call is_failed w"

interpretation send_loop: retried_call "\<lambda>r. r \<noteq> None" retry_send
  by unfold_locales (rule retry_send_def)

interpretation events_loop: retried_call is_failed retry_events
  by unfold_locales (rule retry_events_def)

section \<open>The observer\<close>

record ob_cli =
  cli_addr :: string
  cli_settings :: http_settings

definition new_ob_cli :: "string \<Rightarrow> ob_cli" where
  "new_ob_cli a = \<lparr>cli_addr = a, cli_settings = client_settings\<rparr>"

record observer =
  loopWaitTime :: u64
  WatchingKeyToSign :: string
  hashKey :: string
  dbPath :: string
  waitingCircle :: u32
  obCli :: "ob_cli option"
  startHeight :: u32

text \<open>
  \<open>txchan\<close> is what was sent into the channel so far, \<open>None\<close> when there is no channel.
\<close>

record ('d, 'w) ob_state =
  txchan :: "to_sign_item list option"
  ob_vdb :: "'d vendor_db"
  world :: 'w

definition new_observer ::
  "btcd \<Rightarrow> bool \<Rightarrow> u64 \<Rightarrow> bytes \<Rightarrow> string \<Rightarrow> string \<Rightarrow> string \<Rightarrow> u32 \<Rightarrow> u32 \<Rightarrow> observer go" where
  "new_observer B has_chan waitTime rdm watchingKey path signerAddr circle start =
     go_bind (get_utxo_key B rdm) (\<lambda>key. Ret
       \<lparr>loopWaitTime = waitTime, WatchingKeyToSign = watchingKey, hashKey = key, dbPath = path,
        waitingCircle = circle, obCli = (if has_chan then None else Some (new_ob_cli signerAddr)), startHeight = start\<rparr>)"

text \<open>
  What is done for one notification, with the number of captured transactions; \<open>None\<close> when it
  repeats a call forever.
\<close>

definition do_action ::
  "btcd \<Rightarrow> 'd leveldb \<Rightarrow> 'w node \<Rightarrow> observer \<Rightarrow> event_action \<Rightarrow> ('d, 'w) ob_state
     \<Rightarrow> (nat \<times> ('d, 'w) ob_state) go option" where
  "do_action B L N ob act st =
     (case act of Skip \<Rightarrow> Some (Ret (0, st))
      | Capture item \<Rightarrow>
          (case txchan st of Some sent \<Rightarrow> Some (Ret (1, st\<lparr>txchan := Some (sent @ [item])\<rparr>))
           | None \<Rightarrow>
             (case obCli ob of None \<Rightarrow> Some (Panic NilDereference)
              | Some cli \<Rightarrow> (case retry_send (send_to_sign B N (cli_addr cli) item) (world st) of
                    None \<Rightarrow> None | Some (r, w) \<Rightarrow> Some (Ret (1, st\<lparr>world := w\<rparr>)))))
      | MarkDone txid \<Rightarrow> Some (Ret (0, st\<lparr>ob_vdb := snd (set_tx_done B L (ob_vdb st) txid)\<rparr>)))"

primrec check_notifies ::
  "btcd \<Rightarrow> 'd leveldb \<Rightarrow> 'w node \<Rightarrow> (rat \<Rightarrow> u64) \<Rightarrow> observer \<Rightarrow> notify_event list \<Rightarrow> ('d, 'w) ob_state
     \<Rightarrow> (nat \<times> ('d, 'w) ob_state) go option" where
  "check_notifies B L N cvt ob [] st = Some (Ret (0, st))"
| "check_notifies B L N cvt ob (n # ns) st =
     (case notify_action B cvt (hashKey ob) (States n) of Panic p \<Rightarrow> Some (Panic p)
      | Ret act \<Rightarrow>
     (case do_action B L N ob act st of None \<Rightarrow> None
      | Some (Panic p) \<Rightarrow> Some (Panic p)
      | Some (Ret (k, st)) \<Rightarrow>
     (case check_notifies B L N cvt ob ns st of None \<Rightarrow> None
      | Some (Panic p) \<Rightarrow> Some (Panic p)
      | Some (Ret (toSign, st)) \<Rightarrow> Some (Ret (k + toSign, st)))))"

definition check_events ::
  "btcd \<Rightarrow> 'd leveldb \<Rightarrow> 'w node \<Rightarrow> (rat \<Rightarrow> u64) \<Rightarrow> observer \<Rightarrow> contract_event list \<Rightarrow> ('d, 'w) ob_state
     \<Rightarrow> (nat \<times> ('d, 'w) ob_state) go option" where
  "check_events B L N cvt ob events st = check_notifies B L N cvt ob (concat (map Notify events)) st"

definition trim_height :: "string \<Rightarrow> string" where
  "trim_height s = trim_func (\<lambda>r. r = CHR '' '' \<or> (of_char r :: nat) = 10) s"

definition get_last_height :: "'w node \<Rightarrow> observer \<Rightarrow> 'w \<Rightarrow> u32" where
  "get_last_height N ob w =
     (case read_file N (dbPath ob) ''last_height'' w of Inl err \<Rightarrow> 0
      | Inr val \<Rightarrow> (case parse_uint 32 (trim_height (string_of val)) of Inl err \<Rightarrow> 0
                   | Inr height \<Rightarrow> ucast height))"

definition set_last_height :: "'w node \<Rightarrow> observer \<Rightarrow> u32 \<Rightarrow> 'w \<Rightarrow> go_error option \<times> 'w" where
  "set_last_height N ob h w = write_file N (dbPath ob) ''last_height'' (bytes_of (format_uint (ucast h))) w"

section \<open>Listen\<close>

text \<open>The loop over the blocks: \<open>for h <= newTop { ...; h++ }\<close>, in 32 bits.\<close>

partial_function (option) scan_blocks ::
  "btcd \<Rightarrow> 'd leveldb \<Rightarrow> 'w node \<Rightarrow> (rat \<Rightarrow> u64) \<Rightarrow> observer \<Rightarrow> u32 \<Rightarrow> u32 \<Rightarrow> nat \<Rightarrow> ('d, 'w) ob_state
     \<Rightarrow> (nat \<times> ('d, 'w) ob_state) go option" where
  "scan_blocks B L N cvt ob h newTop toSign st =
     (if h \<le> newTop then
        (case retry_events (events_by_block N h) (world st) of None \<Rightarrow> None
         | Some (Inl err, w) \<Rightarrow> None
         | Some (Inr events, w) \<Rightarrow>
        (case check_events B L N cvt ob events (st\<lparr>world := w\<rparr>) of None \<Rightarrow> None
         | Some (Panic p) \<Rightarrow> Some (Panic p)
         | Some (Ret (signCnt, st)) \<Rightarrow> scan_blocks B L N cvt ob (h + 1) newTop (toSign + signCnt) st))
      else Some (Ret (toSign, st)))"

record ('d, 'w) listening = "('d, 'w) ob_state" +
  top :: u32
  lastRecorded :: u32

definition ob_part :: "('d, 'w) listening \<Rightarrow> ('d, 'w) ob_state" where
  "ob_part s = \<lparr>txchan = txchan s, ob_vdb = ob_vdb s, world = world s\<rparr>"

definition with_ob_part :: "('d, 'w) listening \<Rightarrow> ('d, 'w) ob_state \<Rightarrow> ('d, 'w) listening" where
  "with_ob_part s st = s\<lparr>txchan := txchan st, ob_vdb := ob_vdb st, world := world st\<rparr>"

text \<open>One tick of the loop of \<open>Listen\<close>.\<close>

definition listen_tick ::
  "btcd \<Rightarrow> 'd leveldb \<Rightarrow> 'w node \<Rightarrow> (rat \<Rightarrow> u64) \<Rightarrow> observer \<Rightarrow> ('d, 'w) listening
     \<Rightarrow> ('d, 'w) listening go option" where
  "listen_tick B L N cvt ob s =
     (case current_height N (world s) of (Inl err, w) \<Rightarrow> Some (Ret (s\<lparr>world := w\<rparr>))
      | (Inr newTop, w) \<Rightarrow>
          let s = s\<lparr>world := w\<rparr> in
          if newTop - top s \<le> 0 then Some (Ret s)
          else case scan_blocks B L N cvt ob (top s + 1) newTop 0 (ob_part s) of
              None \<Rightarrow> None
            | Some (Panic p) \<Rightarrow> Some (Panic p)
            | Some (Ret (toSign, st)) \<Rightarrow>
                let s = (with_ob_part s st)\<lparr>top := newTop\<rparr> in
                if toSign > 0 \<or> top s - lastRecorded s \<ge> waitingCircle ob
                then Some (Ret (s\<lparr>world := snd (set_last_height N ob (top s) (world s)), lastRecorded := top s\<rparr>))
                else Some (Ret s))"

definition listen_start :: "'w node \<Rightarrow> observer \<Rightarrow> ('d, 'w) ob_state \<Rightarrow> ('d, 'w) listening" where
  "listen_start N ob st =
     (let t = get_last_height N ob (world st); t = (if startHeight ob \<noteq> 0 then startHeight ob else t)
      in ob_state.extend st (listening.fields t t))"

text \<open>
  \<open>Listen\<close> up to its loop: \<open>time.NewTicker\<close> panics for an interval that is not positive;
  the product with a second is taken in 64 bits.
\<close>

definition new_ticker :: "u64 \<Rightarrow> unit go" where
  "new_ticker d = (if word_sless 0 d then Ret () else Panic (PanicError (Text ''non-positive interval for NewTicker'')))"

definition listen_begin :: "'w node \<Rightarrow> observer \<Rightarrow> ('d, 'w) ob_state \<Rightarrow> ('d, 'w) listening go" where
  "listen_begin N ob st = go_bind (new_ticker (second * loopWaitTime ob)) (\<lambda>_. Ret (listen_start N ob st))"

lemma listen_begin_Ret:
  "listen_begin N ob st = Ret s \<longleftrightarrow> word_sless 0 (second * loopWaitTime ob) \<and> s = listen_start N ob st"
  by (auto simp: listen_begin_def new_ticker_def)

primrec listen_ticks ::
  "btcd \<Rightarrow> 'd leveldb \<Rightarrow> 'w node \<Rightarrow> (rat \<Rightarrow> u64) \<Rightarrow> observer \<Rightarrow> nat \<Rightarrow> ('d, 'w) listening
     \<Rightarrow> ('d, 'w) listening go option" where
  "listen_ticks B L N cvt ob 0 s = Some (Ret s)"
| "listen_ticks B L N cvt ob (Suc n) s =
     (case listen_tick B L N cvt ob s of None \<Rightarrow> None | Some (Panic p) \<Rightarrow> Some (Panic p)
      | Some (Ret s) \<Rightarrow> listen_ticks B L N cvt ob n s)"

end
