(* ===== verification/Observer_Facts.thy ===== *)
theory Observer_Facts
  imports Vendor_Observer
begin

text \<open>
  Facts about the observer: what a list of notifications does when there is a channel, the loop
  over the blocks as a walk over a list of heights, a node that follows the chain, and the ticks of
  \<open>Listen\<close>.
\<close>

section \<open>Notifications\<close>

primrec notify_actions :: "btcd \<Rightarrow> (rat \<Rightarrow> u64) \<Rightarrow> string \<Rightarrow> notify_event list \<Rightarrow> event_action list go" where
  "notify_actions B cvt key [] = Ret []"
| "notify_actions B cvt key (n # ns) =
     go_bind (notify_action B cvt key (States n)) (\<lambda>act.
       go_bind (notify_actions B cvt key ns) (\<lambda>acts. Ret (act # acts)))"

primrec captures :: "event_action list \<Rightarrow> to_sign_item list" where
  "captures [] = []"
| "captures (act # acts) = (case act of Capture item \<Rightarrow> item # captures acts | _ \<Rightarrow> captures acts)"

primrec marks :: "event_action list \<Rightarrow> bytes list" where
  "marks [] = []"
| "marks (act # acts) = (case act of MarkDone h \<Rightarrow> h # marks acts | _ \<Rightarrow> marks acts)"

lemma captures_append [simp]: "captures (xs @ ys) = captures xs @ captures ys"
  by (induction xs) (auto split: event_action.split)

lemma marks_append [simp]: "marks (xs @ ys) = marks xs @ marks ys"
  by (induction xs) (auto split: event_action.split)

definition mark_all :: "btcd \<Rightarrow> 'd leveldb \<Rightarrow> 'd vendor_db \<Rightarrow> bytes list \<Rightarrow> 'd vendor_db" where
  "mark_all B L v hs = foldl (\<lambda>v h. snd (set_tx_done B L v h)) v hs"

lemma mark_all_simps [simp]:
  "mark_all B L v [] = v"
  "mark_all B L v (h # hs) = mark_all B L (snd (set_tx_done B L v h)) hs"
  "mark_all B L v (hs @ hs') = mark_all B L (mark_all B L v hs) hs'"
  by (simp_all add: mark_all_def)

text \<open>The state after the actions when there is a channel.\<close>

definition deliver ::
  "btcd \<Rightarrow> 'd leveldb \<Rightarrow> ('d, 'w) ob_state \<Rightarrow> to_sign_item list \<Rightarrow> event_action list \<Rightarrow> ('d, 'w) ob_state" where
  "deliver B L st sent acts =
     st\<lparr>txchan := Some (sent @ captures acts), ob_vdb := mark_all B L (ob_vdb st) (marks acts)\<rparr>"

lemma check_notifies_channel:
  assumes "txchan st = Some sent" "notify_actions B cvt (hashKey ob) ns = Ret acts"
  shows "check_notifies B L N cvt ob ns st = Some (Ret (length (captures acts), deliver B L st sent acts))"
  using assms
proof (induction ns arbitrary: st sent acts)
  case Nil
  then show ?case by (simp add: deliver_def)
next
  case (Cons n ns)
  from Cons.prems(2) obtain act acts' where act: "notify_action B cvt (hashKey ob) (States n) = Ret act"
    and acts': "notify_actions B cvt (hashKey ob) ns = Ret acts'" and acts: "acts = act # acts'"
    by (auto simp: go_bind_Ret_iff)
  show ?case
    using Cons.prems(1) act acts Cons.IH [OF _ acts']
    by (cases act) (auto simp: do_action_def deliver_def)
qed

lemma check_notifies_panics:
  assumes "txchan st = Some sent" "notify_actions B cvt (hashKey ob) ns = Panic p"
  shows "check_notifies B L N cvt ob ns st = Some (Panic p)"
  using assms
proof (induction ns arbitrary: st sent)
  case (Cons n ns)
  show ?case
  proof (cases "notify_action B cvt (hashKey ob) (States n)")
    case (Ret act)
    with Cons.prems(2) have rest: "notify_actions B cvt (hashKey ob) ns = Panic p"
      by (auto simp: go_bind_Panic_iff)
    show ?thesis using Ret Cons.prems(1) Cons.IH [OF _ rest]
      by (cases act) (auto simp: do_action_def)
  next
    case (Panic q)
    with Cons.prems show ?thesis by simp
  qed
qed simp

section \<open>The loop over the blocks\<close>

text \<open>The heights the loop visits.\<close>

definition heights :: "nat \<Rightarrow> nat \<Rightarrow> u32 list" where
  "heights i j = map of_nat [i ..< j]"

lemma heights_simps: "j \<le> i \<Longrightarrow> heights i j = []" "i < j \<Longrightarrow> heights i j = of_nat i # heights (Suc i) j"
  by (simp_all add: heights_def upt_conv_Cons)

lemma heights_append: "i \<le> j \<Longrightarrow> j \<le> k \<Longrightarrow> heights i k = heights i j @ heights j k"
  using upt_add_eq_append [of i j "k - j"] by (simp add: heights_def)

primrec scan_list ::
  "btcd \<Rightarrow> 'd leveldb \<Rightarrow> 'w node \<Rightarrow> (rat \<Rightarrow> u64) \<Rightarrow> observer \<Rightarrow> u32 list \<Rightarrow> nat \<Rightarrow> ('d, 'w) ob_state
     \<Rightarrow> (nat \<times> ('d, 'w) ob_state) go option" where
  "scan_list B L N cvt ob [] toSign st = Some (Ret (toSign, st))"
| "scan_list B L N cvt ob (h # hs) toSign st =
     (case retry_events (events_by_block N h) (world st) of None \<Rightarrow> None
      | Some (Inl err, w) \<Rightarrow> None
      | Some (Inr events, w) \<Rightarrow>
     (case check_events B L N cvt ob events (st\<lparr>world := w\<rparr>) of None \<Rightarrow> None
      | Some (Panic p) \<Rightarrow> Some (Panic p)
      | Some (Ret (signCnt, st)) \<Rightarrow> scan_list B L N cvt ob hs (toSign + signCnt) st))"

lemma unat_Suc_u32: "h \<noteq> (- 1 :: u32) \<Longrightarrow> unat (h + 1) = Suc (unat h)"
  using unatSuc [of h] by (simp add: add.commute eq_neg_iff_add_eq_0)

text \<open>Below the largest height, the loop visits every height up to the top once, in order.\<close>

lemma scan_blocks_list:
  assumes "newTop \<noteq> - 1"
  shows "scan_blocks B L N cvt ob h newTop toSign st
           = scan_list B L N cvt ob (heights (unat h) (Suc (unat newTop))) toSign st"
proof (induction "Suc (unat newTop) - unat h" arbitrary: h toSign st)
  case 0
  then have "\<not> h \<le> newTop" by (simp add: word_le_nat_alt)
  with 0 show ?case by (subst scan_blocks.simps) (simp add: heights_simps(1))
next
  case (Suc d)
  then have le: "h \<le> newTop" by (simp add: word_le_nat_alt)
  then have "h \<noteq> - 1" using assms word_order.extremum_uniqueI by blast
  then have Suc_h: "unat (h + 1) = Suc (unat h)" by (rule unat_Suc_u32)
  have hs: "heights (unat h) (Suc (unat newTop)) = h # heights (unat (h + 1)) (Suc (unat newTop))"
    using le by (simp add: heights_simps(2) word_le_nat_alt Suc_h)
  have IH: "scan_blocks B L N cvt ob (h + 1) newTop k u
      = scan_list B L N cvt ob (heights (unat (h + 1)) (Suc (unat newTop))) k u" for k u
    using Suc.hyps(2) by (intro Suc.hyps(1)) (simp add: Suc_h)
  show ?case
    unfolding hs by (subst scan_blocks.simps) (simp add: le IH split: option.split prod.split sum.split go.split)
qed

text \<open>At the largest height the counter wraps, and the loop never comes to an end of its own.\<close>

text \<open>Induction over the blocks of a scan that returns.\<close>

lemma scan_blocks_induct [consumes 1, case_names finished block]:
  fixes B :: btcd and L :: "'d leveldb" and N :: "'w node"
  assumes "scan_blocks B L N cvt ob h newTop toSign st = Some (Ret (n, st'))"
    and finished: "\<And>h k st. \<not> h \<le> newTop \<Longrightarrow> P h k st k st"
    and block: "\<And>h k st events w c u n st'. h \<le> newTop \<Longrightarrow>
      retry_events (events_by_block N h) (world st) = Some (Inr events, w) \<Longrightarrow>
      check_events B L N cvt ob events (st\<lparr>world := w\<rparr>) = Some (Ret (c, u)) \<Longrightarrow>
      P (h + 1) (k + c) u n st' \<Longrightarrow> P h k st n st'"
  shows "P h toSign st n st'"
proof -
  define Q where "Q B' L' N' cvt' ob' h top' k st r \<longleftrightarrow>
      (B' = B \<and> L' = L \<and> N' = N \<and> cvt' = cvt \<and> ob' = ob \<and> top' = newTop \<longrightarrow>
        (\<forall>n st'. r = Ret (n, st') \<longrightarrow> P h k st n st'))"
    for B' and L' :: "'d leveldb" and N' :: "'w node" and cvt' ob' h top' k st r
  have "Q B L N cvt ob h newTop toSign st (Ret (n, st'))"
  proof (rule scan_blocks.raw_induct [where P = Q, OF _ assms(1)])
    fix scan_rec and B' and L' :: "'d leveldb" and N' :: "'w node" and cvt' ob' h top' k st r
    assume IH: "\<And>B' L' N' cvt' ob' h top' k st r. scan_rec B' L' N' cvt' ob' h top' k st = Some r
        \<Longrightarrow> Q B' L' N' cvt' ob' h top' k st r"
      and eq: "(if h \<le> top' then
        (case retry_events (events_by_block N' h) (world st) of None \<Rightarrow> None
         | Some (Inl err, w) \<Rightarrow> None
         | Some (Inr events, w) \<Rightarrow>
        (case check_events B' L' N' cvt' ob' events (st\<lparr>world := w\<rparr>) of None \<Rightarrow> None
         | Some (Panic p) \<Rightarrow> Some (Panic p)
         | Some (Ret (signCnt, st)) \<Rightarrow> scan_rec B' L' N' cvt' ob' (h + 1) top' (k + signCnt) st))
      else Some (Ret (k, st))) = Some r"
    show "Q B' L' N' cvt' ob' h top' k st r"
      unfolding Q_def
    proof (intro impI allI)
      fix n st' assume here: "B' = B \<and> L' = L \<and> N' = N \<and> cvt' = cvt \<and> ob' = ob \<and> top' = newTop" and "r = Ret (n, st')"
      with eq IH show "P h k st n st'"
        by (auto simp: Q_def split: if_splits option.splits prod.splits sum.splits go.splits intro: finished block)
    qed
  qed
  then show ?thesis by (simp add: Q_def)
qed

lemma scan_blocks_wraps: "scan_blocks B L N cvt ob h (- 1) toSign st \<noteq> Some (Ret p)"
proof
  assume "scan_blocks B L N cvt ob h (- 1) toSign st = Some (Ret p)"
  then have "scan_blocks B L N cvt ob h (- 1) toSign st = Some (Ret (fst p, snd p))" by simp
  then show False by (induction rule: scan_blocks_induct) simp_all
qed

section \<open>A node that follows the chain\<close>

text \<open>
  \<open>evs h\<close> are the events of block \<open>h\<close>: a query may fail any number of times, but it gets
  through at last and then the answer is right.
\<close>

definition chain_follows :: "'w node \<Rightarrow> (u32 \<Rightarrow> contract_event list) \<Rightarrow> bool" where
  "chain_follows N evs \<longleftrightarrow>
     (\<forall>h w. (\<exists>n. \<not> is_failed (fst (events_by_block N h (after_calls (events_by_block N h) n w))))
        \<and> (\<forall>es. fst (events_by_block N h w) = Inr es \<longrightarrow> es = evs h))"

lemma chain_follows_retry:
  assumes "chain_follows N evs"
  obtains w' where "retry_events (events_by_block N h) w = Some (Inr (evs h), w')"
proof -
  have "\<exists>p. retry_events (events_by_block N h) w = Some p"
    using assms unfolding chain_follows_def events_loop.returns_iff by blast
  then obtain r w' where r: "retry_events (events_by_block N h) w = Some (r, w')" by auto
  then have "retry (events_by_block N h) is_failed w = Some (r, w')" by (simp add: retry_events_def)
  from retry_result [OF this] obtain u where "\<not> is_failed r" "events_by_block N h u = (r, w')" by blast
  then have "r = Inr (evs h)"
    using assms by (cases r) (auto simp: is_failed_def chain_follows_def, metis fst_conv)
  with r that show thesis by blast
qed

definition block_actions :: "btcd \<Rightarrow> (rat \<Rightarrow> u64) \<Rightarrow> string \<Rightarrow> (u32 \<Rightarrow> contract_event list) \<Rightarrow> u32 \<Rightarrow> event_action list go" where
  "block_actions B cvt key evs h = notify_actions B cvt key (concat (map Notify (evs h)))"

definition actions_of :: "btcd \<Rightarrow> (rat \<Rightarrow> u64) \<Rightarrow> string \<Rightarrow> (u32 \<Rightarrow> contract_event list) \<Rightarrow> u32 list \<Rightarrow> event_action list" where
  "actions_of B cvt key evs hs =
     concat (map (\<lambda>h. case block_actions B cvt key evs h of Ret acts \<Rightarrow> acts | Panic p \<Rightarrow> []) hs)"

lemma actions_of_simps [simp]:
  "actions_of B cvt key evs [] = []"
  "actions_of B cvt key evs (hs @ hs') = actions_of B cvt key evs hs @ actions_of B cvt key evs hs'"
  by (simp_all add: actions_of_def)

lemma scan_list_delivers:
  assumes "chain_follows N evs" "txchan st = Some sent"
    and "\<forall>h \<in> set hs. \<exists>acts. block_actions B cvt (hashKey ob) evs h = Ret acts"
    and mono: "\<And>h u. f u \<le> f (snd (events_by_block N h u))"
  shows "\<exists>w'. scan_list B L N cvt ob hs k st =
           Some (Ret (k + length (captures (actions_of B cvt (hashKey ob) evs hs)),
                     (deliver B L st sent (actions_of B cvt (hashKey ob) evs hs))\<lparr>world := w'\<rparr>))
         \<and> f (world st) \<le> (f w' :: u32)"
  using assms(2,3)
proof (induction hs arbitrary: st sent k)
  case Nil
  then show ?case by (intro exI [of _ "world st"]) (cases st, simp add: deliver_def)
next
  case (Cons h hs)
  obtain acts where acts: "block_actions B cvt (hashKey ob) evs h = Ret acts" using Cons.prems(2) by auto
  obtain w' where ev: "retry_events (events_by_block N h) (world st) = Some (Inr (evs h), w')"
    by (rule chain_follows_retry [OF assms(1)])
  then have "retry (events_by_block N h) is_failed (world st) = Some (Inr (evs h), w')"
    by (simp add: retry_events_def)
  then have f: "f (world st) \<le> f w'"
    by (rule retry_closed [where P = "\<lambda>u. f (world st) \<le> f u"]) (use mono order_trans in blast)+
  have chk: "check_events B L N cvt ob (evs h) (st\<lparr>world := w'\<rparr>)
      = Some (Ret (length (captures acts), deliver B L (st\<lparr>world := w'\<rparr>) sent acts))"
    unfolding check_events_def
    using Cons.prems(1) acts by (intro check_notifies_channel) (simp_all add: block_actions_def)
  let ?st = "deliver B L (st\<lparr>world := w'\<rparr>) sent acts"
  have "txchan ?st = Some (sent @ captures acts)" by (simp add: deliver_def)
  from Cons.IH [OF this, of "k + length (captures acts)"] Cons.prems(2) obtain w'' where
    rest: "scan_list B L N cvt ob hs (k + length (captures acts)) ?st =
        Some (Ret (k + length (captures acts) + length (captures (actions_of B cvt (hashKey ob) evs hs)),
          (deliver B L ?st (sent @ captures acts) (actions_of B cvt (hashKey ob) evs hs))\<lparr>world := w''\<rparr>))"
    "f w' \<le> f w''" by (auto simp: deliver_def)
  have "actions_of B cvt (hashKey ob) evs (h # hs) = acts @ actions_of B cvt (hashKey ob) evs hs"
    by (simp add: actions_of_def acts)
  then show ?case using ev chk rest order_trans [OF f rest(2)]
    by (auto simp: deliver_def add.assoc)
qed

text \<open>
  The node's height \<open>f w\<close> only grows, it is what \<open>GetCurrentBlockHeight\<close> answers when it
  does not fail, and it stays below the largest 32-bit number.
\<close>

definition node_ok :: "'w node \<Rightarrow> (u32 \<Rightarrow> contract_event list) \<Rightarrow> ('w \<Rightarrow> u32) \<Rightarrow> bool" where
  "node_ok N evs f \<longleftrightarrow> chain_follows N evs
     \<and> (\<forall>w. f w \<le> f (snd (current_height N w)) \<and> (\<forall>t. fst (current_height N w) = Inr t \<longrightarrow> t = f w))
     \<and> (\<forall>h w. f w \<le> f (snd (events_by_block N h w)))
     \<and> (\<forall>d n b w. f w \<le> f (snd (write_file N d n b w)))
     \<and> (\<forall>w. f w \<noteq> - 1)"

text \<open>The state after the blocks from \<open>top s\<close> (exclusive) to \<open>t\<close> (inclusive).\<close>

definition delivered_upto ::
  "btcd \<Rightarrow> 'd leveldb \<Rightarrow> (rat \<Rightarrow> u64) \<Rightarrow> observer \<Rightarrow> (u32 \<Rightarrow> contract_event list)
     \<Rightarrow> ('d, 'w) listening \<Rightarrow> ('d, 'w) listening \<Rightarrow> bool" where
  "delivered_upto B L cvt ob evs s s' \<longleftrightarrow>
     (let acts = actions_of B cvt (hashKey ob) evs (heights (Suc (unat (top s))) (Suc (unat (top s'))))
      in top s \<le> top s'
       \<and> txchan s' = (case txchan s of None \<Rightarrow> None | Some sent \<Rightarrow> Some (sent @ captures acts))
       \<and> ob_vdb s' = mark_all B L (ob_vdb s) (marks acts))"

lemma delivered_refl:
  assumes "top s' = top s" "txchan s' = txchan s" "ob_vdb s' = ob_vdb s"
  shows "delivered_upto B L cvt ob evs s s'"
  using assms by (auto simp: delivered_upto_def heights_simps split: option.split)

lemma delivered_trans:
  assumes "delivered_upto B L cvt ob evs s s'" "delivered_upto B L cvt ob evs s' s''"
  shows "delivered_upto B L cvt ob evs s s''"
proof -
  have "top s \<le> top s'" "top s' \<le> top s''" using assms by (simp_all add: delivered_upto_def Let_def)
  then have "heights (Suc (unat (top s))) (Suc (unat (top s'')))
      = heights (Suc (unat (top s))) (Suc (unat (top s'))) @ heights (Suc (unat (top s'))) (Suc (unat (top s'')))"
    by (intro heights_append) (simp_all add: word_le_nat_alt)
  with assms show ?thesis by (auto simp: delivered_upto_def Let_def split: option.splits)
qed

lemma tick_state:
  assumes "current_height N (world s) = (Inr newTop, w)" "newTop - top s \<noteq> 0"
    and "scan_blocks B L N cvt ob (top s + 1) newTop 0 (ob_part (s\<lparr>world := w\<rparr>)) =
      Some (Ret (k, (deliver B L (ob_part (s\<lparr>world := w\<rparr>)) sent acts)\<lparr>world := w'\<rparr>))"
  obtains s' where "listen_tick B L N cvt ob s = Some (Ret s')" "top s' = newTop"
    "txchan s' = Some (sent @ captures acts)" "ob_vdb s' = mark_all B L (ob_vdb s) (marks acts)"
    "world s' = w' \<or> world s' = snd (set_last_height N ob newTop w')"
proof -
  let ?s = "(with_ob_part (s\<lparr>world := w\<rparr>) ((deliver B L (ob_part (s\<lparr>world := w\<rparr>)) sent acts)\<lparr>world := w'\<rparr>))\<lparr>top := newTop\<rparr>"
  let ?b = "k > 0 \<or> top ?s - lastRecorded ?s \<ge> waitingCircle ob"
  let ?t = "?s\<lparr>world := snd (set_last_height N ob (top ?s) (world ?s)), lastRecorded := top ?s\<rparr>"
  have "listen_tick B L N cvt ob s = Some (Ret (if ?b then ?t else ?s))"
    using assms by (simp add: listen_tick_def Let_def)
  moreover have "txchan ?s = Some (sent @ captures acts)" "ob_vdb ?s = mark_all B L (ob_vdb s) (marks acts)"
    "top ?s = newTop" "world ?s = w'"
    by (simp_all add: with_ob_part_def deliver_def ob_part_def)
  ultimately show thesis by (intro that [of "if ?b then ?t else ?s"]) simp_all
qed

lemma tick_delivers:
  assumes "node_ok N evs f" "txchan s = Some sent" "top s \<le> f (world s)"
    and wf: "\<forall>h. \<exists>acts. block_actions B cvt (hashKey ob) evs h = Ret acts"
  shows "\<exists>s'. listen_tick B L N cvt ob s = Some (Ret s') \<and> delivered_upto B L cvt ob evs s s'
     \<and> top s' \<le> f (world s') \<and> (\<forall>t. fst (current_height N (world s)) = Inr t \<longrightarrow> top s' = t)"
proof -
  obtain r w where cur: "current_height N (world s) = (r, w)" by force
  from assms(1) have chain: "chain_follows N evs" and mono: "\<And>h u. f u \<le> f (snd (events_by_block N h u))"
    and wr: "\<And>d n b u. f u \<le> f (snd (write_file N d n b u))" and max: "\<And>u. f u \<noteq> - 1"
    by (simp_all add: node_ok_def)
  have fw: "f (world s) \<le> f w" and height: "\<And>t. r = Inr t \<Longrightarrow> t = f (world s)"
    using assms(1) cur unfolding node_ok_def by (metis snd_conv, metis fst_conv)
  show ?thesis
  proof (cases r)
    case (Inl e)
    then show ?thesis using cur order_trans [OF assms(3) fw]
      by (auto simp: listen_tick_def intro: delivered_refl)
  next
    case (Inr newTop)
    then have nt: "newTop = f (world s)" by (rule height)
    show ?thesis
    proof (cases "newTop = top s")
      case True
      then show ?thesis using cur Inr order_trans [OF assms(3) fw]
        by (auto simp: listen_tick_def intro: delivered_refl)
    next
      case False
      then have less: "top s < newTop" and ne: "newTop - top s \<noteq> 0" using assms(3) nt by simp_all
      have "top s \<noteq> - 1" using less word_order.extremum_strict [of newTop] by metis
      then have Suc_top: "unat (top s + 1) = Suc (unat (top s))" by (rule unat_Suc_u32)
      let ?acts = "actions_of B cvt (hashKey ob) evs (heights (Suc (unat (top s))) (Suc (unat newTop)))"
      obtain w' where scan: "scan_blocks B L N cvt ob (top s + 1) newTop 0 (ob_part (s\<lparr>world := w\<rparr>)) =
          Some (Ret (length (captures ?acts), (deliver B L (ob_part (s\<lparr>world := w\<rparr>)) sent ?acts)\<lparr>world := w'\<rparr>))"
        and w': "f w \<le> f w'"
        using scan_list_delivers [OF chain, of "ob_part (s\<lparr>world := w\<rparr>)" sent
            "heights (Suc (unat (top s))) (Suc (unat newTop))" B cvt ob f L 0] wf mono assms(2)
        unfolding scan_blocks_list [OF max [of "world s", folded nt]] Suc_top
        by (auto simp: ob_part_def)
      have "newTop \<le> f w'" using order_trans [OF fw w'] by (simp add: nt)
      moreover from this have "newTop \<le> f (snd (set_last_height N ob newTop w'))"
        using wr order_trans unfolding set_last_height_def by blast
      moreover obtain s' where tick: "listen_tick B L N cvt ob s = Some (Ret s')"
        and s': "top s' = newTop" "txchan s' = Some (sent @ captures ?acts)"
          "ob_vdb s' = mark_all B L (ob_vdb s) (marks ?acts)"
          "world s' = w' \<or> world s' = snd (set_last_height N ob newTop w')"
        by (rule tick_state [OF cur [unfolded Inr] ne scan])
      ultimately have "top s' \<le> f (world s')" by auto
      moreover have "delivered_upto B L cvt ob evs s s'"
        using s' less assms(2) by (simp add: delivered_upto_def)
      ultimately show ?thesis using tick cur Inr s'(1) by auto
    qed
  qed
qed

lemma ticks_deliver:
  assumes "node_ok N evs f" "txchan s = Some sent" "top s \<le> f (world s)"
    and wf: "\<forall>h. \<exists>acts. block_actions B cvt (hashKey ob) evs h = Ret acts"
  shows "\<exists>s'. listen_ticks B L N cvt ob n s = Some (Ret s') \<and> delivered_upto B L cvt ob evs s s'
     \<and> top s' \<le> f (world s')"
  using assms(2,3)
proof (induction n arbitrary: s sent)
  case 0
  then show ?case by (auto intro: delivered_refl)
next
  case (Suc n)
  obtain s1 where s1: "listen_tick B L N cvt ob s = Some (Ret s1)" "delivered_upto B L cvt ob evs s s1"
    "top s1 \<le> f (world s1)"
    using tick_delivers [OF assms(1) Suc.prems wf] by blast
  then obtain sent1 where "txchan s1 = Some sent1"
    using Suc.prems(1) by (auto simp: delivered_upto_def Let_def)
  from Suc.IH [OF this s1(3)] obtain s' where "listen_ticks B L N cvt ob n s1 = Some (Ret s')"
    "delivered_upto B L cvt ob evs s1 s'" "top s' \<le> f (world s')" by blast
  with s1 delivered_trans show ?case by auto
qed

end
