(* ===== verification/Rest_Router.thy ===== *)
theory Rest_Router
  imports Rest_Common
begin

text \<open>
  \<open>rest/http/restful/router.go\<close>: the routes, the pattern of a path with parameters, and
  \<open>net.SplitHostPort\<close>, which picks the client's host. A path is taken to have no character that
  is special in a regular expression except the colon of a parameter, as all registered paths.
\<close>

section \<open>Patterns\<close>

text \<open>\<open>\w\<close> in Go's regular expressions.\<close>

definition word_char :: "char \<Rightarrow> bool" where
  "word_char c =
     (let n = of_char c :: nat in 48 \<le> n \<and> n \<le> 57 \<or> 65 \<le> n \<and> n \<le> 90 \<or> 97 \<le> n \<and> n \<le> 122 \<or> n = 95)"

text \<open>A character of the path, or the group \<open>(\w+)\<close>.\<close>

datatype path_token = PathChar char | PathWord

text \<open>
  The pattern of a path with the names of its groups: every \<open>:\<close> with the word characters after
  it becomes a group; a colon without any stays.
\<close>

function path_pattern :: "string \<Rightarrow> path_token list \<times> string list" where
  "path_pattern [] = ([], [])"
| "path_pattern (c # s) =
     (let name = takeWhile word_char s in
      if c = CHR '':'' \<and> name \<noteq> []
      then (let (ts, names) = path_pattern (dropWhile word_char s) in (PathWord # ts, name # names))
      else (let (ts, names) = path_pattern s in (PathChar c # ts, names)))"
  by pat_completeness auto

termination
  by (relation "measure length") (simp_all add: less_Suc_eq_le length_dropWhile_le)

text \<open>
  The submatches of \<open>^...$\<close>: a group takes as many word characters as it can and gives some back
  when the rest does not match.
\<close>

fun first_Some :: "('a \<Rightarrow> 'b option) \<Rightarrow> 'a list \<Rightarrow> 'b option" where
  "first_Some f [] = None"
| "first_Some f (x # xs) = (case f x of None \<Rightarrow> first_Some f xs | Some y \<Rightarrow> Some y)"

primrec match_path :: "path_token list \<Rightarrow> string \<Rightarrow> string list option" where
  "match_path [] s = (if s = [] then Some [] else None)"
| "match_path (t # ts) s =
     (case t of
        PathChar c \<Rightarrow> (case s of [] \<Rightarrow> None | d # r \<Rightarrow> if d = c then match_path ts r else None)
      | PathWord \<Rightarrow>
          first_Some (\<lambda>n. map_option (Cons (take n s)) (match_path ts (drop n s)))
            (rev [1..<Suc (length (takeWhile word_char s))]))"

section \<open>Routes\<close>

record 'h route =
  Method :: string
  Path :: "path_token list"
  Params :: "string list"
  Handler :: 'h

record 'h router =
  cliHost :: string
  routes :: "'h route list"

definition new_router :: "string \<Rightarrow> 'h router" where
  "new_router host = \<lparr>cliHost = host, routes = []\<rparr>"

definition add_route :: "string \<Rightarrow> string \<Rightarrow> 'h \<Rightarrow> 'h router \<Rightarrow> 'h router" where
  "add_route method path h r =
     (let (ts, names) = path_pattern path
      in r\<lparr>routes := routes r @ [\<lparr>Method = method, Path = ts, Params = names, Handler = h\<rparr>]\<rparr>)"

definition add_head :: "string \<Rightarrow> 'h \<Rightarrow> 'h router \<Rightarrow> 'h router" where "add_head = add_route ''HEAD''"
definition add_connect :: "string \<Rightarrow> 'h \<Rightarrow> 'h router \<Rightarrow> 'h router" where "add_connect = add_route ''CONNECT''"
definition add_get :: "string \<Rightarrow> 'h \<Rightarrow> 'h router \<Rightarrow> 'h router" where "add_get = add_route ''GET''"
definition add_post :: "string \<Rightarrow> 'h \<Rightarrow> 'h router \<Rightarrow> 'h router" where "add_post = add_route ''POST''"
definition add_put :: "string \<Rightarrow> 'h \<Rightarrow> 'h router \<Rightarrow> 'h router" where "add_put = add_route ''PUT''"
definition add_delete :: "string \<Rightarrow> 'h \<Rightarrow> 'h router \<Rightarrow> 'h router" where "add_delete = add_route ''DELETE''"
definition add_options :: "string \<Rightarrow> 'h \<Rightarrow> 'h router \<Rightarrow> 'h router" where "add_options = add_route ''OPTIONS''"

text \<open>\<open>parseParams\<close>: the last value of a name counts.\<close>

definition parse_path_params :: "'h route \<Rightarrow> string \<Rightarrow> (string \<Rightarrow> string option) go" where
  "parse_path_params rt path =
     (case match_path (Path rt) path of None \<Rightarrow> Panic IndexOutOfRange
      | Some vs \<Rightarrow> if length vs \<le> length (Params rt) then Ret (map_of (rev (zip (Params rt) vs)))
          else Panic IndexOutOfRange)"

definition try_route :: "'h router \<Rightarrow> string \<Rightarrow> string \<Rightarrow> ('h \<times> (string \<Rightarrow> string option)) go option" where
  "try_route r path method =
     (case find (\<lambda>rt. Method rt = method \<and> match_path (Path rt) path \<noteq> None) (routes r) of
        None \<Rightarrow> None
      | Some rt \<Rightarrow> Some (go_bind (if Params rt = [] then Ret (\<lambda>_. None) else parse_path_params rt path)
          (\<lambda>params. Ret (Handler rt, params))))"

section \<open>The client's host\<close>

text \<open>\<open>net.SplitHostPort\<close>; the host of an address it rejects is empty.\<close>

definition after_last_colon :: "string \<Rightarrow> nat" where
  "after_last_colon s = length s - length (takeWhile (\<lambda>c. c \<noteq> CHR '':'') (rev s))"

definition split_host :: "string \<Rightarrow> string" where
  "split_host hp =
     (if CHR '':'' \<notin> set hp then []
      else let i = after_last_colon hp - 1 in
        if hd hp = CHR ''['' then
          (let host = takeWhile (\<lambda>c. c \<noteq> CHR '']'') (tl hp); e = Suc (length host) in
           if CHR '']'' \<notin> set hp \<or> Suc e \<noteq> i \<or> CHR ''['' \<in> set (tl hp) \<or> CHR '']'' \<in> set (drop (Suc e) hp)
           then [] else host)
        else if CHR '':'' \<in> set (take i hp) \<or> CHR ''['' \<in> set hp \<or> CHR '']'' \<in> set hp then []
        else take i hp)"

section \<open>Facts\<close>

text \<open>A path without a colon is matched by itself only and has no parameters.\<close>

lemma path_pattern_plain: "CHR '':'' \<notin> set s \<Longrightarrow> path_pattern s = (map PathChar s, [])"
  by (induction s rule: path_pattern.induct) (auto simp: Let_def)

lemma match_plain: "match_path (map PathChar s) p = (if p = s then Some [] else None)"
  by (induction s arbitrary: p) (auto split: list.split)

text \<open>The path with the values \<open>vs\<close> for its groups.\<close>

fun fill_path :: "path_token list \<Rightarrow> string list \<Rightarrow> string" where
  "fill_path [] vs = []"
| "fill_path (PathChar c # ts) vs = c # fill_path ts vs"
| "fill_path (PathWord # ts) vs = hd vs @ fill_path ts (tl vs)"

text \<open>After a group comes the end or a character that no word has.\<close>

fun separated :: "path_token list \<Rightarrow> bool" where
  "separated (PathWord # t # ts) = ((case t of PathWord \<Rightarrow> False | PathChar c \<Rightarrow> \<not> word_char c) \<and> separated (t # ts))"
| "separated (t # ts) = separated ts"
| "separated [] = True"

definition a_word :: "string \<Rightarrow> bool" where
  "a_word v \<longleftrightarrow> v \<noteq> [] \<and> list_all word_char v"

lemma fill_starts:
  "separated (PathWord # ts) \<Longrightarrow> takeWhile word_char (fill_path ts vs) = []"
  by (cases ts) (auto split: path_token.splits)

lemma match_fill:
  assumes "separated ts" and "length vs = count_list ts PathWord" and "list_all a_word vs"
  shows "match_path ts (fill_path ts vs) = Some vs"
  using assms
proof (induction ts vs rule: fill_path.induct)
  case (2 c ts vs)
  then have "separated ts" by (cases ts) simp_all
  with 2 show ?case by simp
next
  case (3 ts vs)
  then obtain v ws where vs: "vs = v # ws" by (cases vs) simp_all
  with 3 have v: "v \<noteq> []" "list_all word_char v" by (simp_all add: a_word_def)
  have "separated ts" using 3(2) by (cases ts) simp_all
  with 3 vs have IH: "match_path ts (fill_path ts ws) = Some ws" by simp
  have "takeWhile word_char (v @ fill_path ts ws) = v @ takeWhile word_char (fill_path ts ws)"
    using v(2) by (auto simp: list_all_iff intro: takeWhile_append2)
  then have "takeWhile word_char (v @ fill_path ts ws) = v"
    using fill_starts [OF 3(2)] by simp
  moreover have "rev [1..<Suc (length v)] = length v # rev [1..<length v]"
    using v(1) by (simp add: Suc_le_eq)
  ultimately show ?case using vs IH by simp
qed simp

text \<open>A path has as many groups as names, so that \<open>parseParams\<close> stays in its bounds.\<close>

lemma path_pattern_names: "count_list (fst (path_pattern s)) PathWord = length (snd (path_pattern s))"
  by (induction s rule: path_pattern.induct) (auto simp: Let_def split: prod.splits)

lemma first_Some_Some: "first_Some f xs = Some y \<Longrightarrow> \<exists>x \<in> set xs. f x = Some y"
  by (induction xs) (auto split: option.splits)

lemma match_length: "match_path ts s = Some vs \<Longrightarrow> length vs = count_list ts PathWord"
proof (induction ts arbitrary: s vs)
  case (Cons t ts)
  show ?case
  proof (cases t)
    case (PathChar c)
    with Cons show ?thesis by (auto split: list.splits if_splits)
  next
    case PathWord
    with Cons.prems have "first_Some (\<lambda>n. map_option (Cons (take n s)) (match_path ts (drop n s)))
        (rev [1..<Suc (length (takeWhile word_char s))]) = Some vs" by simp
    from first_Some_Some [OF this] obtain n ws where "match_path ts (drop n s) = Some ws" "vs = take n s # ws" by auto
    with Cons.IH PathWord show ?thesis by simp
  qed
qed (simp split: if_splits)

definition routes_ok :: "'h router \<Rightarrow> bool" where
  "routes_ok r \<longleftrightarrow> list_all (\<lambda>rt. count_list (Path rt) PathWord = length (Params rt)) (routes r)"

lemma routes_ok_new: "routes_ok (new_router host)"
  by (simp add: routes_ok_def new_router_def)

lemma routes_ok_add: "routes_ok r \<Longrightarrow> routes_ok (add_route method path h r)"
  using path_pattern_names [of path] by (cases "path_pattern path") (simp add: routes_ok_def add_route_def)

lemma try_route_no_panic:
  assumes "routes_ok r"
  shows "try_route r path method \<noteq> Some (Panic p)"
proof (cases "find (\<lambda>rt. Method rt = method \<and> match_path (Path rt) path \<noteq> None) (routes r)")
  case (Some rt)
  then obtain vs where rt: "rt \<in> set (routes r)" and vs: "match_path (Path rt) path = Some vs"
    by (auto simp: find_Some_iff)
  from rt assms have "length vs = length (Params rt)"
    using match_length [OF vs] by (simp add: routes_ok_def list_all_iff)
  with vs have "\<exists>params. parse_path_params rt path = Ret params"
    by (simp add: parse_path_params_def)
  with Some show ?thesis by (auto simp: try_route_def)
qed (simp add: try_route_def)

end
