(* ===== verification/Http_Message.thy ===== *)
theory Http_Message
  imports Go_Strings
begin

text \<open>
  What the REST server uses of Go's \<open>net/http\<close> and \<open>net/url\<close>: the request as the handlers
  see it, the answer with its header, and the query of a URL.
\<close>

section \<open>Requests and answers\<close>

text \<open>\<open>req_query\<close> is the raw query of the URL, what stands behind the question mark.\<close>

record http_request =
  req_method :: string
  req_path :: string
  req_query :: string
  RemoteAddr :: string
  req_body :: string

record http_answer =
  ans_status :: nat
  ans_header :: "(string \<times> string) list"
  ans_body :: string

text \<open>A handler that writes nothing.\<close>

definition no_answer :: http_answer where
  "no_answer = \<lparr>ans_status = 200, ans_header = [], ans_body = []\<rparr>"

text \<open>
  The keys of a header start with an upper case letter, as every part of them behind a hyphen;
  \<open>up\<close>: the next letter is to be upper case.
\<close>

primrec canonical_from :: "bool \<Rightarrow> string \<Rightarrow> string" where
  "canonical_from up [] = []"
| "canonical_from up (c # s) =
     (let n = of_char c :: nat in
      (if up \<and> 97 \<le> n \<and> n \<le> 122 then char_of (n - 32)
       else if \<not> up \<and> 65 \<le> n \<and> n \<le> 90 then char_of (n + 32) else c)
      # canonical_from (c = CHR ''-'') s)"

definition header_add :: "string \<Rightarrow> string \<Rightarrow> http_answer \<Rightarrow> http_answer" where
  "header_add k v a = a\<lparr>ans_header := ans_header a @ [(canonical_from True k, v)]\<rparr>"

definition header_set :: "string \<Rightarrow> string \<Rightarrow> http_answer \<Rightarrow> http_answer" where
  "header_set k v a =
     a\<lparr>ans_header := [(k', v') \<leftarrow> ans_header a. k' \<noteq> canonical_from True k] @ [(canonical_from True k, v)]\<rparr>"

text \<open>\<open>http.NotFound\<close>.\<close>

definition not_found :: http_answer where
  "not_found =
     (header_set ''X-Content-Type-Options'' ''nosniff'' (header_set ''Content-Type'' ''text/plain; charset=utf-8'' no_answer))
       \<lparr>ans_status := 404, ans_body := ''404 page not found'' @ [CHR 0x0A]\<rparr>"

section \<open>The query of a URL\<close>

text \<open>\<open>url.QueryUnescape\<close>; \<open>None\<close>: a percent sign without two hexadecimal digits.\<close>

fun query_unescape :: "string \<Rightarrow> string option" where
  "query_unescape [] = Some []"
| "query_unescape (c # s) =
     (if c = CHR ''%'' then
        (case s of a # b # r \<Rightarrow>
           (case (from_hex_char a, from_hex_char b) of
              (Some x, Some y) \<Rightarrow> map_option (Cons (char_of (16 * unat x + unat y))) (query_unescape r)
            | _ \<Rightarrow> None)
         | _ \<Rightarrow> None)
      else map_option (Cons (if c = CHR ''+'' then CHR '' '' else c)) (query_unescape s))"

text \<open>One part of the query, its name and value; \<open>None\<close>: it is dropped.\<close>

definition query_pair :: "string \<Rightarrow> (string \<times> string) option" where
  "query_pair part =
     (if part = [] then None
      else let k = takeWhile (\<lambda>c. c \<noteq> CHR ''='') part in
        case (query_unescape k, query_unescape (drop (Suc (length k)) part)) of
          (Some k, Some v) \<Rightarrow> Some (k, v) | _ \<Rightarrow> None)"

text \<open>The parts end at \<open>&\<close> or \<open>;\<close>, as in the versions of Go the module is built with.\<close>

definition query_end :: "char \<Rightarrow> bool" where
  "query_end c \<longleftrightarrow> c = CHR ''&'' \<or> c = CHR '';''"

function parse_query :: "string \<Rightarrow> (string \<times> string) list" where
  "parse_query [] = []"
| "parse_query (c # s) =
     (let part = takeWhile (\<lambda>c. \<not> query_end c) (c # s);
          ps = parse_query (drop (length part) s)
      in case query_pair part of None \<Rightarrow> ps | Some p \<Rightarrow> p # ps)"
  by pat_completeness auto

termination
  by (relation "measure length") auto

text \<open>\<open>URL.Query\<close>: every name with its values, in their order.\<close>

definition url_query :: "string \<Rightarrow> (string \<times> string list) list" where
  "url_query q =
     (let ps = parse_query q
      in map (\<lambda>k. (k, map snd [p \<leftarrow> ps. fst p = k])) (remdups (map fst ps)))"

section \<open>Facts\<close>

lemma url_query_values: "(k, vs) \<in> set (url_query q) \<Longrightarrow> vs \<noteq> []"
  by (fastforce simp: url_query_def Let_def filter_empty_conv)

lemma hd_filter_fst: "k \<in> fst ` set ps \<Longrightarrow> hd (map snd [p \<leftarrow> ps. fst p = k]) = the (map_of ps k)"
  by (induction ps) auto

text \<open>The first value of a name is the one of its first part.\<close>

lemma url_query_first:
  "map_option hd (map_of (url_query q) k) = map_of (parse_query q) k"
proof (cases "k \<in> fst ` set (parse_query q)")
  case True
  then have "map_of (url_query q) k = Some (map snd [p \<leftarrow> parse_query q. fst p = k])"
    by (simp add: url_query_def Let_def map_of_map_restrict)
  moreover obtain v where "map_of (parse_query q) k = Some v"
    using True by (metis map_of_eq_None_iff option.exhaust)
  ultimately show ?thesis using hd_filter_fst [OF True] by simp
next
  case False
  then have "map_of (parse_query q) k = None" by (simp add: map_of_eq_None_iff)
  with False show ?thesis by (simp add: url_query_def Let_def map_of_map_restrict)
qed

lemma query_unescape_plain:
  "CHR ''%'' \<notin> set s \<Longrightarrow> CHR ''+'' \<notin> set s \<Longrightarrow> query_unescape s = Some s"
  by (induction s) auto

end
