(* ===== verification/Rest_Server.thy ===== *)
theory Rest_Server
  imports Rest_Router Http_Message Vendor_Signer
begin

text \<open>
  The REST service of the signer: the server (\<open>rest/http/restful/restful_server.go\<close>) behind its
  router, its start and stop, and the handler of \<open>signtx\<close> (\<open>rest/service/handlers.go\<close>).
  \<open>T\<close> is the text of an error (\<open>%s\<close>).
\<close>

section \<open>The handler\<close>

definition error_response :: "u32 \<Rightarrow> string \<Rightarrow> response" where
  "error_response code desc =
     refactor_resp \<lparr>Action = ACTION_SIGNTX, Desc = desc, Error = code, Result = JNull\<rparr> code"

definition sign_tx ::
  "btcd \<Rightarrow> 'w multi_sign \<Rightarrow> signer \<Rightarrow> (go_error \<Rightarrow> string) \<Rightarrow> (string \<times> json) list \<Rightarrow> 'w
     \<Rightarrow> (response go \<times> 'w) option" where
  "sign_tx B multi_sign s T params w =
     (case parse_params params of
        Inl err \<Rightarrow> Some (Ret (error_response INVALID_PARAMS (''SignTx: decode params failed, err: '' @ T err)), w)
      | Inr req \<Rightarrow>
     (case hex_decode (Raw req) of
        Inl err \<Rightarrow> Some (Ret (error_response ILLEGAL_DATAFORMAT (''SignTx: decode raw failed, err: '' @ T err)), w)
      | Inr raw \<Rightarrow>
     (case deserialize_to_sign B raw of
        Inl err \<Rightarrow> Some (Ret (error_response ILLEGAL_DATAFORMAT (''[Rest] SignTx: deserialize failed, err: '' @ T err)), w)
      | Inr item \<Rightarrow>
     (case sign B multi_sign s item w of None \<Rightarrow> None
      | Some (Panic p, w) \<Rightarrow> Some (Panic p, w)
      | Some (Ret (Some err), w) \<Rightarrow>
          Some (Ret (error_response INTERNAL_ERROR (''[Rest] SignTx: sign failed, err: '' @ T err)), w)
      | Some (Ret None, w) \<Rightarrow>
          Some (Ret (refactor_resp \<lparr>Action = ACTION_SIGNTX, Desc = [], Error = 0, Result = JNull\<rparr> 0), w)))))"

section \<open>The server\<close>

text \<open>
  \<open>web.SignTx\<close> is the only handler; \<open>call_handler\<close> calls it. A map of actions is a list of
  paths with their actions.
\<close>

datatype handler = SignTx

record action =
  action_name :: string
  action_handler :: handler

definition call_handler ::
  "btcd \<Rightarrow> 'w multi_sign \<Rightarrow> signer \<Rightarrow> (go_error \<Rightarrow> string) \<Rightarrow> handler \<Rightarrow> (string \<times> json) list \<Rightarrow> 'w
     \<Rightarrow> (response go \<times> 'w) option" where
  "call_handler B multi_sign s T h params w =
     (case h of SignTx \<Rightarrow> sign_tx B multi_sign s T params w)"

definition post_map :: "(string \<times> action) list" where
  "post_map = [(SIGNTX, \<lparr>action_name = ACTION_SIGNTX, action_handler = SignTx\<rparr>)]"

definition get_map :: "(string \<times> action) list" where
  "get_map = []"

datatype route_handler = GetHandler | PostHandler | OptionsHandler

definition init_get_handler :: "(string \<times> action) list \<Rightarrow> route_handler router \<Rightarrow> route_handler router" where
  "init_get_handler m rt = fold (\<lambda>k. add_get k GetHandler) (map fst m) rt"

definition init_post_handler :: "(string \<times> action) list \<Rightarrow> route_handler router \<Rightarrow> route_handler router" where
  "init_post_handler m rt =
     (let rt = fold (\<lambda>k. add_post k PostHandler) (map fst m) rt
      in fold (\<lambda>k. add_options k OptionsHandler) (map fst m) rt)"

definition init_rest_server :: "string \<Rightarrow> route_handler router" where
  "init_rest_server cliAddr = init_post_handler post_map (init_get_handler get_map (new_router cliAddr))"

text \<open>\<open>write\<close>: the answer with its header.\<close>

definition write_answer :: "string \<Rightarrow> http_answer" where
  "write_answer data =
     (header_set ''Access-Control-Allow-Origin'' ''*''
       (header_set ''content-type'' ''application/json;charset=utf-8''
         (header_add ''Access-Control-Allow-Headers'' ''Content-Type'' no_answer)))\<lparr>ans_body := data\<rparr>"

text \<open>
  \<open>response\<close>: the \<open>desc\<close> is the one that the handler left, since the line that fills it in
  from \<open>ErrMap\<close> is commented out.
\<close>

definition write_response :: "response \<Rightarrow> http_answer" where
  "write_response resp = write_answer (marshal_response resp)"

definition get_path :: "string \<Rightarrow> string" where
  "get_path url = url"

text \<open>\<open>getUrlParams\<close>: the first value of every name; \<open>URL.Query\<close> gives no name without one.\<close>

definition get_url_params :: "http_request \<Rightarrow> (string \<times> json) list" where
  "get_url_params r = map (\<lambda>(name, value). (name, JStr (hd value))) (url_query (req_query r))"

text \<open>The handlers that the two loops register, over the handlers of the map \<open>m\<close>.\<close>

definition handle_get ::
  "(handler \<Rightarrow> (string \<times> json) list \<Rightarrow> 'w \<Rightarrow> (response go \<times> 'w) option) \<Rightarrow> (string \<times> action) list
     \<Rightarrow> http_request \<Rightarrow> 'w \<Rightarrow> (http_answer go \<times> 'w) option" where
  "handle_get call m r w =
     (case map_of m (get_path (req_path r)) of
        None \<Rightarrow> Some (Ret (write_response ((pack_response INVALID_METHOD)\<lparr>Action := []\<rparr>)), w)
      | Some h \<Rightarrow>
          (case call (action_handler h) (get_url_params r) w of
             None \<Rightarrow> None
           | Some (Panic p, w) \<Rightarrow> Some (Panic p, w)
           | Some (Ret resp, w) \<Rightarrow> Some (Ret (write_response (resp\<lparr>Action := action_name h\<rparr>)), w)))"

text \<open>
  A body \<open>null\<close> makes \<open>req\<close> the nil map, and the assignment of \<open>req["host"]\<close> panics.
\<close>

definition handle_post ::
  "(handler \<Rightarrow> (string \<times> json) list \<Rightarrow> 'w \<Rightarrow> (response go \<times> 'w) option) \<Rightarrow> (string \<times> action) list
     \<Rightarrow> http_request \<Rightarrow> 'w \<Rightarrow> (http_answer go \<times> 'w) option" where
  "handle_post call m r w =
     (case map_of m (get_path (req_path r)) of
        None \<Rightarrow> Some (Ret (write_response ((pack_response INVALID_METHOD)\<lparr>Action := []\<rparr>)), w)
      | Some h \<Rightarrow>
          let illegal = write_response ((pack_response ILLEGAL_DATAFORMAT)\<lparr>Action := action_name h\<rparr>) in
          case parse_json (req_body r) of
            Inr (JObj req) \<Rightarrow>
              (if iface_ok (JObj req) then
                (case call (action_handler h) (req @ [(''host'', JStr (split_host (RemoteAddr r)))]) w of
                   None \<Rightarrow> None
                 | Some (Panic p, w) \<Rightarrow> Some (Panic p, w)
                 | Some (Ret resp, w) \<Rightarrow> Some (Ret (write_response (resp\<lparr>Action := action_name h\<rparr>)), w))
               else Some (Ret illegal, w))
          | Inr JNull \<Rightarrow> Some (Panic NilMapWrite, w)
          | _ \<Rightarrow> Some (Ret illegal, w))"

text \<open>\<open>ServeHTTP\<close>: what is written; nothing for a client that is not the observer.\<close>

definition serve_http ::
  "btcd \<Rightarrow> 'w multi_sign \<Rightarrow> signer \<Rightarrow> (go_error \<Rightarrow> string) \<Rightarrow> route_handler router \<Rightarrow> http_request \<Rightarrow> 'w
     \<Rightarrow> (http_answer go \<times> 'w) option" where
  "serve_http B multi_sign s T rt r w =
     (if split_host (RemoteAddr r) \<noteq> cliHost rt then Some (Ret no_answer, w)
      else case try_route rt (req_path r) (req_method r) of
          None \<Rightarrow> Some (Ret not_found, w)
        | Some (Panic p) \<Rightarrow> Some (Panic p, w)
        | Some (Ret (GetHandler, params)) \<Rightarrow> handle_get (call_handler B multi_sign s T) get_map r w
        | Some (Ret (PostHandler, params)) \<Rightarrow> handle_post (call_handler B multi_sign s T) post_map r w
        | Some (Ret (OptionsHandler, params)) \<Rightarrow> Some (Ret (write_answer []), w))"

section \<open>Start and stop\<close>

text \<open>
  The network: opening a port, serving until the server fails or is shut down (\<open>None\<close>: forever), and
  the shutdown.
\<close>

record 'w network =
  net_listen :: "string \<Rightarrow> 'w \<Rightarrow> go_error option \<times> 'w"
  net_serve :: "'w \<Rightarrow> (go_error option \<times> 'w) option"
  net_shutdown :: "'w \<Rightarrow> 'w"

text \<open>\<open>has_server\<close>: the field \<open>server\<close> is not nil.\<close>

record rest_server =
  server_router :: "route_handler router"
  port :: u64
  has_server :: bool

definition new_rest_server :: "string \<Rightarrow> u64 \<Rightarrow> rest_server" where
  "new_rest_server cliAddr p = \<lparr>server_router = init_rest_server cliAddr, port = p, has_server = False\<rparr>"

text \<open>
  \<open>Start\<close> up to the call of \<open>Serve\<close>, with the result when it does not come that far. A port 0 is
  only logged: \<open>Start\<close> returns without an error and without serving.
\<close>

definition open_server :: "'w network \<Rightarrow> rest_server \<Rightarrow> 'w \<Rightarrow> go_error option option \<times> rest_server \<times> 'w" where
  "open_server E s w =
     (if port s = 0 then (Some None, s, w)
      else case net_listen E (CHR '':'' # format_uint (port s)) w of
          (Some err, w) \<Rightarrow> (Some (Some err), s, w)
        | (None, w) \<Rightarrow> (None, s\<lparr>has_server := True\<rparr>, w))"

definition start_rest_server :: "'w network \<Rightarrow> rest_server \<Rightarrow> 'w \<Rightarrow> (go_error option \<times> rest_server \<times> 'w) option" where
  "start_rest_server E s w =
     (case open_server E s w of (Some res, s, w) \<Rightarrow> Some (res, s, w)
      | (None, s, w) \<Rightarrow> (case net_serve E w of None \<Rightarrow> None | Some (err, w) \<Rightarrow> Some (err, s, w)))"

definition stop_rest_server :: "'w network \<Rightarrow> rest_server \<Rightarrow> 'w \<Rightarrow> 'w" where
  "stop_rest_server E s w = (if has_server s then net_shutdown E w else w)"

text \<open>\<open>Restart\<close> answers at once; the rest is done by a goroutine, which starts the server again.\<close>

definition restart_rest_server ::
  "'w network \<Rightarrow> rest_server \<Rightarrow> 'w \<Rightarrow> response \<times> (go_error option \<times> rest_server \<times> 'w) option" where
  "restart_rest_server E s w = (pack_response SUCCESS, start_rest_server E s (stop_rest_server E s w))"

section \<open>Facts\<close>

lemma colon_not_in_SIGNTX: "CHR '':'' \<notin> set SIGNTX"
  by (simp add: SIGNTX_def)

lemma try_route_init:
  "try_route (init_rest_server a) SIGNTX ''POST'' = Some (Ret (PostHandler, \<lambda>_. None))"
  "cliHost (init_rest_server a) = a"
  by (simp_all add: try_route_def init_rest_server_def init_get_handler_def init_post_handler_def get_map_def
      post_map_def add_route_def add_post_def add_options_def new_router_def
      path_pattern_plain [OF colon_not_in_SIGNTX] match_plain)

lemma init_routes_ok: "routes_ok (init_rest_server a)"
  by (simp add: init_rest_server_def init_get_handler_def init_post_handler_def get_map_def post_map_def
      add_post_def add_options_def routes_ok_add routes_ok_new)

lemma fold_key_host: "fold_key ''host'' \<noteq> ''raw''"
  by (simp add: lower_char_def)

lemma marshal_map_request:
  "marshal_map [(''raw'', a), (''host'', b)] = [(''host'', valid_json b), (''raw'', valid_json a)]"
proof -
  have "remdups [''raw'', ''host''] = [''raw'', ''host'']" by simp
  moreover have "sort [''raw'', ''host''] = [''host'', ''raw'']" by (simp add: less_char_def less_eq_char_def)
  ultimately show ?thesis unfolding marshal_map_def by simp
qed

lemma parse_params_request: "parse_params [(''raw'', JStr r), (''host'', JStr h)] = Inr \<lparr>Raw = to_valid_utf8 r\<rparr>"
  by (simp add: parse_params_def marshal_map_request decode_raw_def fold_key_ascii Let_def decode_string_def
      del: fold_key.simps)

text \<open>Every description the server sends.\<close>

definition plain_response :: "response \<Rightarrow> bool" where
  "plain_response resp \<longleftrightarrow> Desc resp \<noteq> ''SUCCESS'' \<and> json_ok (Result resp) \<and> iface_ok (Result resp)"

lemma ans_body_write [simp]: "ans_body (write_answer data) = data"
  by (simp add: write_answer_def)

lemma ans_body_response [simp]: "ans_body (write_response resp) = marshal_response resp"
  by (simp add: write_response_def)

lemma plain_response_read:
  "plain_response resp \<Longrightarrow> unmarshal_response (ans_body (write_response resp)) = Inr (valid_response resp)"
  by (simp add: plain_response_def unmarshal_marshal_response)

lemma plain_response_Desc: "plain_response resp \<Longrightarrow> Desc (valid_response resp) \<noteq> ''SUCCESS''"
  using to_valid_ascii [of "Desc resp" "''SUCCESS''"] by (auto simp: plain_response_def valid_response_def)

lemma plain_error_response:
  "plain_response (error_response code (c # d)) \<longleftrightarrow> c # d \<noteq> ''SUCCESS''"
  by (simp add: plain_response_def error_response_def refactor_resp_def)

lemma plain_pack_response: "plain_response (pack_response code)" "plain_response ((pack_response code)\<lparr>Action := a\<rparr>)"
  by (simp_all add: plain_response_def pack_response_def)

lemma plain_Action: "plain_response (resp\<lparr>Action := a\<rparr>) = plain_response resp"
  by (simp add: plain_response_def)

lemma call_handler_plain:
  assumes "call_handler B multi_sign s T h params w = Some (Ret resp, w')"
  shows "plain_response resp"
  using assms
  by (auto simp: call_handler_def sign_tx_def plain_error_response
      split: handler.splits sum.splits option.splits prod.splits go.splits)
    (simp add: plain_response_def refactor_resp_def)

lemma handle_get_plain:
  assumes "handle_get call m r w = Some (Ret ans, w')"
    and "\<And>h params w resp w'. call h params w = Some (Ret resp, w') \<Longrightarrow> plain_response resp"
  shows "\<exists>resp. ans = write_response resp \<and> plain_response resp"
  using assms plain_pack_response plain_Action
  by (auto simp: handle_get_def split: option.splits prod.splits go.splits)

lemma handle_post_plain:
  assumes "handle_post call m r w = Some (Ret ans, w')"
    and "\<And>h params w resp w'. call h params w = Some (Ret resp, w') \<Longrightarrow> plain_response resp"
  shows "\<exists>resp. ans = write_response resp \<and> plain_response resp"
proof (cases "map_of m (get_path (req_path r))")
  case None
  with assms plain_pack_response show ?thesis by (auto simp: handle_post_def)
next
  case (Some h)
  with assms(1) show ?thesis
    using plain_pack_response plain_Action
    by (auto simp: handle_post_def Let_def split: sum.splits json.splits if_splits option.splits prod.splits go.splits
        dest!: assms(2))
qed

text \<open>The client of a query reads the first value of each name.\<close>

lemma get_url_params_first:
  "map_of (get_url_params r) k = map_option JStr (map_of (parse_query (req_query r)) k)"
  using url_query_first [of "req_query r" k]
  by (simp add: get_url_params_def map_of_map option.map_comp flip: url_query_first) (simp add: comp_def)

text \<open>Only the path of \<open>signtx\<close> has handlers, for \<open>POST\<close> and \<open>OPTIONS\<close>.\<close>

lemma try_route_sign_only:
  "try_route (init_rest_server a) path method =
     (if path \<noteq> SIGNTX then None
      else if method = ''POST'' then Some (Ret (PostHandler, \<lambda>_. None))
      else if method = ''OPTIONS'' then Some (Ret (OptionsHandler, \<lambda>_. None)) else None)"
  by (auto simp: try_route_def init_rest_server_def init_get_handler_def init_post_handler_def get_map_def
      post_map_def add_route_def add_post_def add_options_def new_router_def
      path_pattern_plain [OF colon_not_in_SIGNTX] match_plain)

end
