(* ===== verification/Sample_Node.thy ===== *)
theory Sample_Node
  imports Observer_Facts Rest_Server Signer_Properties
begin

text \<open>
  A concrete Poly node for the witnesses of the observer's properties: block 5 holds one transaction
  to sign, block 6 the event that it is signed; the node is at height 5 when it is first asked and
  at height 6 from then on. Its REST service is the signer's server of this development.
\<close>

definition sample_hash_key :: string where
  "sample_hash_key = hex_encode (hash160 sample_btcd [1, 174])"

definition sample_cvt :: "rat \<Rightarrow> u64" where
  "sample_cvt f = 0"

definition sample_tx_text :: "byte \<Rightarrow> string" where
  "sample_tx_text n = hex_encode (sample_encode (Mtx (event_item n)))"

definition to_sign_event :: "byte \<Rightarrow> notify_event" where
  "to_sign_event n = \<lparr>ContractAddress = ''btc'',
     States = IArr [IStr TO_SIGN_TX_KEY, IStr sample_hash_key, IStr (sample_tx_text n), IArr [IFloat 7]]\<rparr>"

definition signed_event :: "byte \<Rightarrow> notify_event" where
  "signed_event n = \<lparr>ContractAddress = ''btc'',
     States = IArr [IStr SIGNED_TX_KEY, INil, INil, IStr (sample_tx_text n), INil, IStr sample_hash_key]\<rparr>"

definition sample_evs :: "u32 \<Rightarrow> contract_event list" where
  "sample_evs h =
     (if h = 5 then [\<lparr>TxHash = ''a'', Notify = [to_sign_event 4]\<rparr>]
      else if h = 6 then [\<lparr>TxHash = ''b'', Notify = [signed_event 4]\<rparr>] else [])"

definition sample_text :: "go_error \<Rightarrow> string" where
  "sample_text e = ''error''"

definition sample_post :: "string \<Rightarrow> string \<Rightarrow> nat \<Rightarrow> (go_error + (go_error + string)) \<times> nat" where
  "sample_post url data w =
     (case serve_http sample_btcd sample_chain sample_signer sample_text (init_rest_server ''10.0.0.1'')
             \<lparr>req_method = ''POST'', req_path = SIGNTX, req_query = [], RemoteAddr = ''10.0.0.1:4000'', req_body = data\<rparr> w of
        None \<Rightarrow> (Inl (Ext ''timeout''), w)
      | Some (Panic p, w) \<Rightarrow> (Inl EOF, w)
      | Some (Ret ans, w) \<Rightarrow> (Inr (Inr (ans_body ans)), w))"

definition sample_node :: "nat node" where
  "sample_node =
     \<lparr>http_post = sample_post,
      current_height = \<lambda>w. (Inr (if w = 0 then 5 else 6), Suc w),
      events_by_block = \<lambda>h w. (Inr (sample_evs h), w),
      read_file = \<lambda>d n w. Inl NotFound,
      write_file = \<lambda>d n b w. (None, w)\<rparr>"

definition sample_observer :: "string option \<Rightarrow> observer" where
  "sample_observer cli = \<lparr>loopWaitTime = 2, WatchingKeyToSign = TO_SIGN_TX_KEY, hashKey = sample_hash_key,
     dbPath = ''./db'', waitingCircle = 300, obCli = map_option new_ob_cli cli, startHeight = 4\<rparr>"

lemma small_event_tx: "small_tx (Mtx (event_item n))"
  by (simp add: small_tx_def event_item_def)

lemma sample_decode_event: "decode_event_tx sample_btcd (sample_tx_text n) = Inr (Mtx (event_item n))"
  using sample_decode_encode [OF small_event_tx [of n]]
  by (simp add: decode_event_tx_def sample_tx_text_def hex_decode_encode) (simp add: sample_btcd_def)

lemma event_keys_differ [simp]: "TO_SIGN_TX_KEY \<noteq> SIGNED_TX_KEY" "SIGNED_TX_KEY \<noteq> TO_SIGN_TX_KEY"
  by (simp_all add: TO_SIGN_TX_KEY_def SIGNED_TX_KEY_def)

lemma sample_capture:
  "notify_action sample_btcd sample_cvt sample_hash_key (States (to_sign_event n)) = Ret (Capture (event_item n))"
proof -
  have "\<lparr>Mtx = Mtx (event_item n), Amts = [7]\<rparr> = event_item n" by (simp add: event_item_def)
  moreover have "float_to_u64 sample_cvt 7 = 7" by (simp add: float_to_u64_def)
  ultimately show ?thesis
    by (simp add: to_sign_event_def notify_action_def index_def string_at_def array_at_def sample_decode_event)
qed

lemma sample_mark:
  "notify_action sample_btcd sample_cvt sample_hash_key (States (signed_event n)) = Ret (MarkDone [1, 0, 1, n])"
proof -
  have "tx_hash sample_btcd (strip_scripts (Mtx (event_item n))) = [1, 0, 1, n]"
    using sample_unsigned_hash [of n] by (simp add: unsigned_hash_def)
  then show ?thesis
    by (simp add: signed_event_def notify_action_def index_def string_at_def sample_decode_event)
qed

lemma sample_block_actions:
  "block_actions sample_btcd sample_cvt (hashKey (sample_observer cli)) sample_evs h
     = Ret (if h = 5 then [Capture (event_item 4)] else if h = 6 then [MarkDone [1, 0, 1, 4]] else [])"
  by (simp add: block_actions_def sample_observer_def sample_evs_def sample_capture sample_mark)

lemma sample_chain_follows: "chain_follows sample_node sample_evs"
  unfolding chain_follows_def
proof (intro allI conjI)
  show "\<exists>n. \<not> is_failed (fst (events_by_block sample_node h (after_calls (events_by_block sample_node h) n w)))" for h w
    by (simp add: sample_node_def is_failed_def)
qed (simp add: sample_node_def)

lemma sample_node_ok: "node_ok sample_node sample_evs (\<lambda>w. if w = 0 then 5 else 6)"
  using sample_chain_follows by (simp add: node_ok_def) (simp add: sample_node_def)

lemma heights_5: "heights 5 6 = [5]" "heights 6 7 = [6]"
  by (simp_all add: heights_def)

text \<open>A disk with one file, for the checkpoint.\<close>

definition disk_node :: "bytes node" where
  "disk_node =
     \<lparr>http_post = \<lambda>url data w. (Inl (Ext ''offline''), w), current_height = \<lambda>w. (Inl (Ext ''offline''), w),
      events_by_block = \<lambda>h w. (Inl (Ext ''offline''), w),
      read_file = \<lambda>d n w. Inr w, write_file = \<lambda>d n b w. (None, b)\<rparr>"

end
