(* ===== verification/Observer_Properties.thy ===== *)
theory Observer_Properties
  imports Sample_Node
begin

text \<open>
  The properties of the observer (\<open>observer/alliaob.go\<close>) and of its REST connection to the
  signer (\<open>rest/\<close>), each with its witness.
\<close>

section \<open>Events\<close>

text \<open>
  C20: With a channel, \<open>checkEvents\<close> sends exactly the transactions that the notifications ask to
  sign, in their order, marks exactly the signed ones done, in their order, and returns the number
  sent; it panics exactly when the first notification that is not in order is reached.
\<close>

theorem check_events_functional:
  assumes "txchan st = Some sent"
  shows "check_events B L N cvt ob events st =
     Some (go_bind (notify_actions B cvt (hashKey ob) (concat (map Notify events)))
       (\<lambda>acts. Ret (length (captures acts),
          st\<lparr>txchan := Some (sent @ captures acts), ob_vdb := mark_all B L (ob_vdb st) (marks acts)\<rparr>)))"
  using check_notifies_channel [OF assms] check_notifies_panics [OF assms]
  by (cases "notify_actions B cvt (hashKey ob) (concat (map Notify events))")
    (simp_all add: check_events_def deliver_def)

theorem check_events_functional_witness:
  "check_events sample_btcd alist_db sample_node sample_cvt (sample_observer None) (sample_evs 5 @ sample_evs 6)
      \<lparr>txchan = Some [], ob_vdb = empty_vdb, world = 0\<rparr>
    = Some (Ret (1, \<lparr>txchan = Some [event_item 4],
                     ob_vdb = mark_all sample_btcd alist_db empty_vdb [[1, 0, 1, 4]], world = 0\<rparr>))"
  by (subst check_events_functional)
    (simp_all add: sample_evs_def sample_observer_def sample_capture sample_mark)

text \<open>
  A notification is in order when the states that are looked at are there and have the types that
  are asserted.
\<close>

definition states_ok :: "btcd \<Rightarrow> string \<Rightarrow> iface \<Rightarrow> bool" where
  "states_ok B key st \<longleftrightarrow>
     (case st of IArr xs \<Rightarrow> xs \<noteq> []
        \<and> (xs ! 0 = IStr TO_SIGN_TX_KEY \<longrightarrow> length xs > 1 \<and> (\<exists>k. xs ! 1 = IStr k)
            \<and> (xs ! 1 = IStr key \<longrightarrow> length xs > 2 \<and> (\<exists>tx. xs ! 2 = IStr tx
                \<and> (\<forall>mtx. decode_event_tx B tx = Inr mtx \<longrightarrow>
                      length xs > 3 \<and> (\<exists>fs. xs ! 3 = IArr (map IFloat fs))))))
        \<and> (xs ! 0 = IStr SIGNED_TX_KEY \<longrightarrow> length xs > 5 \<and> (\<exists>k. xs ! 5 = IStr k)
            \<and> (xs ! 5 = IStr key \<longrightarrow> (\<exists>tx. xs ! 3 = IStr tx)))
      | _ \<Rightarrow> True)"

lemma event_amts_Ret: "(\<exists>amts. event_amts cvt vs = Ret amts) \<longleftrightarrow> (\<exists>fs. vs = map IFloat fs)"
proof
  show "\<exists>amts. event_amts cvt vs = Ret amts \<Longrightarrow> \<exists>fs. vs = map IFloat fs"
  proof (induction vs rule: event_amts.induct)
    case (1 cvt)
    then show ?case by (intro exI [of _ "[]"]) simp
  next
    case (2 cvt f vs)
    then obtain fs where "vs = map IFloat fs" by (auto simp: go_bind_Ret_iff)
    then show ?case by (intro exI [of _ "f # fs"]) simp
  qed simp_all
next
  have "\<exists>amts. event_amts cvt (map IFloat fs) = Ret amts" for fs
    by (induction fs) auto
  then show "\<exists>fs. vs = map IFloat fs \<Longrightarrow> \<exists>amts. event_amts cvt vs = Ret amts" by blast
qed

lemma string_at_Ret: "string_at xs i = Ret s \<longleftrightarrow> i < length xs \<and> xs ! i = IStr s"
  by (auto simp: string_at_def index_def go_bind_Ret_iff split: iface.splits)

lemma array_at_Ret: "array_at xs i = Ret vs \<longleftrightarrow> i < length xs \<and> xs ! i = IArr vs"
  by (auto simp: array_at_def index_def go_bind_Ret_iff split: iface.splits)

definition returns :: "'a go \<Rightarrow> bool" where
  "returns m \<longleftrightarrow> (\<exists>x. m = Ret x)"

lemma returns_simps [simp]:
  "returns (Ret x)" "\<not> returns (Panic p)"
  "returns (go_bind m f) \<longleftrightarrow> (\<exists>x. m = Ret x \<and> returns (f x))"
  "returns (if b then m else m') \<longleftrightarrow> (if b then returns m else returns m')"
  "returns (case r of Inl e \<Rightarrow> m | Inr x \<Rightarrow> g x) \<longleftrightarrow> (case r of Inl e \<Rightarrow> returns m | Inr x \<Rightarrow> returns (g x))"
  by (auto simp: returns_def go_bind_Ret_iff split: sum.split)

lemma index_Ret: "index xs i = Ret x \<longleftrightarrow> i < length xs \<and> xs ! i = x"
  by (auto simp: index_def)

lemma case_sum_ex: "(case r of Inl e \<Rightarrow> True | Inr x \<Rightarrow> P x) \<longleftrightarrow> (\<forall>x. r = Inr x \<longrightarrow> P x)"
  by (auto split: sum.split)

lemma capture_returns:
  "returns (go_bind (array_at xs 3) (\<lambda>vs. go_bind (event_amts cvt vs) (\<lambda>amts. Ret (f amts))))
     \<longleftrightarrow> 3 < length xs \<and> (\<exists>fs. xs ! 3 = IArr (map IFloat fs))"
proof -
  have "returns (go_bind (event_amts cvt vs) (\<lambda>amts. Ret (f amts))) \<longleftrightarrow> (\<exists>fs. vs = map IFloat fs)" for vs
    using event_amts_Ret [of cvt vs] by simp
  then show ?thesis by (simp add: array_at_Ret) blast
qed

lemma string_at_returns:
  "returns (go_bind (string_at xs i) f) \<longleftrightarrow> i < length xs \<and> (\<exists>s. xs ! i = IStr s \<and> returns (f s))"
  by (auto simp: string_at_Ret)

lemma notify_action_returns:
  "returns (notify_action B cvt key (IArr xs)) \<longleftrightarrow> states_ok B key (IArr xs)"
proof -
  note unfold = notify_action_def states_ok_def iface.case
  consider "xs = []" | "xs \<noteq> []" "xs ! 0 = IStr TO_SIGN_TX_KEY" | "xs \<noteq> []" "xs ! 0 = IStr SIGNED_TX_KEY"
    | "xs \<noteq> []" "xs ! 0 \<noteq> IStr TO_SIGN_TX_KEY" "xs ! 0 \<noteq> IStr SIGNED_TX_KEY" by blast
  then show ?thesis
  proof cases
    case 1
    then show ?thesis by (simp add: unfold index_def)
  next
    case 2
    let ?tx = "go_bind (string_at xs 2) (\<lambda>tx. case decode_event_tx B tx of Inl err \<Rightarrow> Ret Skip
        | Inr mtx \<Rightarrow> go_bind (array_at xs 3) (\<lambda>vs. go_bind (event_amts cvt vs) (\<lambda>amts. Ret (Capture \<lparr>Mtx = mtx, Amts = amts\<rparr>))))"
    have tx: "returns ?tx \<longleftrightarrow> 2 < length xs \<and> (\<exists>tx. xs ! 2 = IStr tx
        \<and> (\<forall>mtx. decode_event_tx B tx = Inr mtx \<longrightarrow> 3 < length xs \<and> (\<exists>fs. xs ! 3 = IArr (map IFloat fs))))"
      unfolding string_at_returns returns_simps(5) capture_returns case_sum_ex [symmetric]
      by (simp only: returns_simps(1))
    have "notify_action B cvt key (IArr xs)
        = go_bind (string_at xs 1) (\<lambda>k. if k = key then ?tx else Ret Skip)"
      using 2 by (simp add: notify_action_def index_def)
    then have "returns (notify_action B cvt key (IArr xs)) \<longleftrightarrow>
        1 < length xs \<and> (\<exists>k. xs ! 1 = IStr k \<and> (if k = key then returns ?tx else True))"
      by (simp only: string_at_returns returns_simps(1,4))
    moreover have "states_ok B key (IArr xs) \<longleftrightarrow> 1 < length xs \<and> (\<exists>k. xs ! 1 = IStr k) \<and> (xs ! 1 = IStr key \<longrightarrow> returns ?tx)"
      unfolding tx using 2 by (simp add: states_ok_def)
    ultimately show ?thesis by (cases "xs ! 1") (auto simp del: returns_simps)
  next
    case 3
    let ?tx = "go_bind (string_at xs 3) (\<lambda>tx. case decode_event_tx B tx of Inl err \<Rightarrow> Ret Skip
        | Inr mtx \<Rightarrow> Ret (MarkDone (tx_hash B (strip_scripts mtx))))"
    have tx: "returns ?tx \<longleftrightarrow> 3 < length xs \<and> (\<exists>tx. xs ! 3 = IStr tx)"
      unfolding string_at_returns returns_simps(5)
      by (simp only: returns_simps(1)) (simp split: sum.split)
    have "notify_action B cvt key (IArr xs)
        = go_bind (string_at xs 5) (\<lambda>k. if k = key then ?tx else Ret Skip)"
      using 3 by (simp add: notify_action_def index_def)
    then have "returns (notify_action B cvt key (IArr xs)) \<longleftrightarrow>
        5 < length xs \<and> (\<exists>k. xs ! 5 = IStr k \<and> (if k = key then returns ?tx else True))"
      by (simp only: string_at_returns returns_simps(1,4))
    moreover have "states_ok B key (IArr xs) \<longleftrightarrow> 5 < length xs \<and> (\<exists>k. xs ! 5 = IStr k) \<and> (xs ! 5 = IStr key \<longrightarrow> returns ?tx)"
      unfolding tx using 3 by (auto simp: states_ok_def)
    ultimately show ?thesis by (cases "xs ! 5") (auto simp del: returns_simps)
  next
    case 4
    then show ?thesis by (simp add: unfold index_def)
  qed
qed

text \<open>
  C35: The notifications that crash the observer are exactly those with missing states or states of
  another type; every other value of \<open>States\<close> is handled without panic, undecodable transactions
  included.
\<close>

theorem notify_panics_iff:
  "(\<exists>p. notify_action B cvt key st = Panic p) \<longleftrightarrow> \<not> states_ok B key st"
proof -
  have panic: "(\<exists>p. m = Panic p) \<longleftrightarrow> \<not> returns m" for m :: "event_action go"
    by (cases m) auto
  show ?thesis
    unfolding panic using notify_action_returns
    by (cases st) (auto simp: states_ok_def notify_action_def)
qed

section \<open>Blocks\<close>

text \<open>
  C4: Against a node that follows the chain and whose height only grows, any number of ticks of
  \<open>Listen\<close> comes to an end, and the channel has then received exactly the transactions to sign
  of the blocks after the start height up to the last height seen, each block once and in order; the
  done marks of these blocks have been set, in order.
\<close>

theorem blocks_delivered_once:
  assumes "node_ok N evs f" and "txchan st = Some sent"
    and "\<forall>h. \<exists>acts. block_actions B cvt (hashKey ob) evs h = Ret acts"
    and "start = (if startHeight ob \<noteq> 0 then startHeight ob else get_last_height N ob (world st))"
    and "start \<le> f (world st)" and "listen_begin N ob st = Ret s0"
  shows "\<exists>s. listen_ticks B L N cvt ob n s0 = Some (Ret s) \<and> start \<le> top s
     \<and> (let acts = actions_of B cvt (hashKey ob) evs (heights (Suc (unat start)) (Suc (unat (top s))))
        in txchan s = Some (sent @ captures acts) \<and> ob_vdb s = mark_all B L (ob_vdb st) (marks acts))"
proof -
  have s: "top (listen_start N ob st) = start" "txchan (listen_start N ob st) = Some sent"
    "world (listen_start N ob st) = world st" "ob_vdb (listen_start N ob st) = ob_vdb st"
    using assms(2,4) by (simp_all add: listen_start_def Let_def ob_state.defs listening.defs)
  obtain s' where "listen_ticks B L N cvt ob n (listen_start N ob st) = Some (Ret s')"
    "delivered_upto B L cvt ob evs (listen_start N ob st) s'"
    using ticks_deliver [OF assms(1) s(2) _ assms(3)] s assms(5) by auto
  moreover have "s0 = listen_start N ob st" using assms(6) by (simp add: listen_begin_Ret)
  ultimately show ?thesis using s by (auto simp: delivered_upto_def Let_def)
qed

theorem blocks_delivered_once_witness:
  "\<exists>s0 s. listen_begin sample_node (sample_observer None) \<lparr>txchan = Some [], ob_vdb = empty_vdb, world = 0\<rparr> = Ret s0
     \<and> listen_ticks sample_btcd alist_db sample_node sample_cvt (sample_observer None) 2 s0 = Some (Ret s)
     \<and> 4 \<le> top s"
proof -
  let ?st = "\<lparr>txchan = Some [], ob_vdb = empty_vdb, world = 0 :: nat\<rparr>"
  have "txchan ?st = Some []" by simp
  moreover have "\<forall>h. \<exists>acts. block_actions sample_btcd sample_cvt (hashKey (sample_observer None)) sample_evs h = Ret acts"
    by (simp add: sample_block_actions)
  moreover have "4 = (if startHeight (sample_observer None) \<noteq> 0 then startHeight (sample_observer None)
      else get_last_height sample_node (sample_observer None) (world ?st))"
    by (simp add: sample_observer_def)
  moreover have "(4 :: u32) \<le> (if world ?st = 0 then 5 else 6)" by simp
  moreover have "listen_begin sample_node (sample_observer None) ?st
      = Ret (listen_start sample_node (sample_observer None) ?st)"
    by (simp add: listen_begin_Ret sample_observer_def second_def word_sless_alt)
  ultimately show ?thesis
    using blocks_delivered_once [OF sample_node_ok, of ?st "[]" sample_btcd sample_cvt "sample_observer None" 4 _ alist_db 2]
    by blast
qed

text \<open>
  When the node answers, one tick brings the observer to its height: all blocks up to there are
  delivered.
\<close>

theorem tick_catches_up:
  assumes "node_ok N evs f" and "txchan s = Some sent" and "top s \<le> f (world s)"
    and "\<forall>h. \<exists>acts. block_actions B cvt (hashKey ob) evs h = Ret acts"
    and "fst (current_height N (world s)) = Inr newTop"
  shows "\<exists>s'. listen_tick B L N cvt ob s = Some (Ret s') \<and> top s' = newTop
     \<and> txchan s' = Some (sent @ captures
         (actions_of B cvt (hashKey ob) evs (heights (Suc (unat (top s))) (Suc (unat newTop)))))"
  using tick_delivers [OF assms(1-4)] assms(2,5)
  by (auto simp: delivered_upto_def Let_def)

theorem tick_catches_up_witness:
  "\<exists>s'. listen_tick sample_btcd alist_db sample_node sample_cvt (sample_observer None)
          \<lparr>txchan = Some [], ob_vdb = empty_vdb, world = 0, top = 4, lastRecorded = 4\<rparr> = Some (Ret s')
     \<and> top s' = 5 \<and> txchan s' = Some [event_item 4]"
proof -
  have "fst (current_height sample_node 0) = Inr 5" by (simp add: sample_node_def)
  moreover have "\<forall>h. \<exists>acts. block_actions sample_btcd sample_cvt (hashKey (sample_observer None)) sample_evs h = Ret acts"
    by (simp add: sample_block_actions)
  ultimately show ?thesis
    using tick_catches_up [OF sample_node_ok, where L = alist_db and B = sample_btcd and cvt = sample_cvt
        and ob = "sample_observer None" and newTop = 5 and sent = "[]"
        and s = "\<lparr>txchan = Some [], ob_vdb = empty_vdb, world = 0, top = 4, lastRecorded = 4\<rparr>"]
    by (simp add: heights_5 actions_of_def sample_block_actions)
qed

text \<open>
  C30: The difference \<open>newTop-top <= 0\<close> is taken in unsigned 32 bits, so a node that is behind
  moves the observer back: when the node first answers a lower height and then the old one, the
  blocks in between, which were delivered before, are delivered again.
\<close>

theorem lagging_node_redelivers:
  assumes "chain_follows N evs" and "txchan s = Some sent"
    and "\<forall>h. \<exists>acts. block_actions B cvt (hashKey ob) evs h = Ret acts"
    and "fst (current_height N (world s)) = Inr low" and "low < top s" and "top s \<noteq> - 1"
    and "listen_tick B L N cvt ob s = Some (Ret s1)"
    and "fst (current_height N (world s1)) = Inr (top s)"
  shows "\<exists>s2. top s1 = low \<and> listen_tick B L N cvt ob s1 = Some (Ret s2)
     \<and> txchan s2 = Some (sent @ captures
         (actions_of B cvt (hashKey ob) evs (heights (Suc (unat low)) (Suc (unat (top s))))))"
proof -
  obtain w where w: "current_height N (world s) = (Inr low, w)" using assms(4) by (metis prod.collapse)
  have "unat (top s + 1) = Suc (unat (top s))" by (rule unat_Suc_u32 [OF assms(6)])
  then have "\<not> top s + 1 \<le> low" using assms(5) by (simp add: word_le_nat_alt word_less_nat_alt)
  then have none: "scan_blocks B L N cvt ob (top s + 1) low 0 u = Some (Ret (0, u))" for u
    by (subst scan_blocks.simps) simp
  have ne: "low - top s \<noteq> 0" using assms(5) by simp
  have s1: "top s1 = low" "txchan s1 = Some sent"
    using assms(2,7) w none ne
    by (auto simp: listen_tick_def Let_def with_ob_part_def ob_part_def split: if_splits)
  obtain v where v: "current_height N (world s1) = (Inr (top s), v)" using assms(8) by (metis prod.collapse)
  have "low \<noteq> - 1" using assms(5) word_order.extremum_strict by blast
  then have Suc_low: "unat (low + 1) = Suc (unat low)" by (rule unat_Suc_u32)
  let ?acts = "actions_of B cvt (hashKey ob) evs (heights (Suc (unat low)) (Suc (unat (top s))))"
  obtain w' where "scan_blocks B L N cvt ob (top s1 + 1) (top s) 0 (ob_part (s1\<lparr>world := v\<rparr>)) =
      Some (Ret (length (captures ?acts), (deliver B L (ob_part (s1\<lparr>world := v\<rparr>)) sent ?acts)\<lparr>world := w'\<rparr>))"
    using scan_list_delivers [OF assms(1), of "ob_part (s1\<lparr>world := v\<rparr>)" sent
        "heights (Suc (unat low)) (Suc (unat (top s)))" B cvt ob "\<lambda>u. 0" L 0] assms(3) s1
    unfolding scan_blocks_list [OF assms(6)] by (auto simp: ob_part_def Suc_low)
  moreover have "top s - top s1 \<noteq> 0" using assms(5) s1 by simp
  ultimately obtain s2 where "listen_tick B L N cvt ob s1 = Some (Ret s2)"
    "txchan s2 = Some (sent @ captures ?acts)"
    using tick_state [OF v] by metis
  with s1 show ?thesis by blast
qed

lemma sample_lagging_tick:
  "listen_tick sample_btcd alist_db sample_node sample_cvt (sample_observer None)
      \<lparr>txchan = Some [], ob_vdb = empty_vdb, world = 0, top = 6, lastRecorded = 6\<rparr>
     = Some (Ret \<lparr>txchan = Some [], ob_vdb = empty_vdb, world = 1, top = 5, lastRecorded = 5\<rparr>)"
proof -
  have "scan_blocks B L N cvt ob 7 5 0 u = Some (Ret (0, u))"
    for B and L :: "(bytes \<times> bytes) list leveldb" and N :: "nat node" and cvt ob u
    by (subst scan_blocks.simps) simp
  then show ?thesis
    by (simp add: listen_tick_def Let_def sample_node_def ob_part_def with_ob_part_def sample_observer_def
        set_last_height_def)
qed

theorem lagging_node_redelivers_witness:
  "\<exists>s2. listen_tick sample_btcd alist_db sample_node sample_cvt (sample_observer None)
          \<lparr>txchan = Some [], ob_vdb = empty_vdb, world = 1, top = 5, lastRecorded = 5\<rparr> = Some (Ret s2)"
proof -
  have "fst (current_height sample_node 0) = Inr 5" "fst (current_height sample_node 1) = Inr 6"
    by (simp_all add: sample_node_def)
  moreover have "\<forall>h. \<exists>acts. block_actions sample_btcd sample_cvt (hashKey (sample_observer None)) sample_evs h = Ret acts"
    by (simp add: sample_block_actions)
  ultimately show ?thesis
    using lagging_node_redelivers [OF sample_chain_follows _ _ _ _ _ sample_lagging_tick, of "[]" 5] by auto
qed

text \<open>
  C36: The loop over the blocks counts in 32 bits: once the node reports the height
  \<open>2^32 - 1\<close> the counter wraps to 0 and the loop never ends by itself.
\<close>

theorem largest_height_never_returns:
  "scan_blocks B L N cvt ob h (- 1) toSign st \<noteq> Some (Ret p)"
  by (rule scan_blocks_wraps)

definition files_ok :: "'w node \<Rightarrow> bool" where
  "files_ok N \<longleftrightarrow> (\<forall>d n b w w'. write_file N d n b w = (None, w') \<longrightarrow> read_file N d n w' = Inr b)"

lemma trim_format: "trim_height (format_uint v) = format_uint v"
  unfolding trim_height_def
proof (rule trim_func_id, intro ballI)
  fix c assume "c \<in> set (format_uint v)"
  then have "is_digit c" using format_nat_number [of "unat v"] by (auto simp: format_uint_def list_all_iff)
  then show "\<not> (c = CHR '' '' \<or> (of_char c :: nat) = 10)"
    by (auto simp: is_digit_def digit_value_def Let_def split: if_splits)
qed

lemma checkpoint_read:
  assumes "files_ok N" and "set_last_height N ob h w = (None, w')"
  shows "get_last_height N ob w' = h"
proof -
  have "read_file N (dbPath ob) ''last_height'' w' = Inr (bytes_of (format_uint (ucast h)))"
    using assms by (simp add: files_ok_def set_last_height_def)
  moreover have "parse_uint 32 (trim_height (format_uint (ucast h))) = Inr (ucast h)"
    using parse_uint_format [of 32 "ucast h :: u64"] unat_bounds(2) [of h] by (simp add: trim_format unat_ucast_u64)
  ultimately show ?thesis by (simp add: get_last_height_def ucast_u64_u32 string_of_bytes_of)
qed

text \<open>
  C31: A checkpoint that was written is the height the observer starts from after a restart, so that
  the next block scanned is the one after it; a configured start height takes its place.
\<close>

theorem checkpoint_restored:
  assumes "files_ok N" and "set_last_height N ob h w = (None, w')"
  shows "get_last_height N ob w' = h
     \<and> top (listen_start N ob (st\<lparr>world := w'\<rparr>)) = (if startHeight ob \<noteq> 0 then startHeight ob else h)"
  using checkpoint_read [OF assms] by (simp add: listen_start_def Let_def ob_state.defs listening.defs)

theorem checkpoint_restored_witness:
  "get_last_height disk_node (sample_observer None) (snd (set_last_height disk_node (sample_observer None) 77 [])) = 77"
proof -
  have "files_ok disk_node" by (simp add: files_ok_def disk_node_def)
  moreover have "set_last_height disk_node (sample_observer None) 77 []
      = (None, snd (set_last_height disk_node (sample_observer None) 77 []))"
    by (simp add: set_last_height_def disk_node_def)
  ultimately show ?thesis by (rule conjunct1 [OF checkpoint_restored])
qed

end
