(* ===== verification/Rest_Properties.thy ===== *)
theory Rest_Properties
  imports Sample_Node
begin

text \<open>
  The properties of the REST connection between an observer in mode \<open>onlyob\<close> and a signer in
  mode \<open>onlysig\<close> (\<open>rest/\<close> and \<open>ObCli\<close> in \<open>observer/alliaob.go\<close>), each with
  its witness.
\<close>

text \<open>
  What the server writes for a response, the client reads back as the same response, but for bytes that
  are no UTF-8.
\<close>

theorem response_roundtrip:
  assumes "json_ok (Result resp)" and "iface_ok (Result resp)"
  shows "unmarshal_response (ans_body (write_response resp)) = Inr (valid_response resp)"
  using unmarshal_marshal_response [OF assms] by simp

theorem response_roundtrip_witness:
  "unmarshal_response (ans_body (write_response (error_response INTERNAL_ERROR ''<bad> \"sig\"'')))
     = Inr (error_response INTERNAL_ERROR ''<bad> \"sig\"'')"
  using response_roundtrip [of "error_response INTERNAL_ERROR ''<bad> \"sig\"''"]
  by (simp add: error_response_def refactor_resp_def valid_response_def ACTION_SIGNTX_def)

text \<open>
  C19: The request that \<open>SendToSign\<close> makes for an item in order, coming from the configured host,
  is answered as the local \<open>Sign\<close> of that very item: it hangs, panics or leaves the world as
  \<open>Sign\<close> does, and the error code of the response is 0 exactly when \<open>Sign\<close> reports no error.
\<close>

theorem remote_signing_is_local_signing:
  assumes "to_sign_ok B item" and "serialize_to_sign B item = Inr raw"
    and "split_host from = cli"
    and "r = \<lparr>req_method = ''POST'', req_path = SIGNTX, req_query = [], RemoteAddr = from,
              req_body = marshal_sign_item_req \<lparr>Raw = hex_encode raw\<rparr>\<rparr>"
  shows "case sign B multi_sign s item w of
       None \<Rightarrow> serve_http B multi_sign s T (init_rest_server cli) r w = None
     | Some (Panic p, w') \<Rightarrow> serve_http B multi_sign s T (init_rest_server cli) r w = Some (Panic p, w')
     | Some (Ret err, w') \<Rightarrow>
         (\<exists>ans resp. serve_http B multi_sign s T (init_rest_server cli) r w = Some (Ret ans, w')
            \<and> unmarshal_response (ans_body ans) = Inr resp \<and> Action resp = ACTION_SIGNTX
            \<and> (Error resp = 0 \<longleftrightarrow> err = None))"
proof -
  have body: "parse_json (req_body r) = Inr (JObj [(''raw'', JStr (hex_encode raw))])"
    using assms(4) by (simp add: parse_sign_item_req)
  have item: "deserialize_to_sign B raw = Inr item"
    using tosign.dec_enc_exact [OF assms(1,2)] by simp
  have tx: "sign_tx B multi_sign s T [(''raw'', JStr (hex_encode raw)), (''host'', JStr h)] w =
     (case sign B multi_sign s item w of None \<Rightarrow> None
      | Some (Panic p, w) \<Rightarrow> Some (Panic p, w)
      | Some (Ret (Some err), w) \<Rightarrow>
          Some (Ret (error_response INTERNAL_ERROR (''[Rest] SignTx: sign failed, err: '' @ T err)), w)
      | Some (Ret None, w) \<Rightarrow>
          Some (Ret (refactor_resp \<lparr>Action = ACTION_SIGNTX, Desc = [], Error = 0, Result = JNull\<rparr> 0), w))" for h
    by (simp add: sign_tx_def parse_params_request hex_decode_encode item)
  have serve: "serve_http B multi_sign s T (init_rest_server cli) r w
      = handle_post (call_handler B multi_sign s T) post_map r w"
    using assms(3,4) by (simp add: serve_http_def try_route_init)
  have post: "handle_post (call_handler B multi_sign s T) post_map r w =
     (case sign_tx B multi_sign s T [(''raw'', JStr (hex_encode raw)), (''host'', JStr (split_host from))] w of
        None \<Rightarrow> None | Some (Panic p, w) \<Rightarrow> Some (Panic p, w)
      | Some (Ret resp, w) \<Rightarrow> Some (Ret (write_response (resp\<lparr>Action := ACTION_SIGNTX\<rparr>)), w))"
    using assms(4) by (simp add: handle_post_def call_handler_def post_map_def get_path_def parse_sign_item_req Let_def
        split: option.split go.split)
  have read: "unmarshal_response (marshal_response \<lparr>Action = ACTION_SIGNTX, Desc = d, Error = e, Result = JNull\<rparr>)
      = Inr \<lparr>Action = ACTION_SIGNTX, Desc = to_valid_utf8 d, Error = e, Result = JNull\<rparr>" for d e
    using unmarshal_marshal_response [of "\<lparr>Action = ACTION_SIGNTX, Desc = d, Error = e, Result = JNull\<rparr>"]
    by (simp add: valid_response_def ACTION_SIGNTX_def)
  show ?thesis
    unfolding serve post tx
    by (auto simp: read error_response_def refactor_resp_def INTERNAL_ERROR_def split: option.split go.split)
qed

lemma sample_remote_addr: "split_host ''10.0.0.1:4000'' = ''10.0.0.1''"
  by (simp add: split_host_def after_last_colon_def)

lemma event_to_sign_ok: "to_sign_ok sample_btcd (event_item n)"
  using sample_decode_encode [OF small_event_tx [of n]]
  by (simp add: to_sign_ok_def) (simp add: sample_btcd_def event_item_def sample_encode_def sample_chunk_def)

theorem remote_signing_is_local_signing_witness:
  "\<exists>raw ans resp. serialize_to_sign sample_btcd (event_item 4) = Inr raw
     \<and> serve_http sample_btcd sample_chain sample_signer sample_text (init_rest_server ''10.0.0.1'')
         \<lparr>req_method = ''POST'', req_path = SIGNTX, req_query = [], RemoteAddr = ''10.0.0.1:4000'',
          req_body = marshal_sign_item_req \<lparr>Raw = hex_encode raw\<rparr>\<rparr> 2 = Some (Ret ans, 0)
     \<and> unmarshal_response (ans_body ans) = Inr resp \<and> Error resp = 0"
proof -
  obtain raw where raw: "serialize_to_sign sample_btcd (event_item 4) = Inr raw"
    using tosign.enc_ok [OF event_to_sign_ok] by blast
  have "sign sample_btcd sample_chain sample_signer (event_item 4) 2 = Some (Ret None, 0)"
    using sign_and_submit_accepted [OF sample_signed sample_submit]
    by (simp add: sign_submits sample_key_Ret)
  with remote_signing_is_local_signing [OF event_to_sign_ok raw sample_remote_addr refl,
      where multi_sign = sample_chain and s = sample_signer and w = 2 and T = sample_text] raw
  show ?thesis by auto
qed

section \<open>The answer that the observer waits for\<close>

lemma not_found_rejected: "\<exists>e. unmarshal_response (ans_body not_found) = Inl e"
proof -
  have "skip_ws (ans_body not_found) = CHR ''4'' # ''04 page not found'' @ [CHR 0x0A]"
    by (simp add: not_found_def skip_ws_def is_space_def)
  moreover have "takeWhile num_char (CHR ''4'' # ''04 page not found'' @ [CHR 0x0A]) = ''404''"
    "dropWhile num_char (CHR ''4'' # ''04 page not found'' @ [CHR 0x0A]) = '' page not found'' @ [CHR 0x0A]"
    by (simp_all add: num_char_def is_digit_def digit_value_def)
  moreover have "number_ok ''404''"
    by (simp add: number_ok_def fraction_ok_def drop_sign_def is_digit_def digit_value_def)
  ultimately have "parse_value (2 * length (ans_body not_found) + 1) (ans_body not_found) = Inr (JNum ''404'', '' page not found'' @ [CHR 0x0A])"
    by (simp add: parse_value.simps(2))
  moreover have "skip_ws ('' page not found'' @ [CHR 0x0A]) \<noteq> []" by (simp add: skip_ws_def is_space_def)
  ultimately show ?thesis by (simp add: unmarshal_response_def parse_json_def)
qed

lemma empty_rejected: "\<exists>e. unmarshal_response [] = Inl e"
  by (simp add: unmarshal_response_def parse_json_def parse_value.simps(2) skip_ws_def)

text \<open>Whatever the server writes, its description is not the one the client asks for.\<close>

lemma server_never_success:
  assumes "serve_http B multi_sign s T (init_rest_server cli) r w = Some (Ret ans, w')"
    and "unmarshal_response (ans_body ans) = Inr resp"
  shows "Desc resp \<noteq> ''SUCCESS''"
proof -
  consider "ans_body ans = []" | "ans = not_found"
    | "handle_post (call_handler B multi_sign s T) post_map r w = Some (Ret ans, w')"
    using assms(1) by (auto simp: serve_http_def try_route_sign_only no_answer_def split: if_splits)
  then show ?thesis
  proof cases
    case 3
    then have "\<exists>resp'. ans = write_response resp' \<and> plain_response resp'"
      by (rule handle_post_plain) (rule call_handler_plain)
    then obtain resp' where r: "ans = write_response resp'" "plain_response resp'" by blast
    with plain_response_read [OF r(2)] assms(2) have "resp = valid_response resp'" by simp
    with plain_response_Desc [OF r(2)] show ?thesis by simp
  qed (use assms(2) empty_rejected not_found_rejected in auto)
qed

text \<open>A network on which the bodies come from the server of the signer of \<open>onlysig\<close>.\<close>

definition served_by ::
  "btcd \<Rightarrow> 'v multi_sign \<Rightarrow> signer \<Rightarrow> (go_error \<Rightarrow> string) \<Rightarrow> string \<Rightarrow> 'w node \<Rightarrow> bool" where
  "served_by B multi_sign s T cli N \<longleftrightarrow>
     (\<forall>url data w body. fst (http_post N url data w) = Inr (Inr body) \<longrightarrow>
        (\<exists>r v ans v'. serve_http B multi_sign s T (init_rest_server cli) r v = Some (Ret ans, v') \<and> body = ans_body ans))"

lemma send_to_sign_fails:
  assumes "served_by B multi_sign s T cli N"
  shows "fst (send_to_sign B' N a item w) \<noteq> None"
proof
  assume none: "fst (send_to_sign B' N a item w) = None"
  then obtain url data body w' resp where post: "http_post N url data w = (Inr (Inr body), w')"
    and resp: "unmarshal_response body = Inr resp" "Desc resp = ''SUCCESS''"
    by (auto simp: send_to_sign_def send_request_def split: sum.splits prod.splits if_splits)
  have "fst (http_post N url data w) = Inr (Inr body)" using post by simp
  with assms obtain r v ans v'
    where ans: "serve_http B multi_sign s T (init_rest_server cli) r v = Some (Ret ans, v')" "body = ans_body ans"
    unfolding served_by_def by blast
  from server_never_success [OF ans(1) resp(1) [unfolded ans(2)]] resp(2) show False by simp
qed

text \<open>
  C18: An observer in mode \<open>onlyob\<close> never gets past the first transaction it captures, whatever
  the network and the chain do and however often the transaction is signed: the server leaves the
  description of a success empty, the client takes only \<open>SUCCESS\<close>, and it repeats the request
  forever.
\<close>

theorem onlyob_observer_stuck:
  assumes "served_by B multi_sign s T cli N"
    and "txchan st = None" and "obCli ob = Some c"
    and "notify_action B' cvt (hashKey ob) (States n) = Ret (Capture item)"
  shows "check_notifies B' L N cvt ob (n # ns) st = None"
proof -
  have "retry_send (send_to_sign B' N (cli_addr c) item) (world st) = None"
    unfolding retry_send_def
    by (rule retry_diverges [where P = "\<lambda>w. True"]) (simp_all add: send_to_sign_fails [OF assms(1)])
  with assms(2-4) show ?thesis by (simp add: do_action_def)
qed

lemma sample_served: "served_by sample_btcd sample_chain sample_signer sample_text ''10.0.0.1'' sample_node"
  unfolding served_by_def
proof (intro allI impI)
  fix url data w body assume "fst (http_post sample_node url data w) = Inr (Inr body)"
  then have "fst (sample_post url data w) = Inr (Inr body)" by (simp add: sample_node_def)
  then show "\<exists>r v ans v'. serve_http sample_btcd sample_chain sample_signer sample_text (init_rest_server ''10.0.0.1'') r v
      = Some (Ret ans, v') \<and> body = ans_body ans"
    unfolding sample_post_def by (auto split: option.splits prod.splits go.splits)
qed

theorem onlyob_observer_stuck_witness:
  "check_notifies sample_btcd alist_db sample_node sample_cvt (sample_observer (Some ''10.0.0.2:50071''))
     [to_sign_event 4] \<lparr>txchan = None, ob_vdb = empty_vdb, world = 0\<rparr> = None"
  by (rule onlyob_observer_stuck [OF sample_served, where item = "event_item 4" and c = "new_ob_cli ''10.0.0.2:50071''"])
    (simp_all add: sample_observer_def sample_capture)

end
