(* ===== verification/Web_Service.thy ===== *)
theory Web_Service
  imports Vendor_DB
begin

text \<open>
  \<open>web/service/service.go\<close>: what the web interface does for a vendor: a new key, the redeem
  script, the signatures over a contract binding and over transaction parameters, and their
  registration on the Poly chain. Keys, addresses, scripts, wallets and chain calls of other modules
  are the fields of \<open>web_env\<close>.
\<close>

section \<open>The modules outside\<close>

text \<open>The network parameters; the variable \<open>config.BtcNetParam\<close> is nil at first.\<close>

datatype btc_net = RegressionNet | TestNet3 | MainNet

record account_metadata =
  meta_address :: string
  meta_key_type :: string
  meta_enc_alg :: string
  meta_hash :: string
  meta_key :: bytes
  meta_curve :: string
  meta_salt :: bytes
  meta_label :: string
  meta_pubkey :: string
  meta_sigsch :: string

text \<open>\<open>prot_param\<close> is the map \<open>Param\<close>; a missing key of it reads as the empty string.\<close>

record protected_key =
  prot_address :: string
  prot_alg :: string
  prot_enc_alg :: string
  prot_hash :: string
  prot_key :: bytes
  prot_param :: "string \<Rightarrow> string option"
  prot_salt :: bytes

record utxo =
  Value :: u64

record contract_binded =
  Contract :: bytes
  Ver :: u64

record btc_tx_param_detail =
  PVersion :: u64
  FeeRate :: u64
  MinChange :: u64

text \<open>
  A function that uses network parameters may panic when they are nil. \<open>sign_hash\<close> is the
  ECDSA signature of a key over a hash, serialized; \<open>uint64_bytes\<close> is
  \<open>utils.GetUint64Bytes\<close> of the Poly module.
\<close>

record 'w web_env =
  wal :: wallets
  lib :: btcd
  new_private_key :: "'w \<Rightarrow> (go_error + bytes) \<times> 'w"
  new_wif :: "btc_net option \<Rightarrow> bytes \<Rightarrow> (go_error + string) go"
  pub_compressed :: "bytes \<Rightarrow> bytes"
  new_address_pubkey :: "btc_net option \<Rightarrow> bytes \<Rightarrow> (go_error + string) go"
  p256_from_wif :: "string \<Rightarrow> go_error + bytes"
  p256_public :: "bytes \<Rightarrow> bytes"
  p256_address :: "bytes \<Rightarrow> string"
  encrypt_private_key :: "bytes \<Rightarrow> string \<Rightarrow> bytes \<Rightarrow> go_error + protected_key"
  open_account_wallet :: "string \<Rightarrow> 'w \<Rightarrow> (go_error + string) \<times> 'w"
  import_account :: "string \<Rightarrow> account_metadata \<Rightarrow> 'w \<Rightarrow> go_error option \<times> 'w"
  multisig_script :: "string list \<Rightarrow> u64 \<Rightarrow> go_error + bytes"
  new_address_script_hash :: "btc_net option \<Rightarrow> bytes \<Rightarrow> (go_error + string) go"
  sha256 :: "bytes \<Rightarrow> bytes"
  new_address_witness_script_hash :: "btc_net option \<Rightarrow> bytes \<Rightarrow> (go_error + string) go"
  uint64_bytes :: "u64 \<Rightarrow> bytes"
  sign_hash :: "bytes \<Rightarrow> bytes \<Rightarrow> go_error + bytes"
  register_redeem :: "u64 \<Rightarrow> u64 \<Rightarrow> bytes \<Rightarrow> bytes \<Rightarrow> u64 \<Rightarrow> bytes list \<Rightarrow> account option \<Rightarrow> 'w \<Rightarrow> (go_error + string) \<times> 'w"
  set_btc_tx_param :: "bytes \<Rightarrow> u64 \<Rightarrow> u64 \<Rightarrow> u64 \<Rightarrow> u64 \<Rightarrow> bytes list \<Rightarrow> account option \<Rightarrow> 'w \<Rightarrow> (go_error + string) \<times> 'w"

section \<open>BtcService\<close>

text \<open>\<open>acc\<close> is nil until an account was loaded.\<close>

record btc_service =
  poly :: poly_sdk
  acc :: "account option"

definition new_btc_service :: "poly_sdk \<Rightarrow> btc_service" where
  "new_btc_service p = \<lparr>poly = p, acc = None\<rparr>"

definition gene_privk_and_addr ::
  "'w web_env \<Rightarrow> btc_net option \<Rightarrow> string \<Rightarrow> string \<Rightarrow> 'w \<Rightarrow> (go_error + string \<times> bytes \<times> string) go \<times> 'w" where
  "gene_privk_and_addr E net pwd path w =
     (case new_private_key E w of (Inl err, w) \<Rightarrow> (Ret (Inl err), w)
      | (Inr priv, w) \<Rightarrow>
     (case new_wif E net priv of Panic p \<Rightarrow> (Panic p, w) | Ret (Inl err) \<Rightarrow> (Ret (Inl err), w)
      | Ret (Inr wif) \<Rightarrow>
     (case new_address_pubkey E net (pub_compressed E priv) of Panic p \<Rightarrow> (Panic p, w)
      | Ret (Inl err) \<Rightarrow> (Ret (Inl err), w)
      | Ret (Inr a) \<Rightarrow>
     (case p256_from_wif E wif of Inl err \<Rightarrow> (Ret (Inl err), w)
      | Inr pri \<Rightarrow>
     (case open_account_wallet E path w of (Inl err, w) \<Rightarrow> (Ret (Inl err), w)
      | (Inr wallet, w) \<Rightarrow>
     (let pub = p256_public E pri; b58addr = p256_address E pub in
      case encrypt_private_key E pri b58addr (bytes_of pwd) of Inl err \<Rightarrow> (Ret (Inl err), w)
      | Inr k \<Rightarrow>
     (case import_account E wallet
             \<lparr>meta_address = prot_address k, meta_key_type = prot_alg k, meta_enc_alg = prot_enc_alg k,
              meta_hash = prot_hash k, meta_key = prot_key k,
              meta_curve = (case prot_param k ''curve'' of None \<Rightarrow> [] | Some v \<Rightarrow> v), meta_salt = prot_salt k,
              meta_label = [], meta_pubkey = hex_encode pub, meta_sigsch = ''SHA256withECDSA''\<rparr> w of
        (Some err, w) \<Rightarrow> (Ret (Inl err), w)
      | (None, w) \<Rightarrow> (Ret (Inr (wif, pub_compressed E priv, a)), w))))))))"

text \<open>The loop of \<open>GeneRedeem\<close> over the public keys.\<close>

primrec pubkey_addrs :: "'w web_env \<Rightarrow> btc_net option \<Rightarrow> nat \<Rightarrow> string list \<Rightarrow> (go_error + string list) go" where
  "pubkey_addrs E net i [] = Ret (Inr [])"
| "pubkey_addrs E net i (s # ss) =
     (case hex_decode s of
        Inl err \<Rightarrow> Ret (Inl (Errorf (''no.'' @ format_nat i @ '' pubkey decode to hex error: %v'') err))
      | Inr raw \<Rightarrow>
     (case new_address_pubkey E net raw of Panic p \<Rightarrow> Panic p
      | Ret (Inl err) \<Rightarrow> Ret (Inl (Errorf (''no.'' @ format_nat i @ '' new an AddressPubKey object error: %v'') err))
      | Ret (Inr p) \<Rightarrow>
     (case pubkey_addrs E net (Suc i) ss of Panic p \<Rightarrow> Panic p | Ret (Inl err) \<Rightarrow> Ret (Inl err)
      | Ret (Inr arr) \<Rightarrow> Ret (Inr (p # arr)))))"

record redeem_info =
  redeem_script :: bytes
  redeem_hash :: bytes
  p2sh_addr :: string
  p2wsh_addr :: string

definition gene_redeem :: "'w web_env \<Rightarrow> btc_net option \<Rightarrow> string \<Rightarrow> string \<Rightarrow> (go_error + redeem_info) go" where
  "gene_redeem E net pubkStr reqStr =
     (case parse_uint 64 reqStr of Inl err \<Rightarrow> Ret (Inl err)
      | Inr rn \<Rightarrow>
     (let pubkStrArr = split_comma (trim_space pubkStr) in
      if of_nat (length pubkStrArr) < rn
      then Ret (Inl (Text (''require number '' @ format_uint rn @ '' is bigger than length of pubkeys ''
                           @ format_nat (length pubkStrArr))))
      else case pubkey_addrs E net 0 pubkStrArr of Panic p \<Rightarrow> Panic p | Ret (Inl err) \<Rightarrow> Ret (Inl err)
      | Ret (Inr arr) \<Rightarrow>
     (case multisig_script E arr rn of Inl err \<Rightarrow> Ret (Inl (Errorf ''failed to get a multisig-script: %v'' err))
      | Inr r \<Rightarrow>
     (let rk = hash160 (lib E) r in
      case new_address_script_hash E net r of Panic p \<Rightarrow> Panic p
      | Ret (Inl err) \<Rightarrow> Ret (Inl (Errorf ''failed to new an AddressScriptHash object error: %v'' err))
      | Ret (Inr p2sh) \<Rightarrow>
     (case new_address_witness_script_hash E net (sha256 E r) of Panic p \<Rightarrow> Panic p
      | Ret (Inl err) \<Rightarrow> Ret (Inl (Errorf ''failed to new AddressWitnessScriptHash object error: %v'' err))
      | Ret (Inr p2wsh) \<Rightarrow>
          Ret (Inr \<lparr>redeem_script = r, redeem_hash = rk, p2sh_addr = p2sh, p2wsh_addr = p2wsh\<rparr>))))))"

text \<open>The key of a wallet file.\<close>

definition load_private_key :: "'w web_env \<Rightarrow> string \<Rightarrow> string \<Rightarrow> (go_error + bytes) go" where
  "load_private_key E pf pwd =
     (case get_account_by_password (wal E) pf (bytes_of pwd) of
        Inl err \<Rightarrow> Ret (Inl (Errorf ''[NewSigner] failed to get btc account: %v'' err))
      | Inr btcAcct \<Rightarrow> (case ec_private_key btcAcct of None \<Rightarrow> Panic TypeAssertion | Some key \<Rightarrow> Ret (Inr key)))"

text \<open>What is hashed and signed.\<close>

definition contract_message :: "'w web_env \<Rightarrow> bytes \<Rightarrow> bytes \<Rightarrow> u64 \<Rightarrow> u64 \<Rightarrow> bytes" where
  "contract_message E r c chainId ver =
     r @ uint64_bytes E 1 @ c @ uint64_bytes E chainId @ uint64_bytes E ver"

definition sign_contract ::
  "'w web_env \<Rightarrow> string \<Rightarrow> string \<Rightarrow> string \<Rightarrow> string \<Rightarrow> u64 \<Rightarrow> u64 \<Rightarrow> (go_error + bytes) go" where
  "sign_contract E pf pwd contract rdm chainId ver =
     (case load_private_key E pf pwd of Panic p \<Rightarrow> Panic p | Ret (Inl err) \<Rightarrow> Ret (Inl err)
      | Ret (Inr key) \<Rightarrow>
     (case hex_decode (remove_0x contract) of Inl err \<Rightarrow> Ret (Inl err)
      | Inr c \<Rightarrow>
     (case hex_decode rdm of Inl err \<Rightarrow> Ret (Inl (Errorf ''failed to decode redeem: %v'' err))
      | Inr r \<Rightarrow> Ret (sign_hash E key (hash160 (lib E) (contract_message E r c chainId ver))))))"

primrec decode_sigs :: "nat \<Rightarrow> string list \<Rightarrow> go_error + bytes list" where
  "decode_sigs i [] = Inr []"
| "decode_sigs i (s # ss) =
     (case hex_decode s of
        Inl err \<Rightarrow> Inl (Errorf (''no.'' @ format_nat i @ '' sig is failed decode into hex: %v'') err)
      | Inr raw \<Rightarrow> (case decode_sigs (Suc i) ss of Inl err \<Rightarrow> Inl err | Inr sigArr \<Rightarrow> Inr (raw # sigArr)))"

definition set_contract ::
  "'w web_env \<Rightarrow> account option \<Rightarrow> string \<Rightarrow> string \<Rightarrow> string \<Rightarrow> u64 \<Rightarrow> u64 \<Rightarrow> 'w \<Rightarrow> (go_error + string) \<times> 'w" where
  "set_contract E a contract rdm sigs ver chainId w =
     (case hex_decode (remove_0x contract) of Inl err \<Rightarrow> (Inl err, w)
      | Inr c \<Rightarrow>
     (case hex_decode rdm of Inl err \<Rightarrow> (Inl (Errorf ''failed to decode redeem: %v'' err), w)
      | Inr r \<Rightarrow>
     (case decode_sigs 0 (split_comma sigs) of Inl err \<Rightarrow> (Inl err, w)
      | Inr sigArr \<Rightarrow> register_redeem E 1 chainId r c ver sigArr a w)))"

definition param_message :: "'w web_env \<Rightarrow> bytes \<Rightarrow> u64 \<Rightarrow> u64 \<Rightarrow> u64 \<Rightarrow> bytes" where
  "param_message E r fr mc ver =
     r @ uint64_bytes E 1 @ uint64_bytes E fr @ uint64_bytes E mc @ uint64_bytes E ver"

definition sign_param ::
  "'w web_env \<Rightarrow> u64 \<Rightarrow> u64 \<Rightarrow> u64 \<Rightarrow> string \<Rightarrow> string \<Rightarrow> string \<Rightarrow> (go_error + bytes) go" where
  "sign_param E fr mc ver rdm pf pwd =
     (case load_private_key E pf pwd of Panic p \<Rightarrow> Panic p | Ret (Inl err) \<Rightarrow> Ret (Inl err)
      | Ret (Inr key) \<Rightarrow>
     (case hex_decode rdm of Inl err \<Rightarrow> Ret (Inl (Errorf ''failed to decode redeem: %v'' err))
      | Inr r \<Rightarrow> Ret (sign_hash E key (hash160 (lib E) (param_message E r fr mc ver)))))"

definition set_param ::
  "'w web_env \<Rightarrow> account option \<Rightarrow> u64 \<Rightarrow> u64 \<Rightarrow> u64 \<Rightarrow> string \<Rightarrow> string \<Rightarrow> 'w \<Rightarrow> (go_error + string) \<times> 'w" where
  "set_param E a fr mc ver rdm sigs w =
     (case hex_decode rdm of Inl err \<Rightarrow> (Inl (Errorf ''failed to decode redeem: %v'' err), w)
      | Inr r \<Rightarrow>
     (case decode_sigs 0 (split_comma sigs) of Inl err \<Rightarrow> (Inl err, w)
      | Inr sigArr \<Rightarrow> set_btc_tx_param E r 1 fr mc ver sigArr a w))"

section \<open>DbService\<close>

record 'd db_service =
  service_vdb :: "'d vendor_db"

definition new_db_service :: "'d vendor_db \<Rightarrow> 'd db_service" where
  "new_db_service v = \<lparr>service_vdb = v\<rparr>"

definition get_tx_arr_to_show :: "'d db_service \<Rightarrow> saved_item list" where
  "get_tx_arr_to_show s = []"

section \<open>Facts\<close>

lemma decode_sigs_Inr: "decode_sigs i ss = Inr bs \<longleftrightarrow> map hex_decode ss = map Inr bs"
proof (induction ss arbitrary: i bs)
  case IH: (Cons s ss)
  show ?case
  proof (cases bs)
    case Nil
    then show ?thesis by (simp split: sum.split)
  next
    case (Cons b bs')
    have "decode_sigs i (s # ss) = Inr (b # bs') \<longleftrightarrow> hex_decode s = Inr b \<and> decode_sigs (Suc i) ss = Inr bs'"
      by (cases "decode_sigs (Suc i) ss") (auto split: sum.split)
    then show ?thesis using IH.IH [of "Suc i" bs'] Cons by (simp del: decode_sigs.simps)
  qed
qed auto

lemma decode_sigs_join:
  assumes "sigs \<noteq> []"
  shows "decode_sigs i (split_comma (hex_encode (hd sigs) @ concat (map (\<lambda>p. CHR '','' # p) (map hex_encode (tl sigs))))) = Inr sigs"
proof -
  have digit: "CHR '','' \<noteq> hex_digit n" if "n < 16" for n
  proof -
    have "\<forall>n \<in> set [0..<16]. CHR '','' \<noteq> hex_digit n" by (simp add: upt_rec hex_digit_def)
    with that show ?thesis by simp
  qed
  have comma: "CHR '','' \<notin> set (hex_encode b)" for b
    by (induction b) (simp_all add: hex_encode_def digit nibbles)
  have "split_comma (hex_encode (hd sigs) @ concat (map (\<lambda>p. CHR '','' # p) (map hex_encode (tl sigs))))
      = hex_encode (hd sigs) # map hex_encode (tl sigs)"
    by (rule split_comma_join) (use comma in auto)
  also have "\<dots> = map hex_encode sigs" using assms by (cases sigs) simp_all
  finally show ?thesis by (simp add: decode_sigs_Inr hex_decode_encode comp_def)
qed

end
