(* ===== verification/Vendor_Config.thy ===== *)
theory Vendor_Config
  imports Rest_Common
begin

text \<open>
  \<open>config/config.go\<close>: the configuration, its file, and how it is loaded and saved. The signed
  numbers are two's complement words (\<open>int\<close> has 64 bits).
\<close>

section \<open>The configuration\<close>

record config =
  PolyJsonRpcAddress :: string
  WalletFile :: string
  WalletPwd :: string
  BtcWalletPwd :: string
  PolyObLoopWaitTime :: u64
  BtcPrivkFile :: string
  ConfWatchingKey :: string
  ConfigBitcoinNet :: string
  ConfigDBPath :: string
  RestPort :: u64
  SleepTime :: u64
  CircleToSaveHeight :: u32
  Redeem :: string
  SignerAddr :: string
  ObServerAddr :: string
  PolyStartHeight :: u32
  WebServerPort :: string

text \<open>\<open>&Config{}\<close>.\<close>

definition zero_config :: config where
  "zero_config = \<lparr>PolyJsonRpcAddress = [], WalletFile = [], WalletPwd = [], BtcWalletPwd = [], PolyObLoopWaitTime = 0,
     BtcPrivkFile = [], ConfWatchingKey = [], ConfigBitcoinNet = [], ConfigDBPath = [], RestPort = 0, SleepTime = 0,
     CircleToSaveHeight = 0, Redeem = [], SignerAddr = [], ObServerAddr = [], PolyStartHeight = 0, WebServerPort = []\<rparr>"

section \<open>Numbers\<close>

definition is_negative :: "u64 \<Rightarrow> bool" where
  "is_negative v \<longleftrightarrow> 2 ^ 63 \<le> v"

text \<open>\<open>strconv.FormatInt(v, 10)\<close>.\<close>

definition format_int :: "u64 \<Rightarrow> string" where
  "format_int v = (if is_negative v then CHR ''-'' # format_uint (- v) else format_uint v)"

definition decode_uint64 :: "json \<Rightarrow> u64 \<Rightarrow> go_error + u64" where
  "decode_uint64 j old =
     (case j of JNum lit \<Rightarrow> (case parse_uint 64 lit of Inl e \<Rightarrow> Inl type_error | Inr n \<Rightarrow> Inr n)
      | JNull \<Rightarrow> Inr old | _ \<Rightarrow> Inl type_error)"

definition decode_int64 :: "json \<Rightarrow> u64 \<Rightarrow> go_error + u64" where
  "decode_int64 j old =
     (case j of JNum lit \<Rightarrow> (case parse_int lit of Inl e \<Rightarrow> Inl type_error | Inr n \<Rightarrow> Inr n)
      | JNull \<Rightarrow> Inr old | _ \<Rightarrow> Inl type_error)"

lemma format_nat_hd: "format_nat n = c # t \<Longrightarrow> c \<noteq> CHR ''-'' \<and> c \<noteq> CHR ''+''"
  using format_nat_number [of n] by (auto simp: is_digit_def digit_value_def)

lemma parse_int_format: "parse_int (format_int v) = Inr v"
proof -
  have word: "parse_uint 64 (format_uint n) = Inr n" for n by (rule parse_uint_format) simp_all
  show ?thesis
  proof (cases "is_negative v")
    case True
    then have v: "2 ^ 63 \<le> uint v" by (simp add: is_negative_def word_le_def)
    moreover have "uint v < 2 ^ 64" using uint_bounded [of v] by simp
    moreover from v have "uint (- v) = (if uint v mod 2 ^ 64 = 0 then 0 else 2 ^ 64 - uint v mod 2 ^ 64)"
      by (simp add: uint_word_ariths zmod_zminus1_eq_if)
    ultimately have "\<not> 2 ^ 63 < - v"
      by (simp add: word_less_def split: if_splits)
    with True show ?thesis by (simp add: parse_int_def format_int_def word Let_def)
  next
    case False
    obtain c t where s: "format_uint v = c # t"
      using format_nat_number [of "unat v"] by (cases "format_uint v") (auto simp: format_uint_def)
    with format_nat_hd [of "unat v" c t] have "c \<noteq> CHR ''-''" "c \<noteq> CHR ''+''" by (simp_all add: format_uint_def)
    moreover have "(9223372036854775808 \<le> v) = False" using False by (simp add: is_negative_def not_le)
    ultimately show ?thesis using False s word [of v] by (simp add: parse_int_def format_int_def Let_def)
  qed
qed

lemma number_ok_format_int: "number_ok (format_int v)" "list_all num_char (format_int v)"
proof -
  have "number_ok (CHR ''-'' # format_nat n)" for n
  proof -
    obtain c t where s: "format_nat n = c # t" using format_nat_number [of n] by (cases "format_nat n") auto
    with number_ok_format(1) [of n] format_nat_hd [of n c t] show ?thesis
      by (simp add: number_ok_def drop_sign_def)
  qed
  then show "number_ok (format_int v)" by (simp add: format_int_def format_uint_def number_ok_format)
  show "list_all num_char (format_int v)"
    by (simp add: format_int_def format_uint_def number_ok_format) (simp add: num_char_def)
qed

section \<open>Indented objects\<close>

text \<open>
  \<open>json.MarshalIndent\<close> with a tab, of a struct whose fields are strings and numbers: one member a
  line.
\<close>

definition new_line :: string where
  "new_line = [CHR 0x0A, CHR 0x09]"

fun indent_members :: "(string \<times> json) list \<Rightarrow> string" where
  "indent_members [] = []"
| "indent_members [(k, j)] = new_line @ print_string k @ '': '' @ print_json j"
| "indent_members ((k, j) # kv # kvs) =
     new_line @ print_string k @ '': '' @ print_json j @ CHR '','' # indent_members (kv # kvs)"

definition marshal_indent :: "(string \<times> json) list \<Rightarrow> string" where
  "marshal_indent kvs = CHR ''{'' # indent_members kvs @ [CHR 0x0A, CHR ''}'']"

lemma skip_space: "is_space c \<Longrightarrow> skip_ws (c # s) = skip_ws s"
  by (simp add: skip_ws_def)

lemma space_chars: "is_space (CHR 0x0A)" "is_space (CHR 0x09)" "is_space (CHR '' '')"
  by (simp_all add: is_space_def)

lemma skip_new_line: "skip_ws (new_line @ s) = skip_ws s"
  by (simp add: new_line_def skip_space space_chars)

lemma parse_value_space: "is_space c \<Longrightarrow> parse_value n (c # s) = parse_value n s"
  by (cases n) (simp_all add: parse_value.simps(2) skip_space)

lemma parse_members_indented:
  assumes "kvs \<noteq> []" "\<forall>kv \<in> set kvs. json_ok (snd kv)" "2 * length (indent_members kvs) < n"
  shows "parse_members n (indent_members kvs @ CHR 0x0A # CHR ''}'' # r) = Inr (map valid_member kvs, r)"
  using assms
proof (induction kvs arbitrary: n rule: indent_members.induct)
  case (2 k j)
  then obtain m where n: "n = Suc m" by (cases n) auto
  have "parse_value m (print_json j @ CHR 0x0A # CHR ''}'' # r) = Inr (valid_json j, CHR 0x0A # CHR ''}'' # r)"
    using 2 n by (intro parse_printed) (auto simp: num_char_def is_digit_def digit_value_def)
  then show ?case
    by (simp add: n parse_members.simps(2) skip_new_line skip_space space_chars skip_ws_char print_string_def
        parse_chars_printed parse_value_space)
next
  case (3 k j kv kvs)
  then obtain m where n: "n = Suc m" by (cases n) auto
  let ?rest = "indent_members (kv # kvs)"
  have "parse_value m (print_json j @ CHR '','' # ?rest @ CHR 0x0A # CHR ''}'' # r)
      = Inr (valid_json j, CHR '','' # ?rest @ CHR 0x0A # CHR ''}'' # r)"
    using "3.prems" n by (intro parse_printed) auto
  moreover have "parse_members m (?rest @ CHR 0x0A # CHR ''}'' # r) = Inr (map valid_member (kv # kvs), r)"
    using "3.prems" n by (intro "3.IH") auto
  ultimately show ?case
    by (simp add: n parse_members.simps(2) skip_new_line skip_space space_chars skip_ws_char print_string_def
        parse_chars_printed parse_value_space)
qed simp

lemma parse_marshal_indent:
  assumes "kvs \<noteq> []" "\<forall>kv \<in> set kvs. json_ok (snd kv)"
  shows "parse_json (marshal_indent kvs) = Inr (JObj (map valid_member kvs))"
proof -
  obtain n where n: "2 * length (marshal_indent kvs) + 1 = Suc n" "2 * length (indent_members kvs) < n"
    by (simp add: marshal_indent_def)
  have "\<not> next_is (CHR ''}'') (indent_members kvs @ [CHR 0x0A, CHR ''}''])"
    using assms(1) by (cases kvs rule: indent_members.cases) (simp_all add: next_is_def skip_new_line print_string_def skip_ws_char)
  with parse_members_indented [OF assms n(2), of "[]"]
  have "parse_value (Suc n) (marshal_indent kvs) = Inr (JObj (map valid_member kvs), [])"
    by (simp add: marshal_indent_def parse_value.simps(2) skip_ws_char)
  then show ?thesis unfolding parse_json_def n(1) by (simp add: skip_ws_def)
qed

section \<open>Fields\<close>

text \<open>The type of a field, with its selector and its update.\<close>

datatype config_field =
    StringField "config \<Rightarrow> string" "(string \<Rightarrow> string) \<Rightarrow> config \<Rightarrow> config"
  | Int64Field "config \<Rightarrow> u64" "(u64 \<Rightarrow> u64) \<Rightarrow> config \<Rightarrow> config"
  | Uint64Field "config \<Rightarrow> u64" "(u64 \<Rightarrow> u64) \<Rightarrow> config \<Rightarrow> config"
  | Uint32Field "config \<Rightarrow> u32" "(u32 \<Rightarrow> u32) \<Rightarrow> config \<Rightarrow> config"

definition config_fields :: "(string \<times> config_field) list" where
  "config_fields =
     [(''PolyJsonRpcAddress'', StringField PolyJsonRpcAddress PolyJsonRpcAddress_update),
      (''WalletFile'', StringField WalletFile WalletFile_update),
      (''WalletPwd'', StringField WalletPwd WalletPwd_update),
      (''BtcWalletPwd'', StringField BtcWalletPwd BtcWalletPwd_update),
      (''PolyObLoopWaitTime'', Int64Field PolyObLoopWaitTime PolyObLoopWaitTime_update),
      (''BtcPrivkFile'', StringField BtcPrivkFile BtcPrivkFile_update),
      (''WatchingKeyToSign'', StringField ConfWatchingKey ConfWatchingKey_update),
      (''ConfigBitcoinNet'', StringField ConfigBitcoinNet ConfigBitcoinNet_update),
      (''ConfigDBPath'', StringField ConfigDBPath ConfigDBPath_update),
      (''RestPort'', Uint64Field RestPort RestPort_update),
      (''SleepTime'', Int64Field SleepTime SleepTime_update),
      (''CircleToSaveHeight'', Uint32Field CircleToSaveHeight CircleToSaveHeight_update),
      (''Redeem'', StringField Redeem Redeem_update),
      (''SignerAddr'', StringField SignerAddr SignerAddr_update),
      (''ObServerAddr'', StringField ObServerAddr ObServerAddr_update),
      (''PolyStartHeight'', Uint32Field PolyStartHeight PolyStartHeight_update),
      (''WebServerPort'', StringField WebServerPort WebServerPort_update)]"

primrec encode_field :: "config_field \<Rightarrow> config \<Rightarrow> json" where
  "encode_field (StringField get upd) c = JStr (get c)"
| "encode_field (Int64Field get upd) c = JNum (format_int (get c))"
| "encode_field (Uint64Field get upd) c = JNum (format_uint (get c))"
| "encode_field (Uint32Field get upd) c = JNum (format_nat (unat (get c)))"

definition store_field :: "(('a \<Rightarrow> 'a) \<Rightarrow> config \<Rightarrow> config) \<Rightarrow> config \<Rightarrow> go_error + 'a \<Rightarrow> go_error + config" where
  "store_field upd c res = (case res of Inl e \<Rightarrow> Inl e | Inr v \<Rightarrow> Inr (upd (\<lambda>_. v) c))"

primrec decode_field :: "config_field \<Rightarrow> json \<Rightarrow> config \<Rightarrow> go_error + config" where
  "decode_field (StringField get upd) j c = store_field upd c (decode_string j (get c))"
| "decode_field (Int64Field get upd) j c = store_field upd c (decode_int64 j (get c))"
| "decode_field (Uint64Field get upd) j c = store_field upd c (decode_uint64 j (get c))"
| "decode_field (Uint32Field get upd) j c = store_field upd c (decode_uint32 j (get c))"

definition field_named :: "string \<Rightarrow> config_field option" where
  "field_named k = map_option snd (find (\<lambda>nf. fold_key (fst nf) = fold_key k) config_fields)"

definition decode_config_member :: "string \<times> json \<Rightarrow> config \<times> go_error option \<Rightarrow> config \<times> go_error option" where
  "decode_config_member kv st =
     (let (c, err) = st in
      case field_named (fst kv) of None \<Rightarrow> (c, err)
      | Some f \<Rightarrow> (case decode_field f (snd kv) c of Inl e \<Rightarrow> (c, keep_error err e) | Inr c \<Rightarrow> (c, err)))"

definition unmarshal_config :: "string \<Rightarrow> config \<Rightarrow> config \<times> go_error option" where
  "unmarshal_config data c =
     (case parse_json data of Inl e \<Rightarrow> (c, Some e)
      | Inr (JObj kvs) \<Rightarrow> fold decode_config_member kvs (c, None)
      | Inr JNull \<Rightarrow> (c, None)
      | Inr _ \<Rightarrow> (c, Some type_error))"

definition marshal_config :: "config \<Rightarrow> string" where
  "marshal_config c = marshal_indent (map (\<lambda>(n, f). (n, encode_field f c)) config_fields)"

section \<open>Files\<close>

text \<open>Opening a file fails, or gives it, and then reading it may fail.\<close>

record 'w files =
  open_read :: "string \<Rightarrow> 'w \<Rightarrow> go_error + (go_error + bytes)"
  write_conf :: "string \<Rightarrow> bytes \<Rightarrow> 'w \<Rightarrow> go_error option \<times> 'w"

definition config_read_file :: "'w files \<Rightarrow> string \<Rightarrow> 'w \<Rightarrow> go_error + bytes" where
  "config_read_file F fileName w =
     (case open_read F fileName w of
        Inl err \<Rightarrow> Inl (Errorf (''OpenFile '' @ fileName @ '' error %s'') err)
      | Inr (Inl err) \<Rightarrow> Inl (Errorf (''ioutil.ReadAll '' @ fileName @ '' error %s'') err)
      | Inr (Inr data) \<Rightarrow> Inr data)"

definition load_config :: "'w files \<Rightarrow> string \<Rightarrow> 'w \<Rightarrow> config \<Rightarrow> config \<times> go_error option" where
  "load_config F fileName w c =
     (case config_read_file F fileName w of Inl err \<Rightarrow> (c, Some err)
      | Inr data \<Rightarrow>
          (case unmarshal_config (string_of data) c of
             (c, None) \<Rightarrow> (c, None)
           | (c, Some err) \<Rightarrow>
               (c, Some (Errorf (''json.Unmarshal TestConfig:'' @ string_of data @ '' error:%s'') err))))"

definition config_init :: "'w files \<Rightarrow> string \<Rightarrow> 'w \<Rightarrow> config \<Rightarrow> config \<times> go_error option" where
  "config_init F fileName w c =
     map_prod id (map_option (Errorf ''loadConfig error:%s'')) (load_config F fileName w c)"

definition new_config :: "'w files \<Rightarrow> string \<Rightarrow> 'w \<Rightarrow> config \<times> go_error option" where
  "new_config F file w =
     map_prod id (map_option (Errorf ''failed to new config: %v'')) (config_init F file w zero_config)"

definition save_config :: "'w files \<Rightarrow> string \<Rightarrow> config \<Rightarrow> 'w \<Rightarrow> go_error option \<times> 'w" where
  "save_config F fileName c w =
     (case write_conf F fileName (bytes_of (marshal_config c)) w of
        (err, w) \<Rightarrow> (map_option (Errorf ''failed to write conf file: %v'') err, w))"

section \<open>Facts\<close>

lemma config_field_names:
  "map (\<lambda>nf. fold_key (fst nf)) config_fields =
     [''polyjsonrpcaddress'', ''walletfile'', ''walletpwd'', ''btcwalletpwd'', ''polyobloopwaittime'', ''btcprivkfile'',
      ''watchingkeytosign'', ''configbitcoinnet'', ''configdbpath'', ''restport'', ''sleeptime'', ''circletosaveheight'',
      ''redeem'', ''signeraddr'', ''observeraddr'', ''polystartheight'', ''webserverport'']"
  by (simp add: config_fields_def lower_char_def) code_simp

lemma find_distinct:
  "distinct (map g xs) \<Longrightarrow> x \<in> set xs \<Longrightarrow> find (\<lambda>y. g y = g x) xs = Some x"
  by (induction xs) (auto simp: image_iff)

lemma field_named_self: "(n, f) \<in> set config_fields \<Longrightarrow> field_named n = Some f"
proof -
  assume mem: "(n, f) \<in> set config_fields"
  have "distinct (map (\<lambda>nf. fold_key (fst nf)) config_fields)" unfolding config_field_names by simp
  from find_distinct [OF this mem] show ?thesis by (simp add: field_named_def)
qed

lemma decode_encode_field:
  "decode_field f (encode_field f c) z = Inr (case f of
     StringField get upd \<Rightarrow> upd (\<lambda>_. get c) z | Int64Field get upd \<Rightarrow> upd (\<lambda>_. get c) z
   | Uint64Field get upd \<Rightarrow> upd (\<lambda>_. get c) z | Uint32Field get upd \<Rightarrow> upd (\<lambda>_. get c) z)"
  by (cases f) (simp_all add: store_field_def decode_string_def decode_int64_def decode_uint64_def decode_uint32_def
      parse_int_format parse_uint_format parse_uint32_format ucast_u64_u32)

lemma encode_field_ok: "json_ok (encode_field f c)"
  by (cases f) (simp_all add: number_ok_format number_ok_format_int format_uint_def)

end
