(* ===== verification/Web_Controller.thy ===== *)
theory Web_Controller
  imports Web_Service Vendor_Config
begin

text \<open>
  \<open>web/controller/controller.go\<close> and \<open>web/router/router.go\<close>: the pages of the web
  interface. A handler takes the form of the request and the state of the tool to the page it shows
  and the new state. A panic is recovered by the web framework, with the state it left. \<open>T\<close> is
  the text of an error. The pages of the two branches of the interface (first start, and the
  function pages) have the same code but for the template, so they are instances of one definition.
\<close>

section \<open>Pages and state\<close>

datatype page_value = PText string | PNum u64

record page =
  page_status :: nat
  template :: string
  page_data :: "(string \<times> page_value) list"

definition message_page :: "nat \<Rightarrow> string \<Rightarrow> string \<Rightarrow> page" where
  "message_page code tm msg = \<lparr>page_status = code, template = tm, page_data = [(''data'', PText msg)]\<rparr>"

definition error_page :: "nat \<Rightarrow> string \<Rightarrow> string \<Rightarrow> page" where
  "error_page code tm msg = \<lparr>page_status = code, template = tm, page_data = [(''error'', PText msg)]\<rparr>"

definition nl :: string where
  "nl = [CHR 0x0A]"

text \<open>The controller, with the global \<open>config.BtcNetParam\<close>.\<close>

record 'w web_state =
  conf :: config
  bs :: btc_service
  net_param :: "btc_net option"
  web_world :: 'w

type_synonym form = "string \<Rightarrow> string option"
type_synonym 'w web_step = "'w web_state \<Rightarrow> page go \<times> 'w web_state"

text \<open>What the status page reads from the chain.\<close>

record 'w store_env =
  get_storage :: "string \<Rightarrow> bytes \<Rightarrow> 'w \<Rightarrow> (go_error + bytes option) \<times> 'w"
  ccm_address :: string
  scm_address :: string
  UTXOS :: bytes
  REDEEM_BIND :: bytes
  BTC_TX_PARAM :: bytes
  decode_utxos :: "bytes \<Rightarrow> go_error + utxo list"
  decode_binded :: "bytes option \<Rightarrow> contract_binded"
  decode_param :: "bytes option \<Rightarrow> btc_tx_param_detail"
  header_chain_id :: "string \<Rightarrow> go_error + u64"

section \<open>Fields\<close>

definition field :: "form \<Rightarrow> string \<Rightarrow> string \<Rightarrow> string \<Rightarrow> (string \<Rightarrow> 'w web_step) \<Rightarrow> 'w web_step" where
  "field form key tm msg k s =
     (case form key of None \<Rightarrow> (Ret (message_page 400 tm msg), s) | Some v \<Rightarrow> k v s)"

definition number :: "(go_error \<Rightarrow> string) \<Rightarrow> string \<Rightarrow> string \<Rightarrow> (u64 \<Rightarrow> 'w web_step) \<Rightarrow> 'w web_step" where
  "number T tm v k s =
     (case parse_uint 64 v of Inl err \<Rightarrow> (Ret (message_page 200 tm (''wrong number format: '' @ T err)), s)
      | Inr n \<Rightarrow> k n s)"

text \<open>\<open>if ok && v != "" { ... }\<close>.\<close>

definition when_set :: "string option \<Rightarrow> (string \<Rightarrow> 'a \<Rightarrow> 'a) \<Rightarrow> 'a \<Rightarrow> 'a" where
  "when_set v f x = (case v of None \<Rightarrow> x | Some t \<Rightarrow> if t \<noteq> [] then f t x else x)"

definition set_conf :: "(config \<Rightarrow> config) \<Rightarrow> 'w web_state \<Rightarrow> 'w web_state" where
  "set_conf f s = s\<lparr>conf := f (conf s)\<rparr>"

definition set_rpc :: "string \<Rightarrow> btc_service \<Rightarrow> btc_service" where
  "set_rpc a b = b\<lparr>poly := (poly b)\<lparr>rpc_address := Some a\<rparr>\<rparr>"

text \<open>\<open>getORCPwd\<close>: the account of the configured wallet becomes the account of the service.\<close>

definition get_orc_pwd :: "'w web_env \<Rightarrow> 'w web_state \<Rightarrow> go_error option \<times> 'w web_state" where
  "get_orc_pwd E s =
     (case get_account_by_password (wal E) (WalletFile (conf s)) (bytes_of (WalletPwd (conf s))) of
        Inl err \<Rightarrow> (Some (Errorf (''failed to get account from wallet file '' @ WalletFile (conf s)
                            @ '' by password '' @ WalletPwd (conf s) @ '': %v'') err), s)
      | Inr a \<Rightarrow>
          let b = (if rpc_address (poly (bs s)) = None then set_rpc (PolyJsonRpcAddress (conf s)) (bs s) else bs s)
          in (None, s\<lparr>bs := b\<lparr>acc := Some a\<rparr>\<rparr>))"

section \<open>Keys and redeem script\<close>

definition handle_gene_privk :: "'w web_env \<Rightarrow> (go_error \<Rightarrow> string) \<Rightarrow> form \<Rightarrow> 'w web_step" where
  "handle_gene_privk E T form s =
     field form ''pwd'' ''index.tmpl'' ''no pwd'' (\<lambda>pwd.
     field form ''pwd2'' ''index.tmpl'' ''no pwd confirmation'' (\<lambda>pwd2 s.
     if pwd \<noteq> pwd2 then (Ret (message_page 400 ''index.tmpl'' ''password is not equal''), s)
     else field form ''path'' ''index.tmpl'' ''no path'' (\<lambda>path s.
       case gene_privk_and_addr E (net_param s) pwd path (web_world s) of
         (Panic p, w) \<Rightarrow> (Panic p, s\<lparr>web_world := w\<rparr>)
       | (Ret (Inl err), w) \<Rightarrow>
           (Ret (message_page 200 ''index.tmpl'' (''call function to generate private key failed: '' @ T err)),
            s\<lparr>web_world := w\<rparr>)
       | (Ret (Inr (wif, pub, a)), w) \<Rightarrow>
           (Ret (message_page 200 ''index.tmpl'' (''your private key is '' @ wif @ nl @ ''your pubkey is ''
                   @ hex_encode pub @ nl @ ''your addr is '' @ a @ nl)),
            set_conf (\<lambda>c. c\<lparr>BtcWalletPwd := pwd, BtcPrivkFile := path\<rparr>) (s\<lparr>web_world := w\<rparr>))) s)) s"

definition handle_gene_redeem :: "'w web_env \<Rightarrow> (go_error \<Rightarrow> string) \<Rightarrow> form \<Rightarrow> 'w web_step" where
  "handle_gene_redeem E T form s =
     field form ''pubks'' ''index.tmpl'' ''no pubkeys'' (\<lambda>pubks.
     field form ''req'' ''index.tmpl'' ''no net type'' (\<lambda>req s.
       case gene_redeem E (net_param s) pubks req of
         Panic p \<Rightarrow> (Panic p, s)
       | Ret (Inl err) \<Rightarrow>
           (Ret (message_page 200 ''index.tmpl'' (''call function to generate redeem failed: '' @ T err)), s)
       | Ret (Inr r) \<Rightarrow>
           (Ret (message_page 200 ''index.tmpl'' (''your multisig redeem script is '' @ hex_encode (redeem_script r)
                   @ nl @ ''your redeem hash is '' @ hex_encode (redeem_hash r) @ nl @ ''your p2wsh addr is ''
                   @ p2wsh_addr r @ nl @ ''your p2sh addr is '' @ p2sh_addr r @ nl)),
            set_conf (\<lambda>c. c\<lparr>Redeem := hex_encode (redeem_script r)\<rparr>) s))) s"

section \<open>Contract binding\<close>

definition sign_contract_page :: "'w web_env \<Rightarrow> (go_error \<Rightarrow> string) \<Rightarrow> string \<Rightarrow> form \<Rightarrow> 'w web_step" where
  "sign_contract_page E T tm form =
     field form ''privk_file'' tm ''no private key file set'' (\<lambda>pf.
     field form ''pwd'' tm ''no password for private key file set'' (\<lambda>pwd.
     field form ''contract'' tm ''no smart contract set'' (\<lambda>contract.
     field form ''chainid'' tm ''no target chain id set'' (\<lambda>chainid.
     field form ''ver'' tm ''no contract version set'' (\<lambda>ver.
     number T tm chainid (\<lambda>id. number T tm ver (\<lambda>v s.
       case sign_contract E pf pwd contract (Redeem (conf s)) id v of
         Panic p \<Rightarrow> (Panic p, s)
       | Ret (Inl err) \<Rightarrow>
           (Ret (message_page 200 tm (''failed to sign for contract '' @ contract @ '': '' @ T err)), s)
       | Ret (Inr sig) \<Rightarrow> (Ret (message_page 200 tm (''your sig is '' @ hex_encode sig)), s))))))))"

definition handle_sign_contract :: "'w web_env \<Rightarrow> (go_error \<Rightarrow> string) \<Rightarrow> form \<Rightarrow> 'w web_step" where
  "handle_sign_contract E T = sign_contract_page E T ''index.tmpl''"

definition handle_func_sign_contract :: "'w web_env \<Rightarrow> (go_error \<Rightarrow> string) \<Rightarrow> form \<Rightarrow> 'w web_step" where
  "handle_func_sign_contract E T = sign_contract_page E T ''sign_contract.tmpl''"

definition set_contract_page :: "'w web_env \<Rightarrow> (go_error \<Rightarrow> string) \<Rightarrow> string \<Rightarrow> form \<Rightarrow> 'w web_step" where
  "set_contract_page E T tm form =
     field form ''contract'' tm ''no smart contract set'' (\<lambda>contract.
     field form ''ver'' tm ''no contract version set'' (\<lambda>ver.
     field form ''chainid'' tm ''no target chain id set'' (\<lambda>chainid.
     field form ''sigs'' tm ''no signatures set'' (\<lambda>sigs.
     number T tm chainid (\<lambda>id. number T tm ver (\<lambda>v s.
       case set_contract E (acc (bs s)) contract (Redeem (conf s)) sigs v id (web_world s) of
         (Inl err, w) \<Rightarrow>
           (Ret (message_page 200 tm (''failed to sign contract '' @ contract @ ''(ver '' @ format_uint v @ ''): '' @ T err)),
            s\<lparr>web_world := w\<rparr>)
       | (Inr hash, w) \<Rightarrow>
           (Ret (message_page 200 tm (''send tx successfully, your tx hash is '' @ hash)), s\<lparr>web_world := w\<rparr>)))))))"

definition handle_set_contract :: "'w web_env \<Rightarrow> (go_error \<Rightarrow> string) \<Rightarrow> form \<Rightarrow> 'w web_step" where
  "handle_set_contract E T = set_contract_page E T ''index.tmpl''"

text \<open>
  The function pages first take over wallet and password and load the account. When that fails,
  both show the template of the contract page.
\<close>

definition with_account :: "'w web_env \<Rightarrow> (go_error \<Rightarrow> string) \<Rightarrow> form \<Rightarrow> 'w web_step \<Rightarrow> 'w web_step" where
  "with_account E T form k s =
     (let s = set_conf (when_set (form ''wallet'') (\<lambda>v c. c\<lparr>WalletFile := v\<rparr>)) s;
          s = set_conf (when_set (form ''opwd'') (\<lambda>v c. c\<lparr>WalletPwd := v\<rparr>)) s
      in case get_orc_pwd E s of
           (Some err, s) \<Rightarrow> (Ret (message_page 200 ''set_contract.tmpl'' (''get account failed: '' @ T err)), s)
         | (None, s) \<Rightarrow> k s)"

definition handle_func_set_contract :: "'w web_env \<Rightarrow> (go_error \<Rightarrow> string) \<Rightarrow> form \<Rightarrow> 'w web_step" where
  "handle_func_set_contract E T form = with_account E T form (set_contract_page E T ''set_contract.tmpl'' form)"

section \<open>Transaction parameters\<close>

definition param_text :: "u64 \<Rightarrow> u64 \<Rightarrow> u64 \<Rightarrow> string" where
  "param_text feeRate minChange v =
     ''param(fee rate: '' @ format_uint feeRate @ '' sat/byte, min change: '' @ format_uint minChange
     @ '' sat, ver '' @ format_uint v @ ''): ''"

definition sign_param_page :: "'w web_env \<Rightarrow> (go_error \<Rightarrow> string) \<Rightarrow> string \<Rightarrow> form \<Rightarrow> 'w web_step" where
  "sign_param_page E T tm form =
     field form ''privk_file'' tm ''no private key file set'' (\<lambda>pf.
     field form ''pwd'' tm ''no password for private key file set'' (\<lambda>pwd.
     field form ''ver'' tm ''no contract version set'' (\<lambda>ver.
     field form ''fr'' tm ''no fee rate set'' (\<lambda>fr.
     field form ''mc'' tm ''no min change set'' (\<lambda>mc.
     number T tm ver (\<lambda>v. number T tm fr (\<lambda>feeRate. number T tm mc (\<lambda>minChange s.
       case sign_param E feeRate minChange v (Redeem (conf s)) pf pwd of
         Panic p \<Rightarrow> (Panic p, s)
       | Ret (Inl err) \<Rightarrow>
           (Ret (message_page 200 tm (''failed to sign '' @ param_text feeRate minChange v @ T err)), s)
       | Ret (Inr sig) \<Rightarrow> (Ret (message_page 200 tm (''your sig is '' @ hex_encode sig)), s)))))))))"

definition handle_sign_param :: "'w web_env \<Rightarrow> (go_error \<Rightarrow> string) \<Rightarrow> form \<Rightarrow> 'w web_step" where
  "handle_sign_param E T = sign_param_page E T ''index.tmpl''"

definition handle_func_sign_param :: "'w web_env \<Rightarrow> (go_error \<Rightarrow> string) \<Rightarrow> form \<Rightarrow> 'w web_step" where
  "handle_func_sign_param E T = sign_param_page E T ''sign_param.tmpl''"

definition set_param_page :: "'w web_env \<Rightarrow> (go_error \<Rightarrow> string) \<Rightarrow> string \<Rightarrow> form \<Rightarrow> 'w web_step" where
  "set_param_page E T tm form =
     field form ''ver'' tm ''no contract version set'' (\<lambda>ver.
     field form ''fr'' tm ''no fee rate set'' (\<lambda>fr.
     field form ''mc'' tm ''no min change set'' (\<lambda>mc.
     field form ''sigs'' tm ''no signatures set'' (\<lambda>sigs.
     number T tm ver (\<lambda>v. number T tm fr (\<lambda>feeRate. number T tm mc (\<lambda>minChange s.
       case set_param E (acc (bs s)) feeRate minChange v (Redeem (conf s)) sigs (web_world s) of
         (Inl err, w) \<Rightarrow>
           (Ret (message_page 200 tm (''failed to set '' @ param_text feeRate minChange v @ T err)), s\<lparr>web_world := w\<rparr>)
       | (Inr hash, w) \<Rightarrow>
           (Ret (message_page 200 tm (''send tx successfully, your tx hash is '' @ hash)), s\<lparr>web_world := w\<rparr>))))))))"

definition handle_set_param :: "'w web_env \<Rightarrow> (go_error \<Rightarrow> string) \<Rightarrow> form \<Rightarrow> 'w web_step" where
  "handle_set_param E T = set_param_page E T ''index.tmpl''"

definition handle_func_set_param :: "'w web_env \<Rightarrow> (go_error \<Rightarrow> string) \<Rightarrow> form \<Rightarrow> 'w web_step" where
  "handle_func_set_param E T form = with_account E T form (set_param_page E T ''set_param.tmpl'' form)"

section \<open>Status\<close>

definition net_of :: "string \<Rightarrow> btc_net" where
  "net_of nt = (if nt = ''regtest'' then RegressionNet else if nt = ''test'' then TestNet3 else MainNet)"

text \<open>The fields of the status form; the condition on \<open>owallet\<close> looks at \<open>rpc\<close>.\<close>

definition apply_status_form :: "'w store_env \<Rightarrow> form \<Rightarrow> 'w web_state \<Rightarrow> 'w web_state" where
  "apply_status_form C form s =
     (let rpc = form ''rpc'';
          s = set_conf (when_set rpc (\<lambda>v c. c\<lparr>PolyJsonRpcAddress := v\<rparr>)) s;
          s = (if rpc_address (poly (bs s)) = None
               then s\<lparr>bs := (bs s)\<lparr>poly := snd (set_up_poly (header_chain_id C) (poly (bs s)) (PolyJsonRpcAddress (conf s)))\<rparr>\<rparr>
               else s);
          s = (case form ''owallet'' of None \<Rightarrow> s
               | Some ow \<Rightarrow> if rpc \<noteq> None \<and> rpc \<noteq> Some [] then set_conf (\<lambda>c. c\<lparr>WalletFile := ow\<rparr>) s else s);
          s = set_conf (when_set (form ''opwd'') (\<lambda>v c. c\<lparr>WalletPwd := v\<rparr>)) s;
          s = set_conf (when_set (form ''bwallet'') (\<lambda>v c. c\<lparr>BtcPrivkFile := v\<rparr>)) s;
          s = set_conf (when_set (form ''bpwd'') (\<lambda>v c. c\<lparr>BtcWalletPwd := v\<rparr>)) s;
          s = when_set (form ''nt'') (\<lambda>v s. set_conf (\<lambda>c. c\<lparr>ConfigBitcoinNet := v\<rparr>) (s\<lparr>net_param := Some (net_of v)\<rparr>)) s;
          s = set_conf (when_set (form ''wait_time'') (\<lambda>v c. case parse_int v of Inl err \<Rightarrow> c
                          | Inr t \<Rightarrow> c\<lparr>PolyObLoopWaitTime := t\<rparr>)) s;
          s = set_conf (when_set (form ''db'') (\<lambda>v c. c\<lparr>ConfigDBPath := v\<rparr>)) s
      in set_conf (when_set (form ''redeem'') (\<lambda>v c. c\<lparr>Redeem := v\<rparr>)) s)"

definition utxo_sum :: "utxo list \<Rightarrow> u64" where
  "utxo_sum us = foldl (\<lambda>sum u. sum + Value u) 0 us"

definition status_pages ::
  "'w web_env \<Rightarrow> 'w store_env \<Rightarrow> (go_error \<Rightarrow> string) \<Rightarrow> bytes \<Rightarrow> 'w \<Rightarrow> page \<times> 'w" where
  "status_pages E C T raw w =
     (let rk = hash160 (lib E) raw in
      case get_storage C (ccm_address C) (UTXOS C @ uint64_bytes E 1 @ bytes_of (hex_encode rk)) w of
        (Inl err, w) \<Rightarrow> (error_page 400 ''status.tmpl'' (''get utxo failed: '' @ T err), w)
      | (Inr store, w) \<Rightarrow>
     (case (case store of None \<Rightarrow> Inr [] | Some b \<Rightarrow> decode_utxos C b) of
        Inl err \<Rightarrow> (error_page 400 ''status.tmpl'' (''failed to deserialize utxos: '' @ T err), w)
      | Inr utxos \<Rightarrow>
     (case get_storage C (scm_address C) (REDEEM_BIND C @ uint64_bytes E 1 @ uint64_bytes E 2 @ rk) w of
        (Inl err, w) \<Rightarrow> (error_page 400 ''status.tmpl'' (''failed to get contract info: '' @ T err), w)
      | (Inr val, w) \<Rightarrow>
     (let b = decode_binded C val in
      case get_storage C (scm_address C) (BTC_TX_PARAM C @ rk @ uint64_bytes E 1) w of
        (Inl err, w) \<Rightarrow> (error_page 400 ''status.tmpl'' (''failed to get param info: '' @ T err), w)
      | (Inr val, w) \<Rightarrow>
          let d = decode_param C val in
          (\<lparr>page_status = 200, template = ''status.tmpl'',
            page_data = [(''sum'', PNum (utxo_sum utxos)), (''total'', PNum (of_nat (length utxos))),
              (''contract'', PText (hex_encode (Contract b))), (''ver'', PNum (Ver b)),
              (''mc'', PNum (MinChange d)), (''fr'', PNum (FeeRate d)), (''pver'', PNum (PVersion d))]\<rparr>, w)))))"

definition handle_status :: "'w web_env \<Rightarrow> 'w store_env \<Rightarrow> (go_error \<Rightarrow> string) \<Rightarrow> form \<Rightarrow> 'w web_step" where
  "handle_status E C T form s =
     (case get_orc_pwd E (apply_status_form C form s) of
        (Some err, s) \<Rightarrow> (Ret (message_page 200 ''conf.tmpl'' (''get account failed: '' @ T err)), s)
      | (None, s) \<Rightarrow>
     (case hex_decode (Redeem (conf s)) of
        Inl err \<Rightarrow> (Ret (error_page 400 ''status.tmpl'' (''wrong redeem: '' @ T err)), s)
      | Inr raw \<Rightarrow>
          case status_pages E C T raw (web_world s) of (p, w) \<Rightarrow> (Ret p, s\<lparr>web_world := w\<rparr>)))"

section \<open>First start\<close>

definition handle_init :: "'w web_env \<Rightarrow> (go_error \<Rightarrow> string) \<Rightarrow> form \<Rightarrow> 'w web_step" where
  "handle_init E T form =
     field form ''rpc'' ''before.tmpl'' ''no rpc address set'' (\<lambda>rpc s.
       let s = set_conf (when_set (Some rpc) (\<lambda>v c. c\<lparr>PolyJsonRpcAddress := v\<rparr>)) s;
           s = s\<lparr>bs := set_rpc (PolyJsonRpcAddress (conf s)) (bs s)\<rparr> in
     field form ''owallet'' ''before.tmpl'' ''no poly wallet set'' (\<lambda>ow s.
       let s = set_conf (when_set (Some ow) (\<lambda>v c. c\<lparr>WalletFile := v\<rparr>)) s in
     field form ''opwd'' ''before.tmpl'' ''no poly wallet password set'' (\<lambda>opwd s.
       let s = set_conf (when_set (Some opwd) (\<lambda>v c. c\<lparr>WalletPwd := v\<rparr>)) s in
     field form ''nt'' ''before.tmpl'' ''no bitcoin net type set'' (\<lambda>nt s.
       let s = set_conf (when_set (Some nt) (\<lambda>v c. c\<lparr>ConfigBitcoinNet := v\<rparr>)) s;
           s = s\<lparr>net_param := Some (net_of (ConfigBitcoinNet (conf s)))\<rparr> in
     (case form ''db'' of None \<Rightarrow> (Ret (message_page 200 ''before.tmpl'' ''no db path set''), s)
      | Some dir \<Rightarrow>
       let s = set_conf (when_set (Some dir) (\<lambda>v c. c\<lparr>ConfigDBPath := v\<rparr>)) s in
       case get_orc_pwd E s of
         (Some err, s) \<Rightarrow> (Ret (message_page 200 ''before.tmpl'' (''get account failed: '' @ T err)), s)
       | (None, s) \<Rightarrow>
           (Ret \<lparr>page_status = 200, template = ''index.tmpl'', page_data = [(''title'', PText ''Vendor Tool'')]\<rparr>, s)))
     s) s) s)"

section \<open>Routes\<close>

definition before_init_page :: "config \<Rightarrow> page" where
  "before_init_page c = \<lparr>page_status = 200, template = ''before.tmpl'',
     page_data = [(''title'', PText ''Configuration Before Start''), (''rpc'', PText (PolyJsonRpcAddress c)),
       (''owallet'', PText (WalletFile c)), (''opwd'', PText (WalletPwd c)), (''db'', PText (ConfigDBPath c))]\<rparr>"

definition start_page :: "config \<Rightarrow> page" where
  "start_page c = \<lparr>page_status = 200, template = ''conf.tmpl'',
     page_data = [(''title'', PText ''Configuration for Vendor Tool''), (''rpc'', PText (PolyJsonRpcAddress c)),
       (''owallet'', PText (WalletFile c)), (''opwd'', PText (WalletPwd c)), (''bwallet'', PText (BtcPrivkFile c)),
       (''bpwd'', PText (BtcWalletPwd c)), (''wait_time'', PNum (PolyObLoopWaitTime c)),
       (''db'', PText (ConfigDBPath c)), (''redeem'', PText (Redeem c))]\<rparr>"

text \<open>
  \<open>done\<close>: the channel that the main program waits on is closed. The pages of \<open>POST\<close>
  requests; \<open>None\<close>: no route.
\<close>

record 'w web_server =
  web :: "'w web_state"
  done_closed :: bool

definition lift_page :: "'w web_step \<Rightarrow> 'w web_server \<Rightarrow> (page go \<times> 'w web_server) option" where
  "lift_page h sv = (case h (web sv) of (p, s) \<Rightarrow> Some (p, sv\<lparr>web := s\<rparr>))"

definition status_route :: "'w web_env \<Rightarrow> 'w store_env \<Rightarrow> (go_error \<Rightarrow> string) \<Rightarrow> form \<Rightarrow> 'w web_server \<Rightarrow> page go \<times> 'w web_server" where
  "status_route E C T form sv =
     (case handle_status E C T form (web sv) of
        (Panic p, s) \<Rightarrow> (Panic p, sv\<lparr>web := s\<rparr>)
      | (Ret p, s) \<Rightarrow>
          if done_closed sv then (Panic CloseOfClosed, sv\<lparr>web := s\<rparr>)
          else (Ret p, sv\<lparr>web := s, done_closed := True\<rparr>))"

definition web_post ::
  "'w web_env \<Rightarrow> 'w store_env \<Rightarrow> (go_error \<Rightarrow> string) \<Rightarrow> string \<Rightarrow> form \<Rightarrow> 'w web_server \<Rightarrow> (page go \<times> 'w web_server) option" where
  "web_post E C T path form sv =
     (if path = ''/before_init'' then Some (Ret (before_init_page (conf (web sv))), sv)
      else if path = ''/init'' then lift_page (handle_init E T form) sv
      else if path = ''/geneprivk'' then lift_page (handle_gene_privk E T form) sv
      else if path = ''/generdm'' then lift_page (handle_gene_redeem E T form) sv
      else if path = ''/sign_contract'' then lift_page (handle_sign_contract E T form) sv
      else if path = ''/set_contract'' then lift_page (handle_set_contract E T form) sv
      else if path = ''/sign_param'' then lift_page (handle_sign_param E T form) sv
      else if path = ''/set_param'' then lift_page (handle_set_param E T form) sv
      else if path = ''/start_vendor_tool'' then Some (Ret (start_page (conf (web sv))), sv)
      else if path = ''/status'' then Some (status_route E C T form sv)
      else if path = ''/func_signcontract'' then Some (Ret \<lparr>page_status = 200, template = ''sign_contract.tmpl'', page_data = []\<rparr>, sv)
      else if path = ''/sign_contract_tool'' then lift_page (handle_func_sign_contract E T form) sv
      else if path = ''/func_updatecontract'' then Some (Ret \<lparr>page_status = 200, template = ''set_contract.tmpl'',
             page_data = [(''wallet'', PText (WalletFile (conf (web sv))))]\<rparr>, sv)
      else if path = ''/set_contract_tool'' then lift_page (handle_func_set_contract E T form) sv
      else if path = ''/func_signparam'' then Some (Ret \<lparr>page_status = 200, template = ''sign_param.tmpl'', page_data = []\<rparr>, sv)
      else if path = ''/sign_param_tool'' then lift_page (handle_func_sign_param E T form) sv
      else if path = ''/func_updateparam'' then Some (Ret \<lparr>page_status = 200, template = ''set_param.tmpl'',
             page_data = [(''wallet'', PText (WalletFile (conf (web sv))))]\<rparr>, sv)
      else if path = ''/set_param_tool'' then lift_page (handle_func_set_param E T form) sv
      else None)"

end
