(* ===== verification/Web_Properties.thy ===== *)
theory Web_Properties
  imports Web_Controller Signer_Properties
begin

text \<open>
  The properties of the web interface (\<open>web/service/service.go\<close>,
  \<open>web/controller/controller.go\<close>, \<open>web/router/router.go\<close>), each with its witness.
\<close>

section \<open>A concrete environment\<close>

text \<open>The world is the list of signature lists that were registered.\<close>

definition sample_wallets :: wallets where
  "sample_wallets = \<lparr>open_wallet = \<lambda>p. Inr p,
     get_default_account = \<lambda>wlt pwd. if pwd = bytes_of ''pw'' then Inr sample_account else Inl (Ext ''password'')\<rparr>"

definition sample_env :: "bytes list list web_env" where
  "sample_env =
     \<lparr>wal = sample_wallets, lib = sample_btcd,
      new_private_key = \<lambda>w. (Inr [9], w), new_wif = \<lambda>net k. Ret (Inr ''wif''), pub_compressed = \<lambda>k. 2 # k,
      new_address_pubkey = \<lambda>net k. (if k = [] then Ret (Inl (Ext ''pubkey string is empty''))
        else case net of None \<Rightarrow> Panic NilDereference | Some n \<Rightarrow> Ret (Inr (hex_encode k))),
      p256_from_wif = \<lambda>s. Inr [9], p256_public = \<lambda>k. 3 # k, p256_address = \<lambda>k. ''A'',
      encrypt_private_key = \<lambda>k a pwd. Inr \<lparr>prot_address = a, prot_alg = ''ECDSA'', prot_enc_alg = ''aes-256-gcm'', prot_hash = ''sha256'',
        prot_key = k @ pwd, prot_param = [''curve'' \<mapsto> ''P-256''], prot_salt = [7]\<rparr>,
      open_account_wallet = \<lambda>p w. (Inr p, w), import_account = \<lambda>p m w. (None, w),
      multisig_script = \<lambda>as n. Inr (ucast n # replicate (length as) 7),
      new_address_script_hash = \<lambda>net b. Ret (Inr ''p2sh''), sha256 = \<lambda>b. b,
      new_address_witness_script_hash = \<lambda>net b. Ret (Inr ''p2wsh''),
      uint64_bytes = be_bytes 8, sign_hash = \<lambda>k h. Inr (k @ h),
      register_redeem = \<lambda>i ch r c v sigs a w. (Inr ''tx'', w @ [sigs]),
      set_btc_tx_param = \<lambda>r i fr mc v sigs a w. (Inr ''tx'', w @ [sigs])\<rparr>"

definition sample_conf :: config where
  "sample_conf = \<lparr>PolyJsonRpcAddress = ''rpc'', WalletFile = ''wallet'', WalletPwd = ''pw'', BtcWalletPwd = [],
     PolyObLoopWaitTime = 2, BtcPrivkFile = [], ConfWatchingKey = ''makeBtcTx'', ConfigBitcoinNet = ''test'',
     ConfigDBPath = ''./db'', RestPort = 50071, SleepTime = 10, CircleToSaveHeight = 300, Redeem = ''01ae'',
     SignerAddr = [], ObServerAddr = [], PolyStartHeight = 1, WebServerPort = ''8080''\<rparr>"

definition sample_web :: "bytes list list web_state" where
  "sample_web = \<lparr>conf = sample_conf, bs = new_btc_service \<lparr>rpc_address = None, chain_id = 0\<rparr>,
     net_param = Some TestNet3, web_world = []\<rparr>"

section \<open>Signed messages\<close>

text \<open>What the Poly module documents of \<open>GetUint64Bytes\<close>.\<close>

definition uint64_bytes_ok :: "'w web_env \<Rightarrow> bool" where
  "uint64_bytes_ok E \<longleftrightarrow> (\<forall>x. length (uint64_bytes E x) = 8) \<and> (\<forall>x y. uint64_bytes E x = uint64_bytes E y \<longrightarrow> x = y)"

lemma append_same_end: "length ys = length zs \<Longrightarrow> xs @ ys = us @ zs \<longleftrightarrow> xs = us \<and> ys = zs"
  by auto

text \<open>
  C27: For a given redeem script, the message that is signed for a contract binding determines the
  contract, its chain and its version, and the one for transaction parameters determines fee rate,
  minimal change and version: no signature can be taken for other values of the same kind.
\<close>

theorem signed_messages_bind:
  assumes "uint64_bytes_ok E"
  shows "(contract_message E r c i v = contract_message E r c' i' v' \<longleftrightarrow> c = c' \<and> i = i' \<and> v = v')
     \<and> (param_message E r fr mc v = param_message E r fr' mc' v' \<longleftrightarrow> fr = fr' \<and> mc = mc' \<and> v = v')"
proof -
  have len: "length (uint64_bytes E x) = 8" and inj: "uint64_bytes E x = uint64_bytes E y \<longleftrightarrow> x = y" for x y
    using assms by (auto simp: uint64_bytes_ok_def)
  have two: "uint64_bytes E x @ xs = uint64_bytes E y @ ys \<longleftrightarrow> x = y \<and> xs = ys" for x y xs ys
    using len inj by (simp add: append_eq_append_conv)
  have "length (uint64_bytes E i @ uint64_bytes E v) = length (uint64_bytes E i' @ uint64_bytes E v')"
    by (simp add: len)
  from append_same_end [OF this, of c c'] have "c @ uint64_bytes E i @ uint64_bytes E v = c' @ uint64_bytes E i' @ uint64_bytes E v'
      \<longleftrightarrow> c = c' \<and> i = i' \<and> v = v'"
    by (simp add: two inj)
  moreover have "uint64_bytes E fr @ uint64_bytes E mc @ uint64_bytes E v
      = uint64_bytes E fr' @ uint64_bytes E mc' @ uint64_bytes E v' \<longleftrightarrow> fr = fr' \<and> mc = mc' \<and> v = v'"
    by (simp add: two inj)
  ultimately show ?thesis by (simp add: contract_message_def param_message_def)
qed

lemma be_bytes_8_inj: "be_bytes 8 (x :: u64) = be_bytes 8 y \<Longrightarrow> x = y"
  using u64c.enc_uniquely_readable [of x "[]" y "[]"] by (simp add: write_u64_def)

lemma sample_uint64_bytes_ok: "uint64_bytes_ok sample_env"
  by (auto simp: uint64_bytes_ok_def sample_env_def dest: be_bytes_8_inj)

theorem signed_messages_bind_witness:
  "contract_message sample_env [1] [2, 3] 4 5 \<noteq> contract_message sample_env [1] [2, 3] 5 5"
  using signed_messages_bind [OF sample_uint64_bytes_ok, of "[1]" "[2, 3]" 4 5 "[2, 3]" 5 5 0 0 0 0] by simp

lemma remove_0x_id: "CHR ''x'' \<notin> set s \<Longrightarrow> remove_0x s = s"
  by (induction s rule: remove_0x.induct) auto

lemma hex_encode_no_x: "CHR ''x'' \<notin> set (hex_encode b)"
proof -
  have digit: "CHR ''x'' \<noteq> hex_digit n" if "n < 16" for n
  proof -
    have "\<forall>n \<in> set [0..<16]. CHR ''x'' \<noteq> hex_digit n" by (simp add: upt_rec hex_digit_def)
    with that show ?thesis by simp
  qed
  show ?thesis by (induction b) (simp_all add: hex_encode_def digit nibbles)
qed

text \<open>
  C28: The two kinds of signature are not kept apart: signing transaction parameters is, in every
  outcome, the same as signing a contract binding whose contract is the encoded fee rate and whose
  chain is the minimal change.
\<close>

theorem param_signature_is_contract_signature:
  "sign_param E fr mc ver rdm pf pwd = sign_contract E pf pwd (hex_encode (uint64_bytes E fr)) rdm mc ver"
  by (simp add: sign_param_def sign_contract_def remove_0x_id hex_encode_no_x hex_decode_encode
      contract_message_def param_message_def split: go.split sum.split)

section \<open>Pages that sign\<close>

lemma number_state: "(\<And>n. snd (k n s) = s) \<Longrightarrow> snd (number T tm v k s) = s"
  by (simp add: number_def split: sum.split)

lemma field_state: "(\<And>v. snd (k v s) = s) \<Longrightarrow> snd (field form key tm msg k s) = s"
  by (simp add: field_def split: option.split)

text \<open>
  The pages that sign never change anything: not the configuration, not the account, not the
  chain, whatever the form holds and whatever fails.
\<close>

theorem sign_pages_keep_state:
  "snd (handle_sign_contract E T form s) = s \<and> snd (handle_func_sign_contract E T form s) = s
   \<and> snd (handle_sign_param E T form s) = s \<and> snd (handle_func_sign_param E T form s) = s"
proof -
  have "snd (sign_contract_page E T tm form s) = s" for tm
    unfolding sign_contract_page_def by (intro field_state number_state) (simp split: go.split sum.split)
  moreover have "snd (sign_param_page E T tm form s) = s" for tm
    unfolding sign_param_page_def by (intro field_state number_state) (simp split: go.split sum.split)
  ultimately show ?thesis
    by (simp add: handle_sign_contract_def handle_func_sign_contract_def handle_sign_param_def handle_func_sign_param_def)
qed

text \<open>
  A complete form of the contract page is answered with the hex text of the signature that the
  key of the wallet file makes over redeem script, contract, chain and version, the contract with or
  without \<open>0x\<close>.
\<close>

theorem contract_page_shows_signature:
  assumes "form ''privk_file'' = Some pf" and "form ''pwd'' = Some pwd" and "form ''contract'' = Some contract"
    and "form ''chainid'' = Some (format_uint chainId)" and "form ''ver'' = Some (format_uint ver)"
    and "contract = hex_encode c \<or> contract = ''0x'' @ hex_encode c"
    and "load_private_key E pf pwd = Ret (Inr key)" and "hex_decode (Redeem (conf s)) = Inr r"
    and "sign_hash E key (hash160 (lib E) (contract_message E r c chainId ver)) = Inr sig"
  shows "handle_sign_contract E T form s
     = (Ret (message_page 200 ''index.tmpl'' (''your sig is '' @ hex_encode sig)), s)"
proof -
  have "remove_0x contract = hex_encode c"
    using assms(6) by (auto simp: remove_0x_id hex_encode_no_x)
  then have "sign_contract E pf pwd contract (Redeem (conf s)) chainId ver = Ret (Inr sig)"
    using assms(7-9) by (simp add: sign_contract_def hex_decode_encode)
  moreover have "parse_uint 64 (format_uint n) = Inr n" for n
    by (rule parse_uint_format) simp_all
  ultimately show ?thesis
    using assms(1-5) by (simp add: handle_sign_contract_def sign_contract_page_def field_def number_def)
qed

lemma sample_load_key: "load_private_key sample_env pf ''pw'' = Ret (Inr [9])"
  by (simp add: load_private_key_def get_account_by_password_def sample_env_def sample_wallets_def sample_account_def)

lemma sample_redeem_bytes: "hex_decode (Redeem (conf sample_web)) = Inr [1, 174]"
proof -
  have "hex_encode [1, 174] = ''01ae''" by (simp add: hex_encode_def hex_digit_def)
  then show ?thesis using hex_decode_encode [of "[1, 174]"] by (simp add: sample_web_def sample_conf_def)
qed

theorem contract_page_shows_signature_witness:
  "\<exists>sig. handle_sign_contract sample_env (\<lambda>e. ''error'')
        [''privk_file'' \<mapsto> ''f'', ''pwd'' \<mapsto> ''pw'', ''contract'' \<mapsto> ''0x'' @ hex_encode [5, 6],
         ''chainid'' \<mapsto> format_uint 2, ''ver'' \<mapsto> format_uint 0] sample_web
     = (Ret (message_page 200 ''index.tmpl'' (''your sig is '' @ hex_encode sig)), sample_web)"
proof -
  have "sign_hash sample_env [9] h = Inr (9 # h)" for h by (simp add: sample_env_def)
  from contract_page_shows_signature [OF _ _ _ _ _ disjI2 [OF refl] sample_load_key sample_redeem_bytes this] show ?thesis
    by (intro exI) simp
qed

section \<open>Pages that register\<close>

lemma field_cases:
  "field form key tm msg k s = (p, s') \<Longrightarrow> s' = s \<or> (\<exists>v. form key = Some v \<and> k v s = (p, s'))"
  by (auto simp: field_def split: option.splits)

lemma number_cases:
  "number T tm v k s = (p, s') \<Longrightarrow> s' = s \<or> (\<exists>n. parse_uint 64 v = Inr n \<and> k n s = (p, s'))"
  by (auto simp: number_def split: sum.splits)

lemma field_changes:
  "field form key tm msg k s = (p, s') \<Longrightarrow> s' \<noteq> s \<Longrightarrow> \<exists>v. form key = Some v \<and> k v s = (p, s')"
  using field_cases by blast

lemma number_changes:
  "number T tm v k s = (p, s') \<Longrightarrow> s' \<noteq> s \<Longrightarrow> \<exists>n. parse_uint 64 v = Inr n \<and> k n s = (p, s')"
  using number_cases by blast

lemma set_contract_world:
  "set_contract E a contract rdm sigs ver chainId w = (res, w') \<Longrightarrow> w' = w \<or>
     (\<exists>c r sigArr. hex_decode (remove_0x contract) = Inr c \<and> hex_decode rdm = Inr r
        \<and> map hex_decode (split_comma sigs) = map Inr sigArr
        \<and> register_redeem E 1 chainId r c ver sigArr a w = (res, w'))"
  by (auto simp: set_contract_def decode_sigs_Inr split: sum.splits)

text \<open>
  C26: The contract page touches nothing but the chain, and the chain only by one
  \<open>RegisterRedeem\<close> call with what the form says: chain and version as parsed, the contract
  without its \<open>0x\<close>, the configured redeem script, every piece between the commas as one
  signature, and the account of the service. A form with a missing or undecodable field has no effect.
\<close>

theorem set_contract_registers_form:
  assumes "handle_set_contract E T form s = (p, s')"
  shows "s' = s \<or> (\<exists>contract ver chainid sigs id v c r sigArr.
       form ''contract'' = Some contract \<and> form ''ver'' = Some ver \<and> form ''chainid'' = Some chainid
     \<and> form ''sigs'' = Some sigs \<and> parse_uint 64 chainid = Inr id \<and> parse_uint 64 ver = Inr v
     \<and> hex_decode (remove_0x contract) = Inr c \<and> hex_decode (Redeem (conf s)) = Inr r
     \<and> map hex_decode (split_comma sigs) = map Inr sigArr
     \<and> s' = s\<lparr>web_world := snd (register_redeem E 1 id r c v sigArr (acc (bs s)) (web_world s))\<rparr>)"
proof (cases "s' = s")
  case False
  note step = field_changes [OF _ False] and num = number_changes [OF _ False]
  from assms have "set_contract_page E T ''index.tmpl'' form s = (p, s')" by (simp add: handle_set_contract_def)
  then obtain contract ver chainid sigs id v where f: "form ''contract'' = Some contract" "form ''ver'' = Some ver"
      "form ''chainid'' = Some chainid" "form ''sigs'' = Some sigs" "parse_uint 64 chainid = Inr id"
      "parse_uint 64 ver = Inr v"
    and last: "(case set_contract E (acc (bs s)) contract (Redeem (conf s)) sigs v id (web_world s) of
         (Inl err, w) \<Rightarrow>
           (Ret (message_page 200 ''index.tmpl'' (''failed to sign contract '' @ contract @ ''(ver '' @ format_uint v @ ''): '' @ T err)),
            s\<lparr>web_world := w\<rparr>)
       | (Inr hash, w) \<Rightarrow>
           (Ret (message_page 200 ''index.tmpl'' (''send tx successfully, your tx hash is '' @ hash)), s\<lparr>web_world := w\<rparr>)) = (p, s')"
    unfolding set_contract_page_def by (elim exE conjE step [elim_format] num [elim_format])
  obtain res w' where sc: "set_contract E (acc (bs s)) contract (Redeem (conf s)) sigs v id (web_world s) = (res, w')"
    by force
  with last have s': "s' = s\<lparr>web_world := w'\<rparr>" by (auto split: sum.splits)
  with False have "w' \<noteq> web_world s" by auto
  with set_contract_world [OF sc] obtain c r sigArr where "hex_decode (remove_0x contract) = Inr c"
    "hex_decode (Redeem (conf s)) = Inr r" "map hex_decode (split_comma sigs) = map Inr sigArr"
    "register_redeem E 1 id r c v sigArr (acc (bs s)) (web_world s) = (res, w')" by blast
  with f s' show ?thesis by (intro disjI2 exI conjI) (assumption | simp)+
qed simp

theorem set_contract_registers_form_witness:
  "conf (snd (handle_set_contract sample_env (\<lambda>e. ''error'')
      [''contract'' \<mapsto> ''0x0506'', ''ver'' \<mapsto> ''0'', ''chainid'' \<mapsto> ''2'', ''sigs'' \<mapsto> ''aa,bb''] sample_web)) = sample_conf"
  using set_contract_registers_form [OF prod.collapse [symmetric], of sample_env "\<lambda>e. ''error''"
      "[''contract'' \<mapsto> ''0x0506'', ''ver'' \<mapsto> ''0'', ''chainid'' \<mapsto> ''2'', ''sigs'' \<mapsto> ''aa,bb'']" sample_web]
  by (auto simp: sample_web_def)

text \<open>
  A list of signatures that is written in hex with commas between them reaches the chain as that
  list: a complete form of the contract page makes exactly one \<open>RegisterRedeem\<close> call.
\<close>

theorem contract_page_registers:
  assumes "form ''contract'' = Some (hex_encode c)" and "form ''ver'' = Some (format_uint v)"
    and "form ''chainid'' = Some (format_uint cid)" and "sigs \<noteq> []"
    and "form ''sigs'' = Some (hex_encode (hd sigs) @ concat (map (\<lambda>p. CHR '','' # p) (map hex_encode (tl sigs))))"
    and "hex_decode (Redeem (conf s)) = Inr r"
    and "register_redeem E 1 cid r c v sigs (acc (bs s)) (web_world s) = (Inr hash, w')"
  shows "handle_set_contract E T form s =
     (Ret (message_page 200 ''index.tmpl'' (''send tx successfully, your tx hash is '' @ hash)), s\<lparr>web_world := w'\<rparr>)"
proof -
  have "parse_uint 64 (format_uint n) = Inr n" for n
    by (rule parse_uint_format) simp_all
  moreover have "set_contract E (acc (bs s)) (hex_encode c) (Redeem (conf s))
      (hex_encode (hd sigs) @ concat (map (\<lambda>p. CHR '','' # p) (map hex_encode (tl sigs)))) v cid (web_world s) = (Inr hash, w')"
    using assms(6,7) decode_sigs_join [OF assms(4), of 0]
    by (simp add: set_contract_def remove_0x_id hex_encode_no_x hex_decode_encode)
  ultimately show ?thesis
    using assms(1-3,5) by (simp add: handle_set_contract_def set_contract_page_def field_def number_def)
qed

theorem contract_page_registers_witness:
  "snd (handle_set_contract sample_env (\<lambda>e. ''error'')
      [''contract'' \<mapsto> hex_encode [5, 6], ''ver'' \<mapsto> format_uint 0, ''chainid'' \<mapsto> format_uint 2,
       ''sigs'' \<mapsto> hex_encode [170] @ '','' @ hex_encode [187]] sample_web)
     = sample_web\<lparr>web_world := [[[170], [187]]]\<rparr>"
proof -
  have "register_redeem sample_env 1 2 [1, 174] [5, 6] 0 [[170], [187]] (acc (bs sample_web)) (web_world sample_web)
      = (Inr ''tx'', [[[170], [187]]])"
    by (simp add: sample_env_def sample_web_def)
  from contract_page_registers [OF _ _ _ _ _ sample_redeem_bytes this] show ?thesis by simp
qed

section \<open>Status and start\<close>

lemma utxo_sum_from: "unat (foldl (\<lambda>sum u. sum + Value u) (a :: u64) us)
    = (unat a + sum_list (map (\<lambda>u. unat (Value u)) us)) mod 2 ^ 64"
proof (induction us arbitrary: a)
  case Nil
  then show ?case by simp
next
  case (Cons u us)
  have "unat (a + Value u) = (unat a + unat (Value u)) mod 2 ^ 64" by (simp add: unat_word_ariths)
  with Cons [of "a + Value u"] show ?case by (simp add: mod_add_left_eq add.assoc)
qed

text \<open>
  The sum that the status page shows is the sum of all outputs modulo \<open>2^64\<close>: the exact
  sum as long as it is below.
\<close>

theorem status_sum_modular:
  "unat (utxo_sum us) = sum_list (map (\<lambda>u. unat (Value u)) us) mod 2 ^ 64"
  using utxo_sum_from [of 0 us] by (simp add: utxo_sum_def)

text \<open>
  The field \<open>owallet\<close> of the status form is taken only together with a new RPC address: without
  one the wallet stays, and with one an empty field clears it.
\<close>

theorem status_wallet_needs_rpc:
  "WalletFile (conf (apply_status_form C form s)) =
     (if form ''rpc'' = None \<or> form ''rpc'' = Some [] then WalletFile (conf s)
      else case form ''owallet'' of None \<Rightarrow> WalletFile (conf s) | Some ow \<Rightarrow> ow)"
proof -
  have keep: "WalletFile (conf (set_conf (when_set v f) t)) = WalletFile (conf t)"
    if "\<And>x c. WalletFile (f x c) = WalletFile c" for v f and t :: "'a web_state"
    using that by (simp add: set_conf_def when_set_def split: option.split)
  have net: "WalletFile (conf (when_set v (\<lambda>v s. set_conf (\<lambda>c. c\<lparr>ConfigBitcoinNet := v\<rparr>) (s\<lparr>net_param := Some (net_of v)\<rparr>)) t))
      = WalletFile (conf t)" for v and t :: "'a web_state"
    by (simp add: set_conf_def when_set_def split: option.split)
  show ?thesis
    unfolding apply_status_form_def Let_def
    by (subst keep net, simp split: sum.split)+
      (simp add: set_conf_def when_set_def split: option.split)
qed

lemma handle_status_returns: "\<exists>p t. handle_status E C T form s = (Ret p, t)"
  unfolding handle_status_def by (simp split: prod.split option.split sum.split)

text \<open>
  Every \<open>POST /status\<close> lets the main program go on, also when the handler only reported an
  error; the first one shows its page, and every later one panics on closing \<open>done\<close> again.
\<close>

theorem status_closes_done:
  "done_closed (snd (status_route E C T form sv))
   \<and> (fst (status_route E C T form sv) = Panic CloseOfClosed \<longleftrightarrow> done_closed sv)
   \<and> web (snd (status_route E C T form sv)) = snd (handle_status E C T form (web sv))"
proof -
  obtain p s where "handle_status E C T form (web sv) = (Ret p, s)"
    using handle_status_returns by blast
  then show ?thesis by (simp add: status_route_def)
qed

lemma when_set_field:
  "set_conf (when_set (Some v) (\<lambda>v c. c\<lparr>PolyJsonRpcAddress := v\<rparr>)) s = s\<lparr>conf := (conf s)\<lparr>PolyJsonRpcAddress := (if v = [] then PolyJsonRpcAddress (conf s) else v)\<rparr>\<rparr>"
  "set_conf (when_set (Some v) (\<lambda>v c. c\<lparr>WalletFile := v\<rparr>)) s = s\<lparr>conf := (conf s)\<lparr>WalletFile := (if v = [] then WalletFile (conf s) else v)\<rparr>\<rparr>"
  "set_conf (when_set (Some v) (\<lambda>v c. c\<lparr>WalletPwd := v\<rparr>)) s = s\<lparr>conf := (conf s)\<lparr>WalletPwd := (if v = [] then WalletPwd (conf s) else v)\<rparr>\<rparr>"
  "set_conf (when_set (Some v) (\<lambda>v c. c\<lparr>ConfigBitcoinNet := v\<rparr>)) s = s\<lparr>conf := (conf s)\<lparr>ConfigBitcoinNet := (if v = [] then ConfigBitcoinNet (conf s) else v)\<rparr>\<rparr>"
  "set_conf (when_set (Some v) (\<lambda>v c. c\<lparr>ConfigDBPath := v\<rparr>)) s = s\<lparr>conf := (conf s)\<lparr>ConfigDBPath := (if v = [] then ConfigDBPath (conf s) else v)\<rparr>\<rparr>"
  by (simp_all add: set_conf_def when_set_def)

text \<open>
  A complete form of the start page replaces the fields that are not empty, sets the network
  parameters, the RPC client and the account, and nothing else.
\<close>

theorem init_applies_form:
  assumes "form ''rpc'' = Some rpc" and "form ''owallet'' = Some ow" and "form ''opwd'' = Some opwd"
    and "form ''nt'' = Some nt" and "form ''db'' = Some dir"
    and "c = (conf s)\<lparr>PolyJsonRpcAddress := (if rpc = [] then PolyJsonRpcAddress (conf s) else rpc),
        WalletFile := (if ow = [] then WalletFile (conf s) else ow),
        WalletPwd := (if opwd = [] then WalletPwd (conf s) else opwd),
        ConfigBitcoinNet := (if nt = [] then ConfigBitcoinNet (conf s) else nt),
        ConfigDBPath := (if dir = [] then ConfigDBPath (conf s) else dir)\<rparr>"
    and "get_account_by_password (wal E) (WalletFile c) (bytes_of (WalletPwd c)) = Inr a"
  shows "handle_init E T form s =
     (Ret \<lparr>page_status = 200, template = ''index.tmpl'', page_data = [(''title'', PText ''Vendor Tool'')]\<rparr>,
      s\<lparr>conf := c, net_param := Some (net_of (ConfigBitcoinNet c)),
        bs := (set_rpc (PolyJsonRpcAddress c) (bs s))\<lparr>acc := Some a\<rparr>\<rparr>)"
proof -
  have "get_orc_pwd E t = (None, t\<lparr>bs := (set_rpc (PolyJsonRpcAddress c) (bs t))\<lparr>acc := Some a\<rparr>\<rparr>)"
    if "conf t = c" and "bs t = set_rpc (PolyJsonRpcAddress c) (bs s)" for t :: "'a web_state"
    using assms(7) that by (simp add: get_orc_pwd_def set_rpc_def)
  from this assms(1-5) show ?thesis
    unfolding assms(6) by (simp add: handle_init_def field_def when_set_field Let_def set_rpc_def cong: if_cong split del: if_split)
qed

theorem init_applies_form_witness:
  "\<exists>p s'. handle_init sample_env (\<lambda>e. ''error'')
      [''rpc'' \<mapsto> [], ''owallet'' \<mapsto> ''w2'', ''opwd'' \<mapsto> [], ''nt'' \<mapsto> ''main'', ''db'' \<mapsto> []] sample_web = (Ret p, s')
     \<and> WalletFile (conf s') = ''w2'' \<and> net_param s' = Some MainNet \<and> acc (bs s') = Some sample_account"
proof -
  have "get_account_by_password (wal sample_env) f (bytes_of ''pw'') = Inr sample_account" for f
    by (simp add: get_account_by_password_def sample_env_def sample_wallets_def)
  from init_applies_form [OF _ _ _ _ _ refl, where E = sample_env and s = sample_web and a = sample_account
      and form = "[''rpc'' \<mapsto> [], ''owallet'' \<mapsto> ''w2'', ''opwd'' \<mapsto> [], ''nt'' \<mapsto> ''main'', ''db'' \<mapsto> []]"
      and T = "\<lambda>e. ''error''" and rpc = "[]" and ow = "''w2''" and opwd = "[]" and nt = "''main''" and dir = "[]"] this
  show ?thesis by (simp add: sample_web_def sample_conf_def net_of_def)
qed

section \<open>The redeem script\<close>

lemma pubkey_addrs_Inr:
  "pubkey_addrs E net i ss = Ret (Inr arr) \<Longrightarrow>
     \<exists>raws. map hex_decode ss = map Inr raws \<and> map (new_address_pubkey E net) raws = map (\<lambda>a. Ret (Inr a)) arr"
proof (induction ss arbitrary: i arr)
  case Nil
  then show ?case by auto
next
  case (Cons s ss)
  from Cons.prems obtain raw a as where "hex_decode s = Inr raw" "new_address_pubkey E net raw = Ret (Inr a)"
    "pubkey_addrs E net (Suc i) ss = Ret (Inr as)" "arr = a # as"
    by (auto split: sum.splits go.splits)
  moreover from Cons.IH [OF this(3)] obtain raws where "map hex_decode ss = map Inr raws"
    "map (new_address_pubkey E net) raws = map (\<lambda>a. Ret (Inr a)) as" by blast
  ultimately show ?case by (intro exI [of _ "raw # raws"]) simp
qed

text \<open>
  C29: When the redeem page succeeds, the script is the multisig script of the addresses of all the
  public keys of the form, in order, with a required number of at most their count; the configured
  redeem script decodes to it, and nothing else has changed.
\<close>

theorem redeem_page_result:
  assumes "gene_redeem E (net_param s) pubks req = Ret (Inr info)"
    and "form ''pubks'' = Some pubks" and "form ''req'' = Some req"
  shows "\<exists>rn raws arr. parse_uint 64 req = Inr rn \<and> unat rn \<le> length raws mod 2 ^ 64
     \<and> map hex_decode (split_comma (trim_space pubks)) = map Inr raws
     \<and> map (new_address_pubkey E (net_param s)) raws = map (\<lambda>a. Ret (Inr a)) arr
     \<and> multisig_script E arr rn = Inr (redeem_script info)
     \<and> redeem_hash info = hash160 (lib E) (redeem_script info)
     \<and> (let s' = snd (handle_gene_redeem E T form s)
        in hex_decode (Redeem (conf s')) = Inr (redeem_script info)
           \<and> s' = s\<lparr>conf := (conf s)\<lparr>Redeem := Redeem (conf s')\<rparr>\<rparr>)"
proof -
  from assms(1) obtain rn arr where g: "parse_uint 64 req = Inr rn"
    "\<not> of_nat (length (split_comma (trim_space pubks))) < rn"
    "pubkey_addrs E (net_param s) 0 (split_comma (trim_space pubks)) = Ret (Inr arr)"
    "multisig_script E arr rn = Inr (redeem_script info)"
    "redeem_hash info = hash160 (lib E) (redeem_script info)"
    by (auto simp: gene_redeem_def Let_def split: sum.splits go.splits if_splits)
  obtain raws where raws: "map hex_decode (split_comma (trim_space pubks)) = map Inr raws"
    "map (new_address_pubkey E (net_param s)) raws = map (\<lambda>a. Ret (Inr a)) arr"
    using pubkey_addrs_Inr [OF g(3)] by blast
  have "length raws = length (split_comma (trim_space pubks))" using raws(1) by (metis length_map)
  then have "unat rn \<le> length raws mod 2 ^ 64"
    using g(2) by (simp add: not_less word_le_nat_alt unat_of_nat)
  moreover have "snd (handle_gene_redeem E T form s) = s\<lparr>conf := (conf s)\<lparr>Redeem := hex_encode (redeem_script info)\<rparr>\<rparr>"
    using assms by (simp add: handle_gene_redeem_def field_def set_conf_def)
  ultimately show ?thesis using g raws by (auto simp: hex_decode_encode Let_def)
qed

theorem redeem_page_result_witness:
  "\<exists>info. hex_decode (Redeem (conf (snd (handle_gene_redeem sample_env (\<lambda>e. ''error'')
       [''pubks'' \<mapsto> hex_encode [2, 1] @ '','' @ hex_encode [2, 2], ''req'' \<mapsto> ''2''] sample_web)))) = Inr info"
proof -
  let ?pubks = "hex_encode [2, 1] @ '','' @ hex_encode [2, 2]"
  have keys: "split_comma (trim_space ?pubks) = [hex_encode [2, 1], hex_encode [2, 2]]"
    by (simp add: hex_encode_def hex_digit_def trim_space_printable printable_def)
  have two: "parse_uint 64 ''2'' = Inr 2"
    by (simp add: parse_uint_def digit_value_def mask_eq_exp_minus_1 Let_def)
  have addr: "k \<noteq> [] \<Longrightarrow> new_address_pubkey sample_env (Some n) k = Ret (Inr (hex_encode k))" for n k
    by (simp add: sample_env_def)
  have script: "multisig_script sample_env [x, y] 2 = Inr [2, 7, 7]"
    and p2sh: "new_address_script_hash sample_env n r = Ret (Inr ''p2sh'')"
    and p2wsh: "new_address_witness_script_hash sample_env n r = Ret (Inr ''p2wsh'')" for x y n r
    by (simp_all add: sample_env_def)
  have net: "net_param sample_web = Some TestNet3" by (simp add: sample_web_def)
  have "\<exists>info. gene_redeem sample_env (net_param sample_web) ?pubks ''2'' = Ret (Inr info)"
    unfolding gene_redeem_def two keys net
    by (simp add: hex_decode_encode addr script p2sh p2wsh Let_def)
  then obtain info where "gene_redeem sample_env (net_param sample_web) ?pubks ''2'' = Ret (Inr info)"
    by blast
  note result = redeem_page_result [OF this, of "[''pubks'' \<mapsto> ?pubks, ''req'' \<mapsto> ''2'']" "\<lambda>e. ''error''"]
  have "hex_decode (Redeem (conf (snd (handle_gene_redeem sample_env (\<lambda>e. ''error'')
       [''pubks'' \<mapsto> ?pubks, ''req'' \<mapsto> ''2''] sample_web)))) = Inr (redeem_script info)"
    by (rule result [unfolded Let_def, THEN exE]) (simp, simp, elim exE conjE, assumption)
  then show ?thesis by blast
qed

end
