(* ===== verification/Config_Properties.thy ===== *)
theory Config_Properties
  imports Vendor_Config
begin

text \<open>
  The properties of \<open>config/config.go\<close>: a saved configuration is loaded as it was, but for texts
  that are no UTF-8, and a file is accepted exactly when its members have the types of their fields.
\<close>

section \<open>Saving and loading\<close>

definition copy_field :: "config_field \<Rightarrow> config \<Rightarrow> config \<Rightarrow> config" where
  "copy_field f c z = (case f of
     StringField get upd \<Rightarrow> upd (\<lambda>_. get c) z | Int64Field get upd \<Rightarrow> upd (\<lambda>_. get c) z
   | Uint64Field get upd \<Rightarrow> upd (\<lambda>_. get c) z | Uint32Field get upd \<Rightarrow> upd (\<lambda>_. get c) z)"

lemma decode_saved_member:
  "(n, f) \<in> set config_fields \<Longrightarrow> decode_config_member (n, encode_field f c) (z, err) = (copy_field f c z, err)"
  by (simp add: decode_config_member_def field_named_self decode_encode_field copy_field_def)

lemma decode_saved_members:
  "set fs \<subseteq> set config_fields \<Longrightarrow>
     fold decode_config_member (map (\<lambda>(n, f). (n, encode_field f c)) fs) (z, err)
       = (fold (\<lambda>(n, f). copy_field f c) fs z, err)"
  by (induction fs arbitrary: z) (auto simp: decode_saved_member)

lemma copy_all_fields: "fold (\<lambda>(n, f). copy_field f c) config_fields z = c"
  by (rule config.equality) (simp_all add: config_fields_def copy_field_def)

text \<open>The texts of a configuration, and the configuration with these texts made valid UTF-8.\<close>

definition config_texts :: "config \<Rightarrow> string list" where
  "config_texts c =
     [PolyJsonRpcAddress c, WalletFile c, WalletPwd c, BtcWalletPwd c, BtcPrivkFile c, ConfWatchingKey c,
      ConfigBitcoinNet c, ConfigDBPath c, Redeem c, SignerAddr c, ObServerAddr c, WebServerPort c]"

definition valid_config :: "config \<Rightarrow> config" where
  "valid_config c =
     c\<lparr>PolyJsonRpcAddress := to_valid_utf8 (PolyJsonRpcAddress c), WalletFile := to_valid_utf8 (WalletFile c),
       WalletPwd := to_valid_utf8 (WalletPwd c), BtcWalletPwd := to_valid_utf8 (BtcWalletPwd c),
       BtcPrivkFile := to_valid_utf8 (BtcPrivkFile c), ConfWatchingKey := to_valid_utf8 (ConfWatchingKey c),
       ConfigBitcoinNet := to_valid_utf8 (ConfigBitcoinNet c), ConfigDBPath := to_valid_utf8 (ConfigDBPath c),
       Redeem := to_valid_utf8 (Redeem c), SignerAddr := to_valid_utf8 (SignerAddr c),
       ObServerAddr := to_valid_utf8 (ObServerAddr c), WebServerPort := to_valid_utf8 (WebServerPort c)\<rparr>"

lemma valid_config_iff: "valid_config c = c \<longleftrightarrow> list_all valid_utf8 (config_texts c)"
proof
  assume "valid_config c = c"
  then have "config_texts (valid_config c) = config_texts c" by simp
  then show "list_all valid_utf8 (config_texts c)"
    by (simp add: config_texts_def valid_config_def to_valid_iff)
next
  assume "list_all valid_utf8 (config_texts c)"
  then show "valid_config c = c"
    by (intro config.equality) (simp_all add: config_texts_def valid_config_def to_valid_iff)
qed

lemma valid_config_fields:
  "map valid_member (map (\<lambda>(n, f). (n, encode_field f c)) config_fields)
     = map (\<lambda>(n, f). (n, encode_field f (valid_config c))) config_fields"
  by (simp add: config_fields_def valid_config_def)

lemma unmarshal_marshal_config: "unmarshal_config (marshal_config c) z = (valid_config c, None)"
proof -
  have "parse_json (marshal_config c) = Inr (JObj (map (\<lambda>(n, f). (n, encode_field f (valid_config c))) config_fields))"
    unfolding marshal_config_def valid_config_fields [symmetric]
    by (rule parse_marshal_indent) (simp add: config_fields_def, auto simp: encode_field_ok)
  then show ?thesis by (simp add: unmarshal_config_def decode_saved_members copy_all_fields)
qed

text \<open>What is written to a file is read from it.\<close>

definition files_ok :: "'w files \<Rightarrow> bool" where
  "files_ok F \<longleftrightarrow> (\<forall>f b w w'. write_conf F f b w = (None, w') \<longrightarrow> open_read F f w' = Inr (Inr b))"

text \<open>
  C24: A configuration that \<open>Save\<close> has written without error is loaded by \<open>NewConfig\<close>
  from this file without error: every number, also the negative ones, as it was, and every text, also one with
  quotes, control characters and HTML characters, but for the bytes that are no UTF-8, which come back as
  the replacement character. So the configuration is the same exactly if all its texts are valid UTF-8.
\<close>

theorem config_save_load:
  assumes "files_ok F" and "save_config F file c w = (None, w')"
  shows "new_config F file w' = (valid_config c, None)
     \<and> (new_config F file w' = (c, None) \<longleftrightarrow> list_all valid_utf8 (config_texts c))"
proof -
  have "write_conf F file (bytes_of (marshal_config c)) w = (None, w')"
    using assms(2) by (simp add: save_config_def split: prod.splits)
  with assms(1) have "open_read F file w' = Inr (Inr (bytes_of (marshal_config c)))"
    by (auto simp: files_ok_def)
  then have "new_config F file w' = (valid_config c, None)"
    by (simp add: new_config_def config_init_def load_config_def config_read_file_def string_of_bytes_of
        unmarshal_marshal_config)
  then show ?thesis by (simp add: valid_config_iff)
qed

text \<open>The world is a map from names to contents.\<close>

definition sample_files :: "(string \<rightharpoonup> bytes) files" where
  "sample_files = \<lparr>open_read = \<lambda>f w. (case w f of None \<Rightarrow> Inl NotFound | Some b \<Rightarrow> Inr (Inr b)),
     write_conf = \<lambda>f b w. (None, w(f \<mapsto> b))\<rparr>"

lemma sample_files_ok: "files_ok sample_files"
  by (auto simp: files_ok_def sample_files_def)

text \<open>One password is UTF-8, the other is a byte that no code point begins with.\<close>

theorem config_save_load_witness:
  "\<exists>w. new_config sample_files ''conf.json'' w =
     (zero_config\<lparr>SleepTime := - 5, WalletPwd := ''a<b'', BtcWalletPwd := replacement\<rparr>, None)"
proof -
  let ?c = "zero_config\<lparr>SleepTime := - 5, WalletPwd := ''a<b'', BtcWalletPwd := [CHR 0xFF]\<rparr>"
  have "\<exists>w. save_config sample_files ''conf.json'' ?c Map.empty = (None, w)"
    by (simp add: save_config_def sample_files_def)
  then obtain w where "save_config sample_files ''conf.json'' ?c Map.empty = (None, w)" by blast
  moreover have "to_valid_utf8 [CHR 0xFF] = replacement"
    by (simp add: to_valid_utf8.simps(2) rune_size.simps(2) rune_length_def)
  then have "valid_config ?c = zero_config\<lparr>SleepTime := - 5, WalletPwd := ''a<b'', BtcWalletPwd := replacement\<rparr>"
    by (simp add: valid_config_def zero_config_def)
  ultimately show ?thesis using config_save_load [OF sample_files_ok, of _ ?c] by auto
qed

section \<open>Types\<close>

text \<open>The values that fit a field; \<open>null\<close> leaves it as it is.\<close>

definition uint_literal :: "nat \<Rightarrow> string \<Rightarrow> bool" where
  "uint_literal bits lit \<longleftrightarrow> lit \<noteq> [] \<and> all_digits lit \<and> digits_from 0 lit < 2 ^ bits"

definition int_literal :: "string \<Rightarrow> bool" where
  "int_literal lit \<longleftrightarrow> uint_literal 63 lit
     \<or> (\<exists>d. lit = CHR ''-'' # d \<and> d \<noteq> [] \<and> all_digits d \<and> digits_from 0 d \<le> 2 ^ 63)"

definition well_typed :: "config_field \<Rightarrow> json \<Rightarrow> bool" where
  "well_typed f j \<longleftrightarrow> j = JNull \<or> (case f of
     StringField get upd \<Rightarrow> (\<exists>s. j = JStr s)
   | Int64Field get upd \<Rightarrow> (\<exists>lit. j = JNum lit \<and> int_literal lit)
   | Uint64Field get upd \<Rightarrow> (\<exists>lit. j = JNum lit \<and> uint_literal 64 lit)
   | Uint32Field get upd \<Rightarrow> (\<exists>lit. j = JNum lit \<and> uint_literal 32 lit))"

lemma parse_uint_literal: "bits \<le> 64 \<Longrightarrow> (\<exists>v. parse_uint bits lit = Inr v) \<longleftrightarrow> uint_literal bits lit"
  by (auto simp: parse_uint_Inr uint_literal_def)

lemma le_words: "2 ^ 63 \<le> (v :: u64) \<longleftrightarrow> 2 ^ 63 \<le> unat v" "2 ^ 63 < (v :: u64) \<longleftrightarrow> 2 ^ 63 < unat v"
  by (simp_all add: word_le_nat_alt word_less_nat_alt)

lemma parse_uint_64: "parse_uint 64 s = Inr v \<longleftrightarrow> s \<noteq> [] \<and> all_digits s \<and> digits_from 0 s = unat v"
proof
  assume "parse_uint 64 s = Inr v"
  then show "s \<noteq> [] \<and> all_digits s \<and> digits_from 0 s = unat v" by (auto simp: parse_uint_Inr unat_of_nat)
next
  assume s: "s \<noteq> [] \<and> all_digits s \<and> digits_from 0 s = unat v"
  have "unat v < 2 ^ 64" by simp
  with s show "parse_uint 64 s = Inr v" by (simp add: parse_uint_Inr)
qed

lemma parse_int_literal:
  assumes "number_ok lit"
  shows "(\<exists>v. parse_int lit = Inr v) \<longleftrightarrow> int_literal lit"
proof (cases lit)
  case (Cons c t)
  show ?thesis
  proof (cases "c = CHR ''-''")
    case True
    have "digit_value c = None" using True by (simp add: digit_value_def)
    then have "\<not> all_digits lit" using Cons by (simp add: all_digits_def)
    then have spec: "int_literal lit \<longleftrightarrow> t \<noteq> [] \<and> all_digits t \<and> digits_from 0 t \<le> 2 ^ 63"
      using Cons True by (simp add: int_literal_def uint_literal_def)
    show ?thesis
    proof (cases "parse_uint 64 t")
      case (Inl e)
      then have "\<not> (t \<noteq> [] \<and> all_digits t \<and> digits_from 0 t < 2 ^ 64)"
        using parse_uint_literal [of 64 t] by (simp add: uint_literal_def)
      with Inl spec Cons True show ?thesis by (auto simp: parse_int_def)
    next
      case (Inr un)
      with Cons True have "(\<exists>v. parse_int lit = Inr v) \<longleftrightarrow> unat un \<le> 2 ^ 63"
        using le_words(2) [of un] by (auto simp: parse_int_def not_less)
      with Inr spec show ?thesis by (simp add: parse_uint_64)
    qed
  next
    case False
    from assms Cons False have "is_digit c"
      by (auto simp: number_ok_def drop_sign_def Let_def split: if_splits)
    then have plus: "c \<noteq> CHR ''+''" by (auto simp: is_digit_def digit_value_def)
    have spec: "int_literal lit \<longleftrightarrow> uint_literal 63 lit" using Cons False by (simp add: int_literal_def)
    show ?thesis
    proof (cases "parse_uint 64 lit")
      case (Inl e)
      then have "\<not> uint_literal 64 lit" using parse_uint_literal [of 64 lit] by simp
      then have "\<not> uint_literal 63 lit" by (auto simp: uint_literal_def)
      with Inl spec Cons False plus show ?thesis by (simp add: parse_int_def)
    next
      case (Inr un)
      with Cons False plus have "(\<exists>v. parse_int lit = Inr v) \<longleftrightarrow> unat un < 2 ^ 63"
        using le_words(1) [of un] by (auto simp: parse_int_def not_le)
      with Inr spec show ?thesis by (simp add: parse_uint_64 uint_literal_def)
    qed
  qed
qed (use assms number_ok_not_Nil in simp)

lemma decode_field_typed:
  assumes "json_ok j"
  shows "(\<exists>c'. decode_field f j c = Inr c') \<longleftrightarrow> well_typed f j"
proof (cases f)
  case (StringField get upd)
  then show ?thesis by (cases j) (auto simp: well_typed_def decode_string_def store_field_def)
next
  case (Int64Field get upd)
  with assms show ?thesis
    by (cases j) (auto simp: well_typed_def decode_int64_def store_field_def simp flip: parse_int_literal split: sum.splits)
next
  case (Uint64Field get upd)
  with assms show ?thesis
    by (cases j) (auto simp: well_typed_def decode_uint64_def store_field_def simp flip: parse_uint_literal split: sum.splits)
next
  case (Uint32Field get upd)
  with assms show ?thesis
    by (cases j) (auto simp: well_typed_def decode_uint32_def store_field_def simp flip: parse_uint_literal split: sum.splits)
qed

lemma decode_config_member_error: "snd (decode_config_member kv (c, Some e)) = Some e"
  by (simp add: decode_config_member_def keep_error_def split: option.split sum.split)

lemma decode_members_error: "snd (fold decode_config_member kvs (c, Some e)) = Some e"
proof (induction kvs arbitrary: c)
  case (Cons kv kvs)
  obtain c' where "decode_config_member kv (c, Some e) = (c', Some e)"
    using decode_config_member_error [of kv c e] by (metis prod.collapse)
  with Cons show ?case by simp
qed simp

definition member_typed :: "string \<times> json \<Rightarrow> bool" where
  "member_typed kv \<longleftrightarrow> (case field_named (fst kv) of None \<Rightarrow> True | Some f \<Rightarrow> well_typed f (snd kv))"

lemma decode_members_typed:
  "list_all (\<lambda>kv. json_ok (snd kv)) kvs \<Longrightarrow>
     snd (fold decode_config_member kvs (c, None)) = None \<longleftrightarrow> list_all member_typed kvs"
proof (induction kvs arbitrary: c)
  case (Cons kv kvs)
  show ?case
  proof (cases "member_typed kv")
    case True
    have "\<exists>c'. decode_config_member kv (c, None) = (c', None)"
    proof (cases "field_named (fst kv)")
      case (Some f)
      with True Cons.prems obtain c' where "decode_field f (snd kv) c = Inr c'"
        using decode_field_typed [of "snd kv" f c] by (auto simp: member_typed_def)
      with Some show ?thesis by (simp add: decode_config_member_def)
    qed (simp add: decode_config_member_def)
    then obtain c' where "decode_config_member kv (c, None) = (c', None)" by blast
    with Cons True show ?thesis by simp
  next
    case False
    then obtain f where "field_named (fst kv) = Some f" "\<not> well_typed f (snd kv)"
      by (auto simp: member_typed_def split: option.splits)
    then obtain c' e where "decode_config_member kv (c, None) = (c', Some e)"
      using Cons.prems decode_field_typed [of "snd kv" f c]
      by (cases "decode_field f (snd kv) c") (auto simp: decode_config_member_def keep_error_def)
    with False show ?thesis by (simp add: decode_members_error)
  qed
qed simp

text \<open>
  C25: \<open>NewConfig\<close> returns no error exactly for a readable file that holds \<open>null\<close> or a JSON
  object in which every member with the name of a field, in any case of letters, has the type of
  that field: a text, or an integer literal within the range of its width. Other members are
  ignored, and a missing one is no error.
\<close>

theorem config_load_types:
  "snd (new_config F file w) = None \<longleftrightarrow>
     (\<exists>b j. open_read F file w = Inr (Inr b) \<and> parse_json (string_of b) = Inr j
        \<and> (j = JNull \<or> (\<exists>kvs. j = JObj kvs \<and> list_all member_typed kvs)))"
proof (cases "open_read F file w")
  case (Inr res)
  then show ?thesis
  proof (cases res)
    case (Inr b)
    note opened = \<open>open_read F file w = Inr res\<close> \<open>res = Inr b\<close>
    have load: "snd (new_config F file w) = None \<longleftrightarrow> snd (unmarshal_config (string_of b) zero_config) = None"
      using opened by (auto simp: new_config_def config_init_def load_config_def config_read_file_def
          split: prod.split option.split)
    show ?thesis
    proof (cases "parse_json (string_of b)")
      case Inl
      with opened load show ?thesis by (simp add: unmarshal_config_def)
    next
      case (Inr j)
      have "list_all (\<lambda>kv. json_ok (snd kv)) kvs" if "j = JObj kvs" for kvs
        using parse_json_ok [OF Inr] that by (simp add: list.pred_map comp_def)
      with opened load Inr show ?thesis
        using decode_members_typed [of _ zero_config] by (cases j) (auto simp: unmarshal_config_def)
    qed
  qed (simp add: new_config_def config_init_def load_config_def config_read_file_def)
qed (simp add: new_config_def config_init_def load_config_def config_read_file_def)

end
