(* ===== verification/Vendor_Log.thy ===== *)
theory Vendor_Log
  imports Vendor_Config
begin

text \<open>
  \<open>log/log.go\<close>: the levels, their names, what a logger lets through and the line it writes. An
  \<open>int\<close> is a two's complement word. The operands of a message are the texts they print as, the
  caller's function, file and line and the number of the goroutine, as \<open>get_gid\<close> reads it off the
  stack, are arguments.
\<close>

section \<open>Levels and names\<close>

definition TraceLog :: u64 where "TraceLog = 0"
definition DebugLog :: u64 where "DebugLog = 1"
definition InfoLog :: u64 where "InfoLog = 2"
definition WarnLog :: u64 where "WarnLog = 3"
definition ErrorLog :: u64 where "ErrorLog = 4"
definition FatalLog :: u64 where "FatalLog = 5"
definition MaxLevelLog :: u64 where "MaxLevelLog = 6"

lemmas log_levels = TraceLog_def DebugLog_def InfoLog_def WarnLog_def ErrorLog_def FatalLog_def MaxLevelLog_def

definition Color :: "string \<Rightarrow> string \<Rightarrow> string" where
  "Color code msg = [CHR 0x1B, CHR ''[''] @ code @ ''m'' @ msg @ [CHR 0x1B, CHR ''['', CHR ''m'']"

definition levels :: "(u64 \<times> string) list" where
  "levels = [(DebugLog, Color ''0;32'' ''[DEBUG]''), (InfoLog, Color ''0;36'' ''[INFO ]''),
     (WarnLog, Color ''0;33'' ''[WARN ]''), (ErrorLog, Color ''0;31'' ''[ERROR]''),
     (FatalLog, Color ''0;31'' ''[FATAL]''), (TraceLog, Color ''1;35'' ''[TRACE]'')]"

definition NAME_PREFIX :: string where
  "NAME_PREFIX = ''LEVEL''"

definition level_name :: "u64 \<Rightarrow> string" where
  "level_name level = (case map_of levels level of Some name \<Rightarrow> name | None \<Rightarrow> NAME_PREFIX @ format_int level)"

text \<open>
  What \<open>strconv.Atoi\<close> gives beside an error, which is dropped: 0 for a malformed number, the
  nearest \<open>int\<close> for one that is out of range.
\<close>

definition atoi :: "string \<Rightarrow> u64" where
  "atoi s = (case parse_int s of Inr n \<Rightarrow> n
     | Inl e \<Rightarrow> if e \<noteq> RangeError then 0 else if s \<noteq> [] \<and> hd s = CHR ''-'' then 2 ^ 63 else 2 ^ 63 - 1)"

text \<open>The names are distinct, so the order in which the map is walked through does not matter.\<close>

definition name_level :: "string \<Rightarrow> u64" where
  "name_level name =
     (case map_of (map prod.swap levels) name of Some k \<Rightarrow> k
      | None \<Rightarrow> if take (length NAME_PREFIX) name = NAME_PREFIX then atoi (drop (length NAME_PREFIX) name) else 0)"

section \<open>The number of the goroutine\<close>

text \<open>
  What \<open>ParseUint\<close> gives beside an error, which is dropped: 0 for a malformed number, the largest
  for one that is out of range. \<open>stack\<close> is the text of the goroutine's stack, of which the
  first 64 bytes are looked at.
\<close>

definition parsed_or_nearest :: "string \<Rightarrow> u64" where
  "parsed_or_nearest s = (case parse_uint 64 s of Inr n \<Rightarrow> n | Inl e \<Rightarrow> if e = RangeError then - 1 else 0)"

definition get_gid :: "string \<Rightarrow> u64 go" where
  "get_gid stack =
     (let b = take 64 stack;
          b = (if take 10 b = ''goroutine '' then drop 10 b else b)
      in if CHR '' '' \<in> set b then Ret (parsed_or_nearest (takeWhile (\<lambda>c. c \<noteq> CHR '' '') b))
         else Panic SliceOutOfRange)"

section \<open>The logger\<close>

record logger =
  level :: u64
  logFile :: "string option"

definition new_logger :: "u64 \<Rightarrow> string option \<Rightarrow> logger" where
  "new_logger lvl file = \<lparr>level = lvl, logFile = file\<rparr>"

definition set_debug_level :: "u64 \<Rightarrow> logger \<Rightarrow> go_error option \<times> logger" where
  "set_debug_level lvl l =
     (if word_sless MaxLevelLog lvl \<or> word_sless lvl 0 then (Some (Text ''Invalid Debug Level''), l)
      else (None, l\<lparr>level := lvl\<rparr>))"

text \<open>\<open>fmt.Sprintln\<close> of texts, and the line of a message; \<open>None\<close>: nothing is written.\<close>

fun sprintln :: "string list \<Rightarrow> string" where
  "sprintln [] = [CHR 0x0A]"
| "sprintln [s] = s @ [CHR 0x0A]"
| "sprintln (s # t # ts) = s @ CHR '' '' # sprintln (t # ts)"

definition log_output :: "u64 \<Rightarrow> logger \<Rightarrow> u64 \<Rightarrow> string list \<Rightarrow> string option" where
  "log_output gid l lvl as =
     (if word_sle (level l) lvl then Some (sprintln ([level_name lvl, ''GID'', format_uint gid @ '','' ] @ as)) else None)"

definition log_outputf :: "u64 \<Rightarrow> logger \<Rightarrow> u64 \<Rightarrow> string \<Rightarrow> string option" where
  "log_outputf gid l lvl msg =
     (if word_sle (level l) lvl
      then Some (level_name lvl @ '' GID '' @ format_uint gid @ '', '' @ msg @ [CHR 0x0A]) else None)"

text \<open>The methods of a logger.\<close>

definition logger_trace :: "u64 \<Rightarrow> logger \<Rightarrow> string list \<Rightarrow> string option" where
  "logger_trace gid l as = log_output gid l TraceLog as"

definition logger_tracef :: "u64 \<Rightarrow> logger \<Rightarrow> string \<Rightarrow> string option" where
  "logger_tracef gid l msg = log_outputf gid l TraceLog msg"

definition logger_debug :: "u64 \<Rightarrow> logger \<Rightarrow> string list \<Rightarrow> string option" where
  "logger_debug gid l as = log_output gid l DebugLog as"

definition logger_debugf :: "u64 \<Rightarrow> logger \<Rightarrow> string \<Rightarrow> string option" where
  "logger_debugf gid l msg = log_outputf gid l DebugLog msg"

definition logger_info :: "u64 \<Rightarrow> logger \<Rightarrow> string list \<Rightarrow> string option" where
  "logger_info gid l as = log_output gid l InfoLog as"

definition logger_infof :: "u64 \<Rightarrow> logger \<Rightarrow> string \<Rightarrow> string option" where
  "logger_infof gid l msg = log_outputf gid l InfoLog msg"

definition logger_warn :: "u64 \<Rightarrow> logger \<Rightarrow> string list \<Rightarrow> string option" where
  "logger_warn gid l as = log_output gid l WarnLog as"

definition logger_warnf :: "u64 \<Rightarrow> logger \<Rightarrow> string \<Rightarrow> string option" where
  "logger_warnf gid l msg = log_outputf gid l WarnLog msg"

definition logger_error :: "u64 \<Rightarrow> logger \<Rightarrow> string list \<Rightarrow> string option" where
  "logger_error gid l as = log_output gid l ErrorLog as"

definition logger_errorf :: "u64 \<Rightarrow> logger \<Rightarrow> string \<Rightarrow> string option" where
  "logger_errorf gid l msg = log_outputf gid l ErrorLog msg"

definition logger_fatal :: "u64 \<Rightarrow> logger \<Rightarrow> string list \<Rightarrow> string option" where
  "logger_fatal gid l as = log_output gid l FatalLog as"

definition logger_fatalf :: "u64 \<Rightarrow> logger \<Rightarrow> string \<Rightarrow> string option" where
  "logger_fatalf gid l msg = log_outputf gid l FatalLog msg"

lemmas logger_methods = logger_trace_def logger_tracef_def logger_debug_def logger_debugf_def logger_info_def logger_infof_def 
  logger_warn_def logger_warnf_def logger_error_def logger_errorf_def logger_fatal_def logger_fatalf_def

text \<open>The functions of the package; \<open>Log\<close> is the global logger.\<close>

definition log_info :: "u64 \<Rightarrow> logger \<Rightarrow> string list \<Rightarrow> string option" where
  "log_info gid Log as = logger_info gid Log as"

definition log_warn :: "u64 \<Rightarrow> logger \<Rightarrow> string list \<Rightarrow> string option" where
  "log_warn gid Log as = logger_warn gid Log as"

definition log_error :: "u64 \<Rightarrow> logger \<Rightarrow> string list \<Rightarrow> string option" where
  "log_error gid Log as = logger_error gid Log as"

definition log_fatal :: "u64 \<Rightarrow> logger \<Rightarrow> string list \<Rightarrow> string option" where
  "log_fatal gid Log as = logger_fatal gid Log as"

definition log_infof :: "u64 \<Rightarrow> logger \<Rightarrow> string \<Rightarrow> string option" where
  "log_infof gid Log msg = logger_infof gid Log msg"

definition log_warnf :: "u64 \<Rightarrow> logger \<Rightarrow> string \<Rightarrow> string option" where
  "log_warnf gid Log msg = logger_warnf gid Log msg"

definition log_errorf :: "u64 \<Rightarrow> logger \<Rightarrow> string \<Rightarrow> string option" where
  "log_errorf gid Log msg = logger_errorf gid Log msg"

definition log_fatalf :: "u64 \<Rightarrow> logger \<Rightarrow> string \<Rightarrow> string option" where
  "log_fatalf gid Log msg = logger_fatalf gid Log msg"

text \<open>\<open>Trace\<close> and \<open>Debug\<close> look at the caller, and only when the message is wanted.\<close>

record caller =
  func_name :: string
  file_base :: string
  file_line :: nat

text \<open>\<open>filepath.Ext\<close> of the full name without its first dot: the part after the last dot.\<close>

definition short_name :: "string \<Rightarrow> string" where
  "short_name f =
     (let base = rev (takeWhile (\<lambda>c. c \<noteq> CHR ''/'') (rev f))
      in if CHR ''.'' \<in> set base then rev (takeWhile (\<lambda>c. c \<noteq> CHR ''.'') (rev base)) else [])"

definition place :: "caller \<Rightarrow> string" where
  "place c = file_base c @ '':'' @ format_nat (file_line c)"

definition log_trace :: "u64 \<Rightarrow> caller \<Rightarrow> logger \<Rightarrow> string list \<Rightarrow> string option" where
  "log_trace gid c Log as =
     (if word_sless TraceLog (level Log) then None
      else logger_trace gid Log ([short_name (func_name c) @ ''()'', place c] @ as))"

definition log_tracef :: "u64 \<Rightarrow> caller \<Rightarrow> logger \<Rightarrow> string \<Rightarrow> string option" where
  "log_tracef gid c Log msg =
     (if word_sless TraceLog (level Log) then None
      else logger_tracef gid Log (short_name (func_name c) @ ''() '' @ place c @ '' '' @ msg))"

definition log_debug :: "u64 \<Rightarrow> caller \<Rightarrow> logger \<Rightarrow> string list \<Rightarrow> string option" where
  "log_debug gid c Log as =
     (if word_sless DebugLog (level Log) then None
      else logger_debug gid Log ([func_name c, place c] @ as))"

definition log_debugf :: "u64 \<Rightarrow> caller \<Rightarrow> logger \<Rightarrow> string \<Rightarrow> string option" where
  "log_debugf gid c Log msg =
     (if word_sless DebugLog (level Log) then None
      else logger_debugf gid Log (func_name c @ '' '' @ place c @ '' '' @ msg))"

section \<open>Files\<close>

text \<open>
  What the operating system is asked: whether a path is a directory (\<open>NotFound\<close>: there is
  nothing), to make directories, the time as it is written into file names, and to open a file,
  which is named by what it was opened as.
\<close>

record 'w log_os =
  stat_dir :: "string \<Rightarrow> 'w \<Rightarrow> go_error + bool"
  mkdir_all :: "string \<Rightarrow> 'w \<Rightarrow> go_error option \<times> 'w"
  time_text :: "'w \<Rightarrow> string"
  open_log :: "string \<Rightarrow> 'w \<Rightarrow> go_error option \<times> 'w"

definition open_log_file :: "'w log_os \<Rightarrow> string \<Rightarrow> 'w \<Rightarrow> (go_error + string) \<times> 'w" where
  "open_log_file S path w =
     (let name = path @ time_text S w @ ''_LOG.log'' in
      case open_log S name w of (Some err, w) \<Rightarrow> (Inl err, w) | (None, w) \<Rightarrow> (Inr name, w))"

definition file_open :: "'w log_os \<Rightarrow> string \<Rightarrow> 'w \<Rightarrow> (go_error + string) \<times> 'w" where
  "file_open S path w =
     (case stat_dir S path w of
        Inr is_dir \<Rightarrow>
          if is_dir then open_log_file S path w else (Inl (Text (''open '' @ path @ '': not a directory'')), w)
      | Inl err \<Rightarrow>
          if err = NotFound then
            (case mkdir_all S path w of (Some e, w) \<Rightarrow> (Inl e, w) | (None, w) \<Rightarrow> open_log_file S path w)
          else (Inl err, w))"

text \<open>
  What \<open>InitLog\<close> is given: a directory for a log file, an open file, or anything else. It exits
  (\<open>None\<close>) when a file cannot be opened and for anything else; the last log file opened is the one
  that is kept.
\<close>

datatype log_target = LogDir string | OpenFile string | OtherTarget

record init_result =
  writers :: "string list"
  Log :: logger

fun collect_writers ::
  "'w log_os \<Rightarrow> log_target list \<Rightarrow> string list \<Rightarrow> string option \<Rightarrow> 'w \<Rightarrow> (string list \<times> string option) option \<times> 'w" where
  "collect_writers S [] ws f w = (Some (ws, f), w)"
| "collect_writers S (LogDir d # as) ws f w =
     (case file_open S d w of (Inl e, w) \<Rightarrow> (None, w)
      | (Inr file, w) \<Rightarrow> collect_writers S as (ws @ [file]) (Some file) w)"
| "collect_writers S (OpenFile o' # as) ws f w = collect_writers S as (ws @ [o']) f w"
| "collect_writers S (OtherTarget # as) ws f w = (None, w)"

definition init_log :: "'w log_os \<Rightarrow> u64 \<Rightarrow> log_target list \<Rightarrow> 'w \<Rightarrow> init_result option \<times> 'w" where
  "init_log S logLevel as w =
     map_prod (map_option (\<lambda>(ws, f). \<lparr>writers = ws, Log = new_logger logLevel f\<rparr>)) id
       (if as = [] then (Some ([''discard''], None), w) else collect_writers S as [] None w)"

text \<open>The global logger at the start of the program, and the deprecated \<open>Init\<close>, which warns first.\<close>

definition Stdout :: log_target where
  "Stdout = OpenFile ''stdout''"

definition log_start :: "'w log_os \<Rightarrow> 'w \<Rightarrow> init_result option \<times> 'w" where
  "log_start S w = init_log S InfoLog [Stdout] w"

definition deprecated_init ::
  "('w \<Rightarrow> string \<Rightarrow> 'w) \<Rightarrow> 'w log_os \<Rightarrow> log_target list \<Rightarrow> 'w \<Rightarrow> init_result option \<times> 'w" where
  "deprecated_init write_stderr S as w =
     init_log S InfoLog as
       (write_stderr w (''warning: use of deprecated Init. Use InitLog instead'' @ [CHR 0x0A]))"

text \<open>\<open>stat\<close> is the result of \<open>Stat\<close> on the log file; closing no file is no error.\<close>

definition get_log_file_size :: "(string option \<Rightarrow> go_error + u64) \<Rightarrow> logger \<Rightarrow> go_error + u64" where
  "get_log_file_size stat l = stat (logFile l)"

definition close_print_log :: "(string \<Rightarrow> go_error option) \<Rightarrow> logger \<Rightarrow> go_error option" where
  "close_print_log close l = (case logFile l of None \<Rightarrow> None | Some f \<Rightarrow> close f)"

definition DEFAULT_MAX_LOG_SIZE :: u64 where
  "DEFAULT_MAX_LOG_SIZE = 20"

definition BYTE_TO_MB :: u64 where
  "BYTE_TO_MB = 1024 * 1024"

definition get_max_log_change_interval :: "u64 \<Rightarrow> u64" where
  "get_max_log_change_interval maxLogSize =
     (if maxLogSize \<noteq> 0 then maxLogSize * BYTE_TO_MB else DEFAULT_MAX_LOG_SIZE * BYTE_TO_MB)"

definition check_if_need_new_file :: "(string option \<Rightarrow> go_error + u64) \<Rightarrow> logger \<Rightarrow> bool" where
  "check_if_need_new_file stat l =
     (case get_log_file_size stat l of Inl e \<Rightarrow> False
      | Inr n \<Rightarrow> word_sless (get_max_log_change_interval 0) n)"

section \<open>Names and levels\<close>

lemma level_names:
  "map_of levels l = Some name \<longleftrightarrow> (l, name) \<in> set levels"
  "map_of (map prod.swap levels) name = Some l \<longleftrightarrow> (l, name) \<in> set levels"
  by (auto simp: levels_def log_levels Color_def split: if_splits)

lemma no_level_name: "map_of (map prod.swap levels) (NAME_PREFIX @ s) = None"
  by (simp add: levels_def Color_def NAME_PREFIX_def)

text \<open>
  \<open>NameLevel\<close> reads back every level from its \<open>LevelName\<close>: the six named ones and every
  other number, negative ones too, which prints as \<open>LEVEL\<close> and the number.
\<close>

theorem level_name_roundtrip: "name_level (level_name l) = l"
proof (cases "map_of levels l")
  case (Some name)
  then have "map_of (map prod.swap levels) name = Some l" by (simp add: level_names)
  with Some show ?thesis by (simp add: level_name_def name_level_def)
next
  case None
  have "atoi (format_int l) = l" by (simp add: atoi_def parse_int_format)
  moreover have "level_name l = NAME_PREFIX @ format_int l" using None by (simp add: level_name_def)
  ultimately show ?thesis by (simp add: name_level_def no_level_name)
qed

text \<open>What a logger of a level lets through.\<close>

lemma log_written:
  "log_tracef gid c L msg \<noteq> None \<longleftrightarrow> word_sle (level L) TraceLog"
  "log_debugf gid c L msg \<noteq> None \<longleftrightarrow> word_sle (level L) DebugLog"
  "log_infof gid L msg \<noteq> None \<longleftrightarrow> word_sle (level L) InfoLog"
  "log_errorf gid L msg \<noteq> None \<longleftrightarrow> word_sle (level L) ErrorLog"
  "log_fatalf gid L msg \<noteq> None \<longleftrightarrow> word_sle (level L) FatalLog"
  by (auto simp: log_tracef_def log_debugf_def log_infof_def log_errorf_def log_fatalf_def logger_methods
      log_outputf_def signed.not_less)

lemma format_nat_length: "n < 10 ^ Suc k \<Longrightarrow> length (format_nat n) \<le> Suc k"
proof (induction n arbitrary: k rule: format_nat.induct)
  case (1 n)
  show ?case
  proof (cases "n < 10")
    case False
    with 1 obtain j where "k = Suc j" by (cases k) simp_all
    with 1 False show ?thesis by (subst format_nat.simps) auto
  qed (subst format_nat.simps, simp)
qed

text \<open>The number is read back from the head of a stack, which starts \<open>goroutine 7 [running]:\<close>.\<close>

lemma get_gid_stack: "get_gid (''goroutine '' @ format_uint n @ '' '' @ rest) = Ret n"
proof -
  have "c \<noteq> CHR '' ''" if "c \<in> set (format_uint n)" for c
    using that format_nat_number [of "unat n"]
    by (auto simp: format_uint_def list_all_iff is_digit_def digit_value_def)
  then have digits: "takeWhile (\<lambda>c. c \<noteq> CHR '' '') (format_uint n @ CHR '' '' # t) = format_uint n" for t
    by (simp add: takeWhile_append2)
  have "length (format_uint n) \<le> 20"
    using format_nat_length [of "unat n" 19] unat_bounds(3) [of n] by (simp add: format_uint_def)
  then have "take 64 (''goroutine '' @ format_uint n @ '' '' @ rest)
      = ''goroutine '' @ format_uint n @ '' '' @ take (53 - length (format_uint n)) rest"
    by (simp add: take_Cons')
  moreover have "parsed_or_nearest (format_uint n) = n"
    by (simp add: parsed_or_nearest_def parse_uint_format)
  ultimately show ?thesis by (simp add: get_gid_def digits)
qed

end
