(* ===== verification/Vendor_Flags.thy ===== *)
theory Vendor_Flags
  imports Prelude
begin

text \<open>
  \<open>config/flags.go\<close>: the flags of the command line, with the values they have when they are not
  given. The library that reads the command line is the record \<open>cli\<close>, an argument.
\<close>

text \<open>Name, usage and default value.\<close>

datatype flag = UintFlag string string u64 | StringFlag string string string | IntFlag string string u64

primrec flag_name :: "flag \<Rightarrow> string" where
  "flag_name (UintFlag n u v) = n"
| "flag_name (StringFlag n u v) = n"
| "flag_name (IntFlag n u v) = n"

definition DEFAULT_LOG_LEVEL :: u64 where
  "DEFAULT_LOG_LEVEL = 2"

definition DEFAULT_MAXPROC_NUM :: u64 where
  "DEFAULT_MAXPROC_NUM = 4"

definition LogLevelFlag :: flag where
  "LogLevelFlag = UintFlag ''loglevel''
     ''Set the log level to `<level>` (0~6). 0:Trace 1:Debug 2:Info 3:Warn 4:Error 5:Fatal 6:MaxLevel'' DEFAULT_LOG_LEVEL"

definition ConfigFileFlag :: flag where
  "ConfigFileFlag = StringFlag ''config'' ''the config file of polygon service.'' ''./conf.json''"

definition GoMaxProcs :: flag where
  "GoMaxProcs = IntFlag ''gomaxprocs'' ''max number of cpu core that runtime can use.'' DEFAULT_MAXPROC_NUM"

definition PolyWalletPwd :: flag where
  "PolyWalletPwd = StringFlag ''polypwd'' ''the password of polygon wallet.'' []"

definition BtcWalletPwdFlag :: flag where
  "BtcWalletPwdFlag = StringFlag ''btcpwd'' ''the password of btc wallet.'' []"

definition RunModeFlag :: flag where
  "RunModeFlag = StringFlag ''mode'' ''the mode for this tool, eg: onlysig, onlyob, all'' ''all''"

definition WebFlag :: flag where
  "WebFlag = IntFlag ''web'' ''start web server or not: 1(Y), 0(N)'' 1"

lemmas flag_defs = LogLevelFlag_def ConfigFileFlag_def GoMaxProcs_def PolyWalletPwd_def BtcWalletPwdFlag_def
  RunModeFlag_def WebFlag_def

section \<open>The command line\<close>

text \<open>
  Reading the arguments for some flags fails, or gives a context \<open>'c\<close>, in which the value of a flag is
  looked up by name.
\<close>

record 'c cli =
  read_args :: "flag list \<Rightarrow> string list \<Rightarrow> go_error + 'c"
  global_string :: "'c \<Rightarrow> string \<Rightarrow> string"
  global_int :: "'c \<Rightarrow> string \<Rightarrow> u64"

primrec has_default :: "'c cli \<Rightarrow> 'c \<Rightarrow> flag \<Rightarrow> bool" where
  "has_default X c (UintFlag n u v) = (global_int X c n = v)"
| "has_default X c (StringFlag n u v) = (global_string X c n = v)"
| "has_default X c (IntFlag n u v) = (global_int X c n = v)"

text \<open>What the library documents of a flag that is not given: without arguments all have their defaults.\<close>

definition cli_defaults :: "'c cli \<Rightarrow> bool" where
  "cli_defaults X \<longleftrightarrow>
     (\<forall>fs prog. distinct (map flag_name fs) \<longrightarrow>
        (\<exists>c. read_args X fs [prog] = Inr c \<and> (\<forall>f \<in> set fs. has_default X c f)))"

end
