(* ===== verification/Vendor_Run.thy ===== *)
theory Vendor_Run
  imports Web_Controller Vendor_Observer Rest_Server Vendor_Log Vendor_Flags
begin

text \<open>
  \<open>cmd/run.go\<close>: from the command line and the configuration file to the goroutines of a mode. The
  main program stops with exit code 1, crashes by a panic, waits for the web page forever, or goes
  on to wait for a signal with its goroutines running. In mode \<open>all\<close> the observer is started before
  the signer is made: when that fails, the goroutine of the observer has run until then. The requests that reach the web page are an
  argument; those after the one that closes \<open>done\<close> are not part of the start.
\<close>

section \<open>The surroundings\<close>

record run_flags =
  LogLevel :: u64
  ConfigFile :: string
  PolyPwdFlag :: string
  BtcPwdFlag :: string
  RunMode :: string
  Web :: u64

record ('d, 'w) run_env =
  web_lib :: "'w web_env"
  store_lib :: "'w store_env"
  file_sys :: "'w files"
  level_db :: "'d leveldb"
  open_db :: "string \<Rightarrow> 'w \<Rightarrow> (go_error + 'd) \<times> 'w"
  web_listen :: "string \<Rightarrow> go_error option"
  get_password :: "'w \<Rightarrow> (go_error + bytes) \<times> 'w"
  error_text :: "go_error \<Rightarrow> string"
  log_lib :: "'w log_os"

datatype stopped = Exited | Crashed go_panic | WaitsForWeb

datatype goroutine = Listen observer | Signing signer | RestServe u64 "route_handler router" signer

record ('d, 'w) running =
  routines :: "goroutine list"
  run_vdb :: "'d vendor_db"
  run_conf :: config
  run_poly :: poly_sdk
  sleep_dur :: u64
  run_log :: logger
  run_world :: 'w

section \<open>The web page, or the network of the file\<close>

primrec serve_until_done ::
  "'w web_env \<Rightarrow> 'w store_env \<Rightarrow> (go_error \<Rightarrow> string) \<Rightarrow> (string \<times> form) list \<Rightarrow> 'w web_server \<Rightarrow> 'w web_server" where
  "serve_until_done E C T [] sv = sv"
| "serve_until_done E C T (r # rs) sv =
     (if done_closed sv then sv
      else serve_until_done E C T rs
             (case web_post E C T (fst r) (snd r) sv of None \<Rightarrow> sv | Some (p, sv) \<Rightarrow> sv))"

definition init_web :: "config \<Rightarrow> 'w \<Rightarrow> 'w web_server" where
  "init_web c w = \<lparr>web = \<lparr>conf = c, bs = new_btc_service \<lparr>rpc_address = None, chain_id = 0\<rparr>,
     net_param = None, web_world = w\<rparr>, done_closed = False\<rparr>"

definition web_stage ::
  "('d, 'w) run_env \<Rightarrow> run_flags \<Rightarrow> (string \<times> form) list \<Rightarrow> config \<Rightarrow> 'w \<Rightarrow> stopped + 'w web_state" where
  "web_stage R fl reqs c w =
     (case web_listen R (WebServerPort c) of Some err \<Rightarrow> Inl Exited
      | None \<Rightarrow>
     (let sv = serve_until_done (web_lib R) (store_lib R) (error_text R) reqs (init_web c w) in
      if done_closed sv
      then let s = web sv in
           Inr (s\<lparr>web_world := snd (save_config (file_sys R) (ConfigFile fl) (conf s) (web_world s))\<rparr>)
      else Inl WaitsForWeb))"

definition net_named :: "string \<Rightarrow> btc_net option" where
  "net_named nt = (if nt = ''regtest'' then Some RegressionNet else if nt = ''test'' then Some TestNet3
     else if nt = ''main'' then Some MainNet else None)"

definition file_stage :: "('d, 'w) run_env \<Rightarrow> config \<Rightarrow> 'w \<Rightarrow> stopped + 'w web_state" where
  "file_stage R c w =
     (case net_named (ConfigBitcoinNet c) of None \<Rightarrow> Inl Exited
      | Some net \<Rightarrow>
     (case set_up_poly (header_chain_id (store_lib R)) \<lparr>rpc_address = None, chain_id = 0\<rparr> (PolyJsonRpcAddress c) of
        (Some err, p) \<Rightarrow> Inl (Crashed (PanicError err))
      | (None, p) \<Rightarrow> Inr \<lparr>conf = c, bs = new_btc_service p, net_param = Some net, web_world = w\<rparr>))"

section \<open>Passwords\<close>

definition choose_password ::
  "('w \<Rightarrow> (go_error + bytes) \<times> 'w) \<Rightarrow> string \<Rightarrow> string \<Rightarrow> 'w \<Rightarrow> (go_error + bytes) \<times> 'w" where
  "choose_password prompt flag confPwd w =
     (if flag \<noteq> [] then (Inr (bytes_of flag), w)
      else if confPwd = [] then prompt w
      else (Inr (bytes_of confPwd), w))"

section \<open>The goroutines of a mode\<close>

definition start_observer :: "btcd \<Rightarrow> bool \<Rightarrow> config \<Rightarrow> bytes \<Rightarrow> observer go" where
  "start_observer B has_chan c rb =
     new_observer B has_chan (PolyObLoopWaitTime c) rb (ConfWatchingKey c) (ConfigDBPath c) (SignerAddr c)
       (CircleToSaveHeight c) (PolyStartHeight c)"

definition start_signer ::
  "'w web_env \<Rightarrow> btc_net option \<Rightarrow> config \<Rightarrow> bytes \<Rightarrow> bytes \<Rightarrow> bytes \<Rightarrow> (go_error + signer) go" where
  "start_signer E net c rb opwd bpwd =
     (case get_account_by_password (wal E) (WalletFile c) opwd of
        Inl err \<Rightarrow> Ret (Inl (Errorf ''[startSigner] GetAccountByPassword failed: %v'' err))
      | Inr a \<Rightarrow>
     (case new_signer (wal E) (\<lambda>key. new_address_pubkey E net (pub_compressed E key)) (BtcPrivkFile c) bpwd a rb of
        Panic p \<Rightarrow> Panic p
      | Ret (Inl err) \<Rightarrow> Ret (Inl (Errorf ''[startSigner] failed to new a signer: %v'' err))
      | Ret (Inr s) \<Rightarrow> Ret (Inr s)))"

definition start_server :: "config \<Rightarrow> signer \<Rightarrow> goroutine" where
  "start_server c s = RestServe (RestPort c) (init_rest_server (ObServerAddr c)) s"

text \<open>\<open>Inl\<close>: how the program stops, with the goroutines it has started by then.\<close>

definition start_mode ::
  "'w web_env \<Rightarrow> string \<Rightarrow> 'w web_state \<Rightarrow> bytes \<Rightarrow> bytes \<Rightarrow> bytes \<Rightarrow> stopped \<times> goroutine list + goroutine list" where
  "start_mode E mode s rb opwd bpwd =
     (if mode = ''all'' then
        (case start_observer (lib E) True (conf s) rb of Panic p \<Rightarrow> Inl (Crashed p, [])
         | Ret ob \<Rightarrow>
        (case start_signer E (net_param s) (conf s) rb opwd bpwd of Panic p \<Rightarrow> Inl (Crashed p, [Listen ob])
         | Ret (Inl err) \<Rightarrow> Inl (Exited, [Listen ob])
         | Ret (Inr sg) \<Rightarrow> Inr [Listen ob, Signing sg]))
      else if mode = ''onlyob'' then
        (case start_observer (lib E) False (conf s) rb of Panic p \<Rightarrow> Inl (Crashed p, [])
         | Ret ob \<Rightarrow> Inr [Listen ob])
      else if mode = ''onlysig'' then
        (case start_signer E (net_param s) (conf s) rb opwd bpwd of Panic p \<Rightarrow> Inl (Crashed p, [])
         | Ret (Inl err) \<Rightarrow> Inl (Exited, [])
         | Ret (Inr sg) \<Rightarrow> Inr [start_server (conf s) sg])
      else Inl (Exited, []))"

section \<open>run\<close>

text \<open>
  \<open>config.SleepTime\<close>, the wait of the retry loops: a \<open>time.Duration\<close>, nanoseconds in 64 bits.
\<close>

definition sleep_time :: "config \<Rightarrow> u64" where
  "sleep_time c = (if word_sless 0 (SleepTime c) then SleepTime c * second else 10 * second)"

text \<open>
  A start that stops early gives how it does and, once it has come to the modes, what was running then.
\<close>

definition start_stage ::
  "('d, 'w) run_env \<Rightarrow> run_flags \<Rightarrow> logger \<Rightarrow> 'd vendor_db \<Rightarrow> u64 \<Rightarrow> 'w web_state
     \<Rightarrow> stopped \<times> ('d, 'w) running option + ('d, 'w) running" where
  "start_stage R fl lg vdb slp s =
     (case choose_password (get_password R) (PolyPwdFlag fl) (WalletPwd (conf s)) (web_world s) of
        (Inl err, w) \<Rightarrow> Inl (Exited, None)
      | (Inr opwd, w) \<Rightarrow>
     (case choose_password (get_password R) (BtcPwdFlag fl) (BtcWalletPwd (conf s)) w of
        (Inl err, w) \<Rightarrow> Inl (Exited, None)
      | (Inr bpwd, w) \<Rightarrow>
     (case hex_decode (Redeem (conf s)) of Inl err \<Rightarrow> Inl (Exited, None)
      | Inr rb \<Rightarrow>
        let running_with = (\<lambda>gs. \<lparr>routines = gs, run_vdb = vdb, run_conf = conf s,
           run_poly = poly (bs s), sleep_dur = slp, run_log = lg, run_world = w\<rparr>) in
        case start_mode (web_lib R) (RunMode fl) s rb opwd bpwd of
          Inl (stop, gs) \<Rightarrow> Inl (stop, Some (running_with gs))
        | Inr gs \<Rightarrow> Inr (running_with gs))))"

definition run ::
  "('d, 'w) run_env \<Rightarrow> run_flags \<Rightarrow> (string \<times> form) list \<Rightarrow> 'w
     \<Rightarrow> stopped \<times> ('d, 'w) running option + ('d, 'w) running" where
  "run R fl reqs w =
     (case init_log (log_lib R) (LogLevel fl) [Stdout] w of (None, w) \<Rightarrow> Inl (Exited, None)
      | (Some logging, w) \<Rightarrow>
     (case new_config (file_sys R) (ConfigFile fl) w of
        (c, Some err) \<Rightarrow> Inl (Exited, None)
      | (c, None) \<Rightarrow>
     (let w = snd (save_config (file_sys R) ''./config/conf.json'' c w);
          slp = sleep_time c in
      case open_db R (ConfigDBPath c) w of (opened, w) \<Rightarrow>
     (case new_vendor_db (level_db R) opened of Panic p \<Rightarrow> Inl (Crashed p, None)
      | Ret (Inl err) \<Rightarrow> Inl (Exited, None)
      | Ret (Inr vdb) \<Rightarrow>
     (case (if Web fl = 1 then web_stage R fl reqs c w else file_stage R c w) of
        Inl stop \<Rightarrow> Inl (stop, None)
      | Inr s \<Rightarrow> start_stage R fl (Log logging) vdb slp s)))))"

lemma init_log_stdout:
  "init_log S l [Stdout] w = (Some \<lparr>writers = [''stdout''], Log = new_logger l None\<rparr>, w)"
  by (simp add: init_log_def Stdout_def)

section \<open>The program\<close>

text \<open>\<open>setupApp\<close>: the flags of the program, and what it does before the action.\<close>

definition app_flags :: "flag list" where
  "app_flags = [LogLevelFlag, ConfigFileFlag, GoMaxProcs, PolyWalletPwd, BtcWalletPwdFlag, RunModeFlag, WebFlag]"

definition app_before :: "'c cli \<Rightarrow> 'c \<Rightarrow> u64" where
  "app_before X c = global_int X c (flag_name GoMaxProcs)"

definition run_flags_of :: "'c cli \<Rightarrow> 'c \<Rightarrow> run_flags" where
  "run_flags_of X c =
     \<lparr>LogLevel = global_int X c (flag_name LogLevelFlag), ConfigFile = global_string X c (flag_name ConfigFileFlag),
      PolyPwdFlag = global_string X c (flag_name PolyWalletPwd), BtcPwdFlag = global_string X c (flag_name BtcWalletPwdFlag),
      RunMode = global_string X c (flag_name RunModeFlag), Web = global_int X c (flag_name WebFlag)\<rparr>"

text \<open>The program runs with the number of processors that \<open>Before\<close> has set.\<close>

definition main_program ::
  "('d, 'w) run_env \<Rightarrow> 'c cli \<Rightarrow> string list \<Rightarrow> (string \<times> form) list \<Rightarrow> 'w
     \<Rightarrow> stopped \<times> ('d, 'w) running option + u64 \<times> ('d, 'w) running" where
  "main_program R X args reqs w =
     (case read_args X app_flags args of Inl err \<Rightarrow> Inl (Exited, None)
      | Inr c \<Rightarrow> (case run R (run_flags_of X c) reqs w of Inl stop \<Rightarrow> Inl stop | Inr r \<Rightarrow> Inr (app_before X c, r)))"

text \<open>
  \<open>waitToExit\<close>: the first signal that it asked for; others do not reach it. \<open>None\<close>: it still
  waits.
\<close>

datatype os_signal = SIGINT | SIGTERM | SIGHUP | OtherSignal nat

definition wait_to_exit :: "os_signal list \<Rightarrow> os_signal option" where
  "wait_to_exit sigs = find (\<lambda>sig. sig \<in> {SIGINT, SIGTERM, SIGHUP}) sigs"

end
