(* ===== verification/Web_Invariants.thy ===== *)
theory Web_Invariants
  imports Web_Controller
begin

text \<open>
  What the pages of the web interface leave alone: a condition on the state that survives changes of
  the configuration and of the world, and the loading of the account, survives every request whose
  form does not touch it otherwise. The contract is the locale \<open>kept_by_pages\<close>.
\<close>

definition keeps :: "('w web_state \<Rightarrow> bool) \<Rightarrow> (page go \<times> 'w web_server) option \<Rightarrow> bool" where
  "keeps P res \<longleftrightarrow> (case res of None \<Rightarrow> True | Some (p, sv) \<Rightarrow> P (web sv))"

lemma keeps_intros:
  "(c \<Longrightarrow> keeps P a) \<Longrightarrow> (\<not> c \<Longrightarrow> keeps P b) \<Longrightarrow> keeps P (if c then a else b)"
  "keeps P None"
  "P (web sv) \<Longrightarrow> keeps P (Some (p, sv))"
  by (simp_all add: keeps_def)

lemma keeps_lift: "P (snd (h (web sv))) \<Longrightarrow> keeps P (lift_page h sv)"
  by (cases "h (web sv)") (simp add: keeps_def lift_page_def)

section \<open>The contract\<close>

locale kept_by_pages =
  fixes E :: "'w web_env" and P :: "'w web_state \<Rightarrow> bool"
  assumes conf_kept: "P (set_conf f s) = P s"
    and world_kept: "P (s\<lparr>web_world := w\<rparr>) = P s"
    and orc_kept: "P s \<Longrightarrow> P (snd (get_orc_pwd E s))"
begin

lemma orc_result: "get_orc_pwd E s = (err, t) \<Longrightarrow> P s \<Longrightarrow> P t"
  using orc_kept [of s] by simp

lemma field_kept: "(\<And>v s. P s \<Longrightarrow> P (snd (k v s))) \<Longrightarrow> P s \<Longrightarrow> P (snd (field form key tm msg k s))"
  by (simp add: field_def split: option.split)

lemma number_kept: "(\<And>n s. P s \<Longrightarrow> P (snd (k n s))) \<Longrightarrow> P s \<Longrightarrow> P (snd (number T tm v k s))"
  by (simp add: number_def split: sum.split)

lemma account_kept:
  assumes "\<And>s. P s \<Longrightarrow> P (snd (k s))" and "P s"
  shows "P (snd (with_account E T form k s))"
proof -
  let ?s = "set_conf (when_set (form ''opwd'') (\<lambda>v c. c\<lparr>WalletPwd := v\<rparr>)) (set_conf (when_set (form ''wallet'') (\<lambda>v c. c\<lparr>WalletFile := v\<rparr>)) s)"
  obtain err t where acc: "get_orc_pwd E ?s = (err, t)" by force
  have "P t" using orc_kept [of ?s] acc assms(2) by (simp add: conf_kept)
  with acc assms(1) show ?thesis by (cases err) (simp_all add: with_account_def Let_def)
qed

lemma gene_privk_kept: "P s \<Longrightarrow> P (snd (handle_gene_privk E T form s))"
  unfolding handle_gene_privk_def
  by (intro field_kept) (auto intro!: field_kept simp: conf_kept world_kept split: go.split sum.split prod.split)

lemma gene_redeem_kept: "P s \<Longrightarrow> P (snd (handle_gene_redeem E T form s))"
  unfolding handle_gene_redeem_def
  by (intro field_kept) (simp_all add: conf_kept split: go.split sum.split)

lemma sign_contract_kept: "P s \<Longrightarrow> P (snd (sign_contract_page E T tm form s))"
  unfolding sign_contract_page_def by (intro field_kept number_kept) (simp_all split: go.split sum.split)

lemma sign_param_kept: "P s \<Longrightarrow> P (snd (sign_param_page E T tm form s))"
  unfolding sign_param_page_def by (intro field_kept number_kept) (simp_all split: go.split sum.split)

lemma set_contract_kept: "P s \<Longrightarrow> P (snd (set_contract_page E T tm form s))"
  unfolding set_contract_page_def
  by (intro field_kept number_kept) (simp_all add: world_kept split: prod.split sum.split)

lemma set_param_kept: "P s \<Longrightarrow> P (snd (set_param_page E T tm form s))"
  unfolding set_param_page_def
  by (intro field_kept number_kept) (simp_all add: world_kept split: prod.split sum.split)

lemma status_kept:
  assumes "P (apply_status_form C form s)"
  shows "P (snd (handle_status E C T form s))"
proof -
  obtain err t where acc: "get_orc_pwd E (apply_status_form C form s) = (err, t)" by force
  with orc_kept [OF assms] have "P t" by simp
  with acc show ?thesis
    by (cases err) (simp_all add: handle_status_def world_kept split: sum.split prod.split)
qed

lemma status_route_kept:
  assumes "P (apply_status_form C form (web sv))"
  shows "P (web (snd (status_route E C T form sv)))"
proof -
  obtain p s where "handle_status E C T form (web sv) = (p, s)" by force
  with status_kept [of C form "web sv" T, OF assms] show ?thesis
    by (cases p) (simp_all add: status_route_def)
qed

lemma web_post_kept:
  assumes "P (web sv)" and "path = ''/init'' \<Longrightarrow> P (snd (handle_init E T form (web sv)))"
    and "P (apply_status_form C form (web sv))"
  shows "keeps P (web_post E C T path form sv)"
proof -
  have status: "keeps P (Some (status_route E C T form sv))"
    using status_route_kept [OF assms(3), of T] by (auto simp: keeps_def split: prod.split)
  note pages = gene_privk_kept gene_redeem_kept sign_contract_kept sign_param_kept set_contract_kept set_param_kept
    account_kept
  show ?thesis
    unfolding web_post_def handle_sign_contract_def handle_func_sign_contract_def handle_set_contract_def
      handle_func_set_contract_def handle_sign_param_def handle_func_sign_param_def handle_set_param_def
      handle_func_set_param_def
    by (intro keeps_intros keeps_lift pages status assms) simp_all
qed

end

section \<open>The network parameters\<close>

lemma get_orc_pwd_net: "net_param (snd (get_orc_pwd E s)) = net_param s"
  by (simp add: get_orc_pwd_def Let_def split: sum.split)

interpretation net_kept: kept_by_pages E "\<lambda>s. net_param s = n" for E n
  by unfold_locales (simp_all add: set_conf_def get_orc_pwd_net)

lemma when_set_empty: "v = None \<or> v = Some [] \<Longrightarrow> when_set v f x = x"
  by (auto simp: when_set_def)

lemma set_conf_net: "net_param (set_conf f s) = net_param s"
  by (simp add: set_conf_def)

lemma apply_status_form_net:
  assumes "form ''nt'' = None \<or> form ''nt'' = Some []"
  shows "net_param (apply_status_form C form s) = net_param s"
  unfolding apply_status_form_def Let_def set_conf_net when_set_empty [OF assms]
  by (simp add: set_conf_net split: option.split)

section \<open>The connection to the Poly chain\<close>

text \<open>There is a client, and the chain id is \<open>k\<close>.\<close>

definition connected :: "u64 \<Rightarrow> 'w web_state \<Rightarrow> bool" where
  "connected k s \<longleftrightarrow> rpc_address (poly (bs s)) \<noteq> None \<and> chain_id (poly (bs s)) = k"

interpretation chain_kept: kept_by_pages E "connected k" for E k
  by unfold_locales (auto simp: connected_def set_conf_def get_orc_pwd_def Let_def split: sum.split)

lemma connected_fields [simp]:
  "connected k (set_conf f s) = connected k s"
  "connected k (s\<lparr>net_param := n\<rparr>) = connected k s"
  by (simp_all add: connected_def set_conf_def)

lemma connected_rpc:
  "connected k (s\<lparr>bs := set_rpc a (bs s)\<rparr>) \<longleftrightarrow> chain_id (poly (bs s)) = k"
  by (simp add: connected_def set_rpc_def)

lemma connected_chain: "connected k s \<Longrightarrow> chain_id (poly (bs s)) = k"
  by (simp add: connected_def)

lemma apply_status_form_connected: "connected k s \<Longrightarrow> connected k (apply_status_form C form s)"
  unfolding apply_status_form_def Let_def
  by (simp add: when_set_def split: option.split) (auto simp: connected_def set_conf_def split: option.split)

text \<open>\<open>HandleInit\<close> makes the client whatever comes after the address, and sets no chain id.\<close>

lemma handle_init_connected:
  assumes "form ''rpc'' \<noteq> None" and "chain_id (poly (bs s)) = k"
  shows "connected k (snd (handle_init E T form s))"
proof -
  obtain rpc where rpc: "form ''rpc'' = Some rpc" using assms(1) by blast
  have set: "chain_id (poly (bs (set_conf f s))) = chain_id (poly (bs s))" for f :: "config \<Rightarrow> config"
    by (simp add: set_conf_def)
  show ?thesis
    unfolding handle_init_def field_def [of form "''rpc''"] rpc option.case Let_def
    by (intro chain_kept.field_kept)
       (auto intro!: chain_kept.field_kept intro: chain_kept.orc_result
         simp: connected_rpc set assms(2) split: option.split prod.split)
qed

end
