(* ===== verification/Run_Properties.thy ===== *)
theory Run_Properties
  imports Vendor_Run Web_Invariants Config_Properties Web_Properties Sample_Node
begin

text \<open>
  The properties of the start of the tool (\<open>cmd/run.go\<close>): which goroutines a mode starts and what
  they agree on, and the start over the web page without a network type.
\<close>

section \<open>What a start leaves running\<close>

lemma start_stage_Inr:
  assumes "start_stage R fl lg vdb slp s = Inr r"
  shows "\<exists>rb opwd bpwd. hex_decode (Redeem (conf s)) = Inr rb \<and> run_conf r = conf s \<and> run_vdb r = vdb
     \<and> start_mode (web_lib R) (RunMode fl) s rb opwd bpwd = Inr (routines r)"
  using assms by (auto simp: start_stage_def Let_def split: sum.splits prod.splits) blast

text \<open>The goroutines that a start which stops early has started by then.\<close>

definition left_running :: "stopped \<times> ('d, 'w) running option + 'a \<Rightarrow> goroutine list" where
  "left_running res = (case res of Inl (stop, Some r) \<Rightarrow> routines r | _ \<Rightarrow> [])"

lemma left_running_Inl [simp]: "left_running (Inl (stop, None)) = []"
  by (simp add: left_running_def)

lemma start_stage_left:
  "left_running (start_stage R fl lg vdb slp s) = []
   \<or> (\<exists>rb opwd bpwd stop. start_mode (web_lib R) (RunMode fl) s rb opwd bpwd
        = Inl (stop, left_running (start_stage R fl lg vdb slp s)))"
  by (auto simp: start_stage_def left_running_def Let_def split: sum.splits prod.splits)

lemma start_mode_left:
  "start_mode E mode s rb opwd bpwd = Inl (stop, gs) \<Longrightarrow> g \<in> set gs \<Longrightarrow> mode = ''all'' \<and> (\<exists>ob. g = Listen ob)"
  by (auto simp: start_mode_def split: if_splits go.splits sum.splits)

text \<open>Whatever stops a start, only the observer of mode \<open>all\<close> can be running by then.\<close>

lemma run_left:
  assumes "g \<in> set (left_running (run R fl reqs w))"
  shows "RunMode fl = ''all'' \<and> (\<exists>ob. g = Listen ob)"
proof -
  from assms obtain lg vdb slp s where g: "g \<in> set (left_running (start_stage R fl lg vdb slp s))"
    by (auto simp: run_def Let_def init_log_stdout left_running_def split: prod.splits option.splits go.splits sum.splits)
  then obtain rb opwd bpwd stop where "start_mode (web_lib R) (RunMode fl) s rb opwd bpwd
      = Inl (stop, left_running (start_stage R fl lg vdb slp s))"
    using start_stage_left [of R fl lg vdb slp s] by auto
  from start_mode_left [OF this g] show ?thesis .
qed

lemma run_Inr:
  assumes "run R fl reqs w = Inr r"
  obtains c lg vdb slp s w' where "new_config (file_sys R) (ConfigFile fl) w = (c, None)"
    and "(if Web fl = 1 then web_stage R fl reqs c w' else file_stage R c w') = Inr s"
    and "start_stage R fl lg vdb slp s = Inr r"
  using assms that
  by (auto simp: run_def Let_def init_log_stdout split: prod.splits option.splits go.splits sum.splits)

lemma start_observer_Ret:
  assumes "start_observer B has_chan c rb = Ret ob"
  shows "get_utxo_key B rb = Ret (hashKey ob)" and "obCli ob = (if has_chan then None else Some (new_ob_cli (SignerAddr c)))"
  using assms by (auto simp: start_observer_def new_observer_def go_bind_Ret_iff)

lemma start_signer_Ret:
  assumes "start_signer E net c rb opwd bpwd = Ret (Inr sg)"
  shows "redeem sg = rb" and "get_account_by_password (wal E) (WalletFile c) opwd = Inr (acct sg)"
    and "\<exists>key. new_address_pubkey E net (pub_compressed E key) = Ret (Inr (addr sg))"
  using assms by (auto simp: start_signer_def new_signer_def split: sum.splits go.splits option.splits)

text \<open>
  C13: A start that succeeds runs exactly the goroutines of its mode on a redeem script that decodes:
  \<open>all\<close> an observer that hands over through the channel and a signer, \<open>onlyob\<close> an observer with
  the address of the signer's server, \<open>onlysig\<close> the server for the address of the observer. The
  observer watches for the key of the script that the signer signs with.
\<close>

theorem run_starts_mode:
  assumes "run R fl reqs w = Inr r"
  shows "\<exists>rb. hex_decode (Redeem (run_conf r)) = Inr rb \<and>
     (RunMode fl = ''all'' \<and> (\<exists>ob sg. routines r = [Listen ob, Signing sg] \<and> obCli ob = None
          \<and> redeem sg = rb \<and> get_utxo_key (lib (web_lib R)) rb = Ret (hashKey ob))
    \<or> RunMode fl = ''onlyob'' \<and> (\<exists>ob. routines r = [Listen ob] \<and> obCli ob = Some (new_ob_cli (SignerAddr (run_conf r)))
          \<and> get_utxo_key (lib (web_lib R)) rb = Ret (hashKey ob))
    \<or> RunMode fl = ''onlysig'' \<and> (\<exists>sg. redeem sg = rb
          \<and> routines r = [RestServe (RestPort (run_conf r)) (init_rest_server (ObServerAddr (run_conf r))) sg]))"
proof -
  obtain c lg vdb slp s w' where "start_stage R fl lg vdb slp s = Inr r" using assms by (rule run_Inr)
  from start_stage_Inr [OF this] obtain rb opwd bpwd where rb: "hex_decode (Redeem (conf s)) = Inr rb"
    and c: "run_conf r = conf s"
    and mode: "start_mode (web_lib R) (RunMode fl) s rb opwd bpwd = Inr (routines r)" by blast
  from mode consider "RunMode fl = ''all''" | "RunMode fl = ''onlyob''" | "RunMode fl = ''onlysig''"
    by (auto simp: start_mode_def split: if_splits)
  then show ?thesis
  proof cases
    case 1
    with mode obtain ob sg where "start_observer (lib (web_lib R)) True (conf s) rb = Ret ob"
      "start_signer (web_lib R) (net_param s) (conf s) rb opwd bpwd = Ret (Inr sg)" "routines r = [Listen ob, Signing sg]"
      by (auto simp: start_mode_def split: go.splits sum.splits)
    with 1 rb c start_observer_Ret [OF this(1)] start_signer_Ret(1) [OF this(2)] show ?thesis by simp
  next
    case 2
    with mode obtain ob where "start_observer (lib (web_lib R)) False (conf s) rb = Ret ob" "routines r = [Listen ob]"
      by (auto simp: start_mode_def split: go.splits)
    with 2 rb c start_observer_Ret [OF this(1)] show ?thesis by simp
  next
    case 3
    with mode obtain sg where "start_signer (web_lib R) (net_param s) (conf s) rb opwd bpwd = Ret (Inr sg)"
      "routines r = [start_server (conf s) sg]"
      by (auto simp: start_mode_def split: go.splits sum.splits)
    with 3 rb c start_signer_Ret(1) [OF this(1)] show ?thesis by (simp add: start_server_def)
  qed
qed

section \<open>The requests of the web page\<close>

lemma serve_until_done_keeps:
  assumes "\<And>r sv. r \<in> set reqs \<Longrightarrow> P (web sv) \<Longrightarrow> keeps P (web_post E C T (fst r) (snd r) sv)" and "P (web sv)"
  shows "P (web (serve_until_done E C T reqs sv))"
  using assms
proof (induction reqs arbitrary: sv)
  case (Cons r reqs)
  have "keeps P (web_post E C T (fst r) (snd r) sv)" using Cons.prems by (intro Cons.prems) simp_all
  then have "P (web (case web_post E C T (fst r) (snd r) sv of None \<Rightarrow> sv | Some (p, sv) \<Rightarrow> sv))"
    using Cons.prems(2) by (auto simp: keeps_def split: option.splits)
  with Cons show ?case by simp
qed simp

text \<open>
  A request that sets no network: none is typed in, and it is no \<open>/init\<close> with the field of the network
  present, since that page takes the network of the configuration file for an empty field.
\<close>

definition names_no_net :: "string \<times> form \<Rightarrow> bool" where
  "names_no_net r \<longleftrightarrow> (case snd r ''nt'' of None \<Rightarrow> True | Some nt \<Rightarrow> nt = [] \<and> fst r \<noteq> ''/init'')"

text \<open>
  \<open>btcutil.NewAddressPubKey\<close> reads the network parameters: with nil it returns an error for a key that it
  cannot parse and dereferences the nil pointer for every other, so that it never gives an address.
\<close>

definition net_needed :: "'w web_env \<Rightarrow> bool" where
  "net_needed E \<longleftrightarrow> (\<forall>key a. new_address_pubkey E None key \<noteq> Ret (Inr a))"

lemma handle_init_net:
  assumes "form ''nt'' = None"
  shows "net_param (snd (handle_init E T form s)) = net_param s"
proof -
  have nt: "field form ''nt'' tm msg k u = (Ret (message_page 400 tm msg), u)" for tm msg k and u :: "'a web_state"
    by (simp add: field_def assms)
  show ?thesis
    unfolding handle_init_def Let_def nt by (intro net_kept.field_kept) (simp_all add: set_conf_def)
qed

lemma serve_until_done_net:
  assumes "\<forall>r \<in> set reqs. names_no_net r"
  shows "net_param (web (serve_until_done E C T reqs sv)) = net_param (web sv)"
proof (rule serve_until_done_keeps [where P = "\<lambda>s. net_param s = net_param (web sv)"])
  fix r and sv' :: "'a web_server" assume "r \<in> set reqs" and "net_param (web sv') = net_param (web sv)"
  with assms show "keeps (\<lambda>s. net_param s = net_param (web sv)) (web_post E C T (fst r) (snd r) sv')"
  proof (intro net_kept.web_post_kept)
    have r: "names_no_net r" using assms \<open>r \<in> set reqs\<close> by blast
    with \<open>net_param (web sv') = net_param (web sv)\<close> show "net_param (apply_status_form C (snd r) (web sv')) = net_param (web sv)"
      by (cases "snd r ''nt''") (simp_all add: names_no_net_def apply_status_form_net)
    show "net_param (snd (handle_init E T (snd r) (web sv'))) = net_param (web sv)" if "fst r = ''/init''"
      using that r \<open>net_param (web sv') = net_param (web sv)\<close>
      by (cases "snd r ''nt''") (simp_all add: names_no_net_def handle_init_net)
  qed
qed simp

lemma web_not_started:
  assumes "Web fl = 1" and "RunMode fl = ''all'' \<or> RunMode fl = ''onlysig''"
    and "\<forall>r \<in> set reqs. names_no_net r" and "net_needed (web_lib R)"
  shows "run R fl reqs w \<noteq> Inr r"
proof
  assume "run R fl reqs w = Inr r"
  then obtain c lg vdb slp s w' where stage: "web_stage R fl reqs c w' = Inr s" "start_stage R fl lg vdb slp s = Inr r"
    using assms(1) by (auto elim: run_Inr)
  have "net_param s = None"
    using stage(1) serve_until_done_net [of reqs "web_lib R" "store_lib R" "error_text R" "init_web c w'", OF assms(3)]
    by (auto simp: web_stage_def Let_def init_web_def split: option.splits if_splits)
  then have "start_signer (web_lib R) (net_param s) c' rb opwd bpwd \<noteq> Ret (Inr sg)" for c' rb opwd bpwd sg
    using assms(4) start_signer_Ret(3) unfolding net_needed_def by metis
  moreover obtain rb opwd bpwd where "start_mode (web_lib R) (RunMode fl) s rb opwd bpwd = Inr (routines r)"
    using start_stage_Inr [OF stage(2)] by blast
  ultimately show False using assms(2) by (auto simp: start_mode_def split: go.splits sum.splits)
qed

text \<open>
  C14: A tool that was started with the web page (the default) never gets a signer running unless a
  request sets the network: a network type typed into a form, or \<open>/init\<close>, which takes an empty field for
  the type of the configuration file. The start page alone does not look at the file. Without such a request the
  modes \<open>all\<close> and \<open>onlysig\<close> never come to wait for a signal: they end in an exit, in a
  panic on the nil network parameters, or never leave the page; and of their goroutines at most the
  observer of mode \<open>all\<close>, which is started before the signer is made, has run until then.
\<close>

theorem web_without_net_fails:
  assumes "Web fl = 1" and "RunMode fl = ''all'' \<or> RunMode fl = ''onlysig''"
    and "\<forall>r \<in> set reqs. names_no_net r" and "net_needed (web_lib R)"
  shows "(\<forall>r. run R fl reqs w \<noteq> Inr r)
     \<and> (\<forall>g \<in> set (left_running (run R fl reqs w)). RunMode fl = ''all'' \<and> (\<exists>ob. g = Listen ob))"
  using web_not_started [OF assms] run_left [of _ R fl reqs w] by simp

text \<open>
  C15: Started without arguments the program takes mode \<open>all\<close> and the web page. So, whatever the
  configuration file says and whatever is requested of the page, as long as no request sets the network (no form
  names a type, and \<open>/init\<close> is not sent with the field of the type), it never comes to wait for a
  signal with its goroutines: it exits, crashes, or waits at the page, and at most the observer has
  been started by then, never the signer.
\<close>

theorem default_start_needs_net:
  assumes "cli_defaults X" and "\<forall>r \<in> set reqs. names_no_net r" and "net_needed (web_lib R)"
  shows "(\<forall>res. main_program R X [prog] reqs w \<noteq> Inr res)
     \<and> (\<forall>g \<in> set (left_running (main_program R X [prog] reqs w)). \<exists>ob. g = Listen ob)"
proof -
  have "distinct (map flag_name app_flags)" by (simp add: app_flags_def flag_defs)
  with assms(1) obtain c where c: "read_args X app_flags [prog] = Inr c" "\<forall>f \<in> set app_flags. has_default X c f"
    unfolding cli_defaults_def by blast
  then have fl: "Web (run_flags_of X c) = 1" "RunMode (run_flags_of X c) = ''all''"
    by (simp_all add: run_flags_of_def app_flags_def flag_defs)
  have "run R (run_flags_of X c) reqs w \<noteq> Inr r" for r
    by (rule web_not_started [OF fl(1) disjI1 [OF fl(2)] assms(2,3)])
  moreover from this obtain stop where stop: "run R (run_flags_of X c) reqs w = Inl stop"
    by (cases "run R (run_flags_of X c) reqs w") auto
  ultimately show ?thesis using c(1) run_left [of _ R "run_flags_of X c" reqs w]
    by (simp add: main_program_def left_running_def split: prod.splits option.splits)
qed

section \<open>The chain id\<close>

lemma handle_init_keeps_connected: "connected k s \<Longrightarrow> connected k (snd (handle_init E T form s))"
  by (cases "form ''rpc'' = None")
     (use handle_init_connected [of form s k E T] in \<open>auto simp: connected_chain handle_init_def field_def\<close>)

lemma connected_after_requests:
  "connected k (web sv) \<Longrightarrow> connected k (web (serve_until_done E C T reqs sv))"
  by (rule serve_until_done_keeps)
     (auto intro!: chain_kept.web_post_kept handle_init_keeps_connected apply_status_form_connected)

text \<open>
  C16: The chain id that the transactions to the Poly chain are made for comes from the node only when
  the network is taken from the file, or through the status page while there is no client yet. A
  start over the web page whose first request is \<open>/init\<close> with an address makes the client without
  it, and whatever is requested afterwards the tool runs with the chain id 0.
\<close>

theorem init_leaves_chain_id_zero:
  assumes "run R fl reqs w = Inr r"
  shows "(Web fl \<noteq> 1 \<longrightarrow> header_chain_id (store_lib R) (PolyJsonRpcAddress (run_conf r)) = Inr (chain_id (run_poly r)))
     \<and> (Web fl = 1 \<and> reqs = (''/init'', form) # rs \<and> form ''rpc'' \<noteq> None \<longrightarrow> chain_id (run_poly r) = 0)"
proof -
  obtain c lg vdb slp s w' where stage: "(if Web fl = 1 then web_stage R fl reqs c w' else file_stage R c w') = Inr s"
    and start: "start_stage R fl lg vdb slp s = Inr r"
    using assms by (rule run_Inr)
  from start have r: "run_conf r = conf s" "run_poly r = poly (bs s)"
    by (auto simp: start_stage_def Let_def split: sum.splits prod.splits)
  have "chain_id (poly (bs s)) = 0" if "Web fl = 1" "reqs = (''/init'', form) # rs" "form ''rpc'' \<noteq> None"
  proof -
    let ?sv = "init_web c w'"
    obtain p t where page: "handle_init (web_lib R) (error_text R) form (web ?sv) = (p, t)" by force
    then have post: "web_post (web_lib R) (store_lib R) (error_text R) ''/init'' form ?sv = Some (p, ?sv\<lparr>web := t\<rparr>)"
      by (simp add: web_post_def lift_page_def)
    have "connected 0 t"
      using handle_init_connected [of form "web ?sv" 0 "web_lib R" "error_text R", OF that(3)] page
      by (simp add: init_web_def new_btc_service_def)
    then have "connected 0 (web (serve_until_done (web_lib R) (store_lib R) (error_text R) reqs ?sv))"
      using connected_after_requests [of 0 "?sv\<lparr>web := t\<rparr>"] post that(2) by (simp add: init_web_def)
    with stage that(1) show ?thesis
      by (auto simp: web_stage_def Let_def connected_def split: option.splits if_splits)
  qed
  moreover have "header_chain_id (store_lib R) (PolyJsonRpcAddress (conf s)) = Inr (chain_id (poly (bs s)))" if "Web fl \<noteq> 1"
    using stage that
    by (auto simp: file_stage_def set_up_poly_def new_btc_service_def Let_def split: option.splits prod.splits sum.splits)
  ultimately show ?thesis using r by simp
qed

section \<open>The ticker of the observer\<close>

lemma start_mode_observer:
  assumes "start_mode E mode s rb opwd bpwd = Inr gs" and "Listen ob \<in> set gs"
  shows "loopWaitTime ob = PolyObLoopWaitTime (conf s)"
  using assms
  by (auto simp: start_mode_def start_observer_def new_observer_def start_server_def go_bind_Ret_iff
      split: if_splits go.splits sum.splits)

lemma store_field_Inr: "store_field upd c res = Inr c' \<longleftrightarrow> (\<exists>v. res = Inr v \<and> c' = upd (\<lambda>_. v) c)"
  by (auto simp: store_field_def split: sum.split)

lemma other_fields_keep_interval:
  assumes "(n, f) \<in> set config_fields" and "n \<noteq> ''PolyObLoopWaitTime''" and "decode_field f j c = Inr c'"
  shows "PolyObLoopWaitTime c' = PolyObLoopWaitTime c"
proof -
  have "\<forall>nf \<in> set config_fields. fst nf \<noteq> ''PolyObLoopWaitTime'' \<longrightarrow>
      (\<forall>c'. decode_field (snd nf) j c = Inr c' \<longrightarrow> PolyObLoopWaitTime c' = PolyObLoopWaitTime c)"
    by (simp add: config_fields_def store_field_Inr) auto
  with assms show ?thesis by force
qed

lemma decode_config_member_interval:
  assumes "fold_key (fst kv) \<noteq> fold_key ''PolyObLoopWaitTime''"
  shows "PolyObLoopWaitTime (fst (decode_config_member kv (c, err))) = PolyObLoopWaitTime c"
proof (cases "field_named (fst kv)")
  case (Some f)
  then obtain n where mem: "(n, f) \<in> set config_fields" and n: "fold_key n = fold_key (fst kv)"
    by (auto simp: field_named_def find_Some_iff) (metis fst_conv nth_mem)
  from n assms have "n \<noteq> ''PolyObLoopWaitTime''" by auto
  with mem Some show ?thesis
    by (simp add: decode_config_member_def other_fields_keep_interval split: sum.split)
qed (simp add: decode_config_member_def)

lemma decode_members_interval:
  "list_all (\<lambda>kv. fold_key (fst kv) \<noteq> fold_key ''PolyObLoopWaitTime'') kvs \<Longrightarrow>
     PolyObLoopWaitTime (fst (fold decode_config_member kvs (c, err))) = PolyObLoopWaitTime c"
proof (induction kvs arbitrary: c err)
  case (Cons kv kvs)
  obtain c' err' where "decode_config_member kv (c, err) = (c', err')" by force
  with Cons decode_config_member_interval [of kv c err] show ?case by simp
qed simp

text \<open>
  C17: The interval of the observer is taken over from the configuration unchecked, and
  \<open>time.NewTicker\<close> panics for one that is not positive. When the file, an object of JSON, has no
  member \<open>PolyObLoopWaitTime\<close>, it is accepted all the same, the start succeeds, and the goroutine of
  the observer panics before it has looked at any block, which ends the whole tool.
\<close>

theorem missing_interval_panics:
  assumes "Web fl \<noteq> 1" and "open_read (file_sys R) (ConfigFile fl) w = Inr (Inr b)"
    and "parse_json (string_of b) = Inr (JObj kvs)"
    and "list_all (\<lambda>kv. fold_key (fst kv) \<noteq> fold_key ''PolyObLoopWaitTime'') kvs"
    and "run R fl reqs w = Inr r" and "Listen ob \<in> set (routines r)"
  shows "listen_begin N ob st = Panic (PanicError (Text ''non-positive interval for NewTicker''))"
proof -
  obtain c lg vdb slp s w' where c: "new_config (file_sys R) (ConfigFile fl) w = (c, None)"
    and stage: "(if Web fl = 1 then web_stage R fl reqs c w' else file_stage R c w') = Inr s"
    and start: "start_stage R fl lg vdb slp s = Inr r"
    using assms(5) by (rule run_Inr)
  have "c = fst (fold decode_config_member kvs (zero_config, None))"
    using c assms(2,3)
    by (auto simp: new_config_def config_init_def load_config_def config_read_file_def unmarshal_config_def
        split: prod.splits option.splits)
  then have "PolyObLoopWaitTime c = 0"
    using decode_members_interval [OF assms(4), of zero_config None] by (simp add: zero_config_def)
  moreover have "conf s = c"
    using stage assms(1) by (auto simp: file_stage_def split: option.splits prod.splits)
  moreover have "loopWaitTime ob = PolyObLoopWaitTime (conf s)"
    using start_stage_Inr [OF start] start_mode_observer assms(6) by metis
  ultimately show ?thesis by (simp add: listen_begin_def new_ticker_def)
qed

section \<open>A start on concrete modules\<close>

text \<open>\<open>data\<close> is the content of the configuration file, \<open>t\<close> the interval it gives.\<close>

definition sample_log_os :: "bytes list list log_os" where
  "sample_log_os = \<lparr>stat_dir = \<lambda>p w. Inr True, mkdir_all = \<lambda>p w. (None, w), time_text = \<lambda>w. ''2020-09-01_10.00.00'',
     open_log = \<lambda>f w. (None, w)\<rparr>"

definition sample_run :: "bytes \<Rightarrow> ((bytes \<times> bytes) list, bytes list list) run_env" where
  "sample_run data =
     \<lparr>web_lib = sample_env,
      store_lib = \<lparr>get_storage = \<lambda>a k w. (Inr None, w), ccm_address = ''01'', scm_address = ''02'', UTXOS = [1],
        REDEEM_BIND = [2], BTC_TX_PARAM = [3], decode_utxos = \<lambda>b. Inr [],
        decode_binded = \<lambda>b. \<lparr>Contract = [], Ver = 0\<rparr>,
        decode_param = \<lambda>b. \<lparr>PVersion = 0, FeeRate = 0, MinChange = 0\<rparr>, header_chain_id = \<lambda>a. Inr 7\<rparr>,
      file_sys = \<lparr>open_read = \<lambda>f w. Inr (Inr data), write_conf = \<lambda>f b w. (None, w)\<rparr>,
      level_db = alist_db, open_db = \<lambda>p w. (Inr [], w), web_listen = \<lambda>p. None,
      get_password = \<lambda>w. (Inr [112], w), error_text = \<lambda>e. ''error'', log_lib = sample_log_os\<rparr>"

definition sample_flags :: run_flags where
  "sample_flags = \<lparr>LogLevel = 2, ConfigFile = ''./conf.json'', PolyPwdFlag = [], BtcPwdFlag = ''pw'', RunMode = ''all'', Web = 0\<rparr>"

abbreviation sample_conf_with :: "u64 \<Rightarrow> config" where
  "sample_conf_with t \<equiv> sample_conf\<lparr>PolyObLoopWaitTime := t\<rparr>"

definition full_file :: bytes where
  "full_file = bytes_of (marshal_config (sample_conf_with 2))"

definition short_fields :: "(string \<times> config_field) list" where
  "short_fields = filter (\<lambda>nf. fst nf \<noteq> ''PolyObLoopWaitTime'') config_fields"

definition short_file :: bytes where
  "short_file = bytes_of (marshal_indent (map (\<lambda>(n, f). (n, encode_field f sample_conf)) short_fields))"

lemma sample_full_file: "new_config (file_sys (sample_run full_file)) f w = (sample_conf_with 2, None)"
  by (simp add: sample_run_def full_file_def new_config_def config_init_def load_config_def config_read_file_def
      string_of_bytes_of unmarshal_marshal_config valid_config_def sample_conf_def)

lemma parse_short_file:
  "parse_json (string_of short_file) = Inr (JObj (map (\<lambda>(n, f). (n, encode_field f sample_conf)) short_fields))"
proof -
  have "map valid_member (map (\<lambda>(n, f). (n, encode_field f sample_conf)) short_fields)
      = map (\<lambda>(n, f). (n, encode_field f sample_conf)) short_fields"
    by (simp add: short_fields_def config_fields_def sample_conf_def)
  moreover have "short_fields \<noteq> []" by (simp add: short_fields_def config_fields_def)
  ultimately show ?thesis
    unfolding short_file_def string_of_bytes_of by (subst parse_marshal_indent) (auto simp: encode_field_ok)
qed

lemma sample_short_file: "new_config (file_sys (sample_run short_file)) f w = (sample_conf_with 0, None)"
proof -
  have "fold (\<lambda>(n, f). copy_field f sample_conf) short_fields zero_config = sample_conf_with 0"
    by (rule config.equality) (simp_all add: short_fields_def config_fields_def copy_field_def zero_config_def)
  moreover have "set short_fields \<subseteq> set config_fields" by (auto simp: short_fields_def)
  ultimately show ?thesis
    by (simp add: sample_run_def new_config_def config_init_def load_config_def config_read_file_def
        unmarshal_config_def parse_short_file decode_saved_members)
qed

lemma sample_start_signer:
  "\<exists>sg. start_signer sample_env (Some net) (sample_conf_with t) rb (bytes_of ''pw'') (bytes_of ''pw'') = Ret (Inr sg)"
  by (simp add: start_signer_def new_signer_def get_account_by_password_def sample_env_def sample_wallets_def
      sample_account_def)

definition sample_running :: "u64 \<Rightarrow> bytes list list \<Rightarrow> bytes list list web_state" where
  "sample_running t w = \<lparr>conf = sample_conf_with t, bs = new_btc_service \<lparr>rpc_address = Some ''rpc'', chain_id = 7\<rparr>,
     net_param = Some TestNet3, web_world = w\<rparr>"

lemma sample_file_stage: "file_stage (sample_run data) (sample_conf_with t) w = Inr (sample_running t w)"
  by (simp add: file_stage_def net_named_def set_up_poly_def sample_run_def sample_conf_def sample_running_def)

lemma sample_start_mode:
  assumes "net_param s = Some TestNet3" and "conf s = sample_conf_with t"
  shows "\<exists>ob sg. start_mode sample_env ''all'' s [1, 174] (bytes_of ''pw'') (bytes_of ''pw'') = Inr [Listen ob, Signing sg]"
proof -
  obtain key where "get_utxo_key sample_btcd [1, 174] = Ret key"
    using sample_key_Ret by (simp add: sample_signer_def)
  then have "\<exists>ob. start_observer (lib sample_env) True (sample_conf_with t) [1, 174] = Ret ob"
    by (simp add: start_observer_def new_observer_def sample_env_def)
  with sample_start_signer [of TestNet3 t "[1, 174]"] assms show ?thesis by (auto simp: start_mode_def)
qed

lemma sample_start_stage:
  assumes "net_param s = Some TestNet3" and "conf s = sample_conf_with t"
    and "RunMode fl = ''all''" and "PolyPwdFlag fl = []" and "BtcPwdFlag fl = ''pw''"
  shows "\<exists>r ob sg. start_stage (sample_run data) fl lg vdb slp s = Inr r \<and> routines r = [Listen ob, Signing sg]"
proof -
  have pwd: "choose_password p [] (WalletPwd sample_conf) w = (Inr (bytes_of ''pw''), w)"
    "choose_password p ''pw'' cp w = (Inr (bytes_of ''pw''), w)" for p :: "'a \<Rightarrow> (go_error + bytes) \<times> 'a" and cp w
    by (simp_all add: choose_password_def sample_conf_def)
  have redeem: "hex_decode (Redeem sample_conf) = Inr [1, 174]"
    using sample_redeem_bytes by (simp add: sample_web_def)
  obtain ob sg where "start_mode sample_env ''all'' s [1, 174] (bytes_of ''pw'') (bytes_of ''pw'') = Inr [Listen ob, Signing sg]"
    using sample_start_mode [OF assms(1,2)] by blast
  moreover have "web_lib (sample_run data) = sample_env" by (simp add: sample_run_def)
  ultimately show ?thesis by (simp add: start_stage_def assms pwd redeem)
qed

lemma sample_run_stages:
  assumes "\<And>f w. new_config (file_sys (sample_run data)) f w = (sample_conf_with t, None)"
    and "(if Web fl = 1 then web_stage (sample_run data) fl reqs (sample_conf_with t) w
      else file_stage (sample_run data) (sample_conf_with t) w) = Inr s"
  shows "run (sample_run data) fl reqs w = start_stage (sample_run data) fl (new_logger (LogLevel fl) None) empty_vdb (sleep_time (sample_conf_with t)) s"
proof -
  have "snd (save_config (file_sys (sample_run data)) f c w) = w" for f c
    by (simp add: save_config_def sample_run_def)
  moreover have "open_db (sample_run data) p w = (Inr [], w)" for p by (simp add: sample_run_def)
  moreover have "new_vendor_db (level_db (sample_run data)) (Inr []) = Ret (Inr empty_vdb)"
    by (simp add: sample_run_def new_vendor_db_def get_total_tx_num_def alist_db_def empty_vdb_def)
  ultimately show ?thesis using assms by (simp add: run_def init_log_stdout)
qed

lemma sample_start:
  assumes "\<And>f w. new_config (file_sys (sample_run data)) f w = (sample_conf_with t, None)"
  shows "\<exists>r ob sg. run (sample_run data) sample_flags reqs w = Inr r \<and> routines r = [Listen ob, Signing sg]"
proof -
  have "run (sample_run data) sample_flags reqs w
      = start_stage (sample_run data) sample_flags (new_logger 2 None) empty_vdb (sleep_time (sample_conf_with t)) (sample_running t w)"
    using sample_run_stages [OF assms, of sample_flags reqs w "sample_running t w"]
    by (simp add: sample_flags_def sample_file_stage)
  with sample_start_stage [of "sample_running t w" t sample_flags data] show ?thesis
    by (simp add: sample_running_def) (simp add: sample_flags_def)
qed

theorem run_starts_mode_witness:
  "\<exists>ob sg r. run (sample_run full_file) sample_flags [] [] = Inr r \<and> routines r = [Listen ob, Signing sg]"
proof -
  obtain r where r: "run (sample_run full_file) sample_flags [] [] = Inr r"
    using sample_start [OF sample_full_file] by blast
  have "RunMode sample_flags = ''all''" by (simp add: sample_flags_def)
  with run_starts_mode [OF r] r show ?thesis by auto
qed

text \<open>
  The same start over the web page: an address, then the status page with a network type or with an
  empty one.
\<close>

definition sample_requests :: "string \<Rightarrow> (string \<times> form) list" where
  "sample_requests nt = [(''/init'', [''rpc'' \<mapsto> ''rpc'']), (''/status'', [''nt'' \<mapsto> nt])]"

definition sample_web_running :: "btc_net option \<Rightarrow> bytes list list \<Rightarrow> bytes list list web_state" where
  "sample_web_running net w = \<lparr>conf = sample_conf_with 2, bs = \<lparr>poly = \<lparr>rpc_address = Some ''rpc'', chain_id = 0\<rparr>,
     acc = Some sample_account\<rparr>, net_param = net, web_world = w\<rparr>"

lemma sample_web_stage:
  assumes "nt = ''test'' \<and> net = Some TestNet3 \<or> nt = [] \<and> net = None"
  shows "web_stage (sample_run data) fl (sample_requests nt) (sample_conf_with 2) w = Inr (sample_web_running net w)"
proof -
  have redeem: "hex_decode ''01ae'' = Inr [1, 174]"
    using sample_redeem_bytes by (simp add: sample_web_def sample_conf_def)
  have init: "web_post E C T ''/init'' [''rpc'' \<mapsto> ''rpc''] (init_web (sample_conf_with 2) w)
      = Some (Ret (message_page 400 ''before.tmpl'' ''no poly wallet set''),
          \<lparr>web = (sample_web_running net w)\<lparr>bs := \<lparr>poly = \<lparr>rpc_address = Some ''rpc'', chain_id = 0\<rparr>, acc = None\<rparr>,
             net_param := None\<rparr>, done_closed = False\<rparr>)" for E C T
    by (simp add: web_post_def lift_page_def handle_init_def field_def when_set_def set_conf_def set_rpc_def init_web_def
        new_btc_service_def sample_web_running_def sample_conf_def)
  have opened: "\<not> done_closed (init_web (sample_conf_with 2) w)" by (simp add: init_web_def)
  have listens: "web_listen (sample_run data) p = None" for p by (simp add: sample_run_def)
  have saved: "snd (save_config (file_sys (sample_run data)) f c w) = w" for f c w
    by (simp add: sample_run_def save_config_def)
  have status: "\<exists>p. web_post (web_lib (sample_run data)) (store_lib (sample_run data)) T ''/status'' [''nt'' \<mapsto> nt]
      \<lparr>web = (sample_web_running net w)\<lparr>bs := \<lparr>poly = \<lparr>rpc_address = Some ''rpc'', chain_id = 0\<rparr>, acc = None\<rparr>,
             net_param := None\<rparr>, done_closed = False\<rparr>
     = Some (Ret p, \<lparr>web = sample_web_running net w, done_closed = True\<rparr>)" for T
    using assms by (elim disjE conjE) (simp_all add: web_post_def status_route_def handle_status_def apply_status_form_def Let_def sample_web_running_def
        when_set_def set_conf_def net_of_def get_orc_pwd_def get_account_by_password_def sample_run_def sample_env_def
        sample_wallets_def sample_conf_def redeem status_pages_def del: hex_decode.simps)
  show ?thesis
    using status [of "error_text (sample_run data)"] opened listens saved
    by (auto simp: web_stage_def sample_requests_def init Let_def)
qed

lemma sample_web_start: "\<exists>r. run (sample_run full_file) (sample_flags\<lparr>Web := 1\<rparr>) (sample_requests ''test'') w = Inr r"
proof -
  let ?fl = "sample_flags\<lparr>Web := 1\<rparr>"
  have "run (sample_run full_file) ?fl (sample_requests ''test'') w
      = start_stage (sample_run full_file) ?fl (new_logger 2 None) empty_vdb (sleep_time (sample_conf_with 2)) (sample_web_running (Some TestNet3) w)"
    using sample_run_stages [OF sample_full_file, of ?fl "sample_requests ''test''" w "sample_web_running (Some TestNet3) w"]
    by (simp add: sample_web_stage) (simp add: sample_flags_def)
  moreover have "net_param (sample_web_running (Some TestNet3) w) = Some TestNet3"
    "conf (sample_web_running (Some TestNet3) w) = sample_conf_with 2"
    by (simp_all add: sample_web_running_def)
  moreover have "RunMode ?fl = ''all''" "PolyPwdFlag ?fl = []" "BtcPwdFlag ?fl = ''pw''"
    by (simp_all add: sample_flags_def)
  ultimately show ?thesis using sample_start_stage by metis
qed

text \<open>Without a type the start crashes when it makes the signer; the observer has been started.\<close>

lemma sample_net_needed: "net_needed (web_lib (sample_run data))"
  by (simp add: net_needed_def sample_run_def sample_env_def)

lemma sample_names_no_net: "r \<in> set (sample_requests []) \<Longrightarrow> names_no_net r"
  by (auto simp: sample_requests_def names_no_net_def)

lemma sample_web_crash:
  "\<exists>r ob. run (sample_run full_file) (sample_flags\<lparr>Web := 1\<rparr>) (sample_requests []) w = Inl (Crashed NilDereference, Some r)
     \<and> routines r = [Listen ob]"
proof -
  let ?fl = "sample_flags\<lparr>Web := 1\<rparr>" and ?s = "sample_web_running None w"
  have run: "run (sample_run full_file) ?fl (sample_requests []) w
      = start_stage (sample_run full_file) ?fl (new_logger 2 None) empty_vdb (sleep_time (sample_conf_with 2)) ?s"
    using sample_run_stages [OF sample_full_file, of ?fl "sample_requests []" w ?s]
    by (simp add: sample_web_stage) (simp add: sample_flags_def)
  have conf: "conf ?s = sample_conf_with 2" "net_param ?s = None" by (simp_all add: sample_web_running_def)
  obtain key where "get_utxo_key sample_btcd [1, 174] = Ret key"
    using sample_key_Ret by (simp add: sample_signer_def)
  then have "\<exists>ob. start_observer (lib sample_env) True (sample_conf_with 2) [1, 174] = Ret ob"
    by (simp add: start_observer_def new_observer_def sample_env_def)
  moreover have "start_signer sample_env None (sample_conf_with 2) rb (bytes_of ''pw'') (bytes_of ''pw'') = Panic NilDereference" for rb
    by (simp add: start_signer_def new_signer_def get_account_by_password_def sample_env_def sample_wallets_def
        sample_account_def sample_conf_def)
  ultimately obtain ob where "start_mode sample_env ''all'' ?s [1, 174] (bytes_of ''pw'') (bytes_of ''pw'')
      = Inl (Crashed NilDereference, [Listen ob])"
    by (auto simp: start_mode_def conf)
  moreover have "choose_password p [] (WalletPwd sample_conf) u = (Inr (bytes_of ''pw''), u)"
    "choose_password p ''pw'' cp u = (Inr (bytes_of ''pw''), u)"
    for p :: "bytes list list \<Rightarrow> (go_error + bytes) \<times> bytes list list" and cp u
    by (simp_all add: choose_password_def sample_conf_def)
  moreover have "hex_decode (Redeem sample_conf) = Inr [1, 174]"
    using sample_redeem_bytes by (simp add: sample_web_def)
  moreover have "web_lib (sample_run full_file) = sample_env" by (simp add: sample_run_def)
  moreover have "RunMode ?fl = ''all''" "PolyPwdFlag ?fl = []" "BtcPwdFlag ?fl = ''pw''" by (simp_all add: sample_flags_def)
  ultimately show ?thesis unfolding run by (simp add: start_stage_def conf Let_def)
qed

theorem web_without_net_fails_witness:
  "(\<forall>r. run (sample_run full_file) (sample_flags\<lparr>Web := 1\<rparr>) (sample_requests []) [] \<noteq> Inr r)
   \<and> (\<exists>ob. left_running (run (sample_run full_file) (sample_flags\<lparr>Web := 1\<rparr>) (sample_requests []) []) = [Listen ob])"
proof
  have "Web (sample_flags\<lparr>Web := 1\<rparr>) = 1" "RunMode (sample_flags\<lparr>Web := 1\<rparr>) = ''all''" by (simp_all add: sample_flags_def)
  then show "\<forall>r. run (sample_run full_file) (sample_flags\<lparr>Web := 1\<rparr>) (sample_requests []) [] \<noteq> Inr r"
    using web_without_net_fails [of "sample_flags\<lparr>Web := 1\<rparr>" "sample_requests []" "sample_run full_file" "[]"]
      sample_net_needed sample_names_no_net by blast
  show "\<exists>ob. left_running (run (sample_run full_file) (sample_flags\<lparr>Web := 1\<rparr>) (sample_requests []) []) = [Listen ob]"
    using sample_web_crash [of "[]"] by (auto simp: left_running_def)
qed

definition sample_cli :: "flag list cli" where
  "sample_cli =
     \<lparr>read_args = \<lambda>fs args. if length args = 1 then Inr fs else Inl (Ext ''flag provided but not defined''),
      global_string = \<lambda>c n. (case find (\<lambda>f. flag_name f = n) c of Some (StringFlag m u v) \<Rightarrow> v | _ \<Rightarrow> []),
      global_int = \<lambda>c n. (case find (\<lambda>f. flag_name f = n) c of Some (UintFlag m u v) \<Rightarrow> v | Some (IntFlag m u v) \<Rightarrow> v
        | _ \<Rightarrow> 0)\<rparr>"

lemma sample_cli_defaults: "cli_defaults sample_cli"
proof -
  have "has_default sample_cli fs f" if "distinct (map flag_name fs)" "f \<in> set fs" for fs f
    using find_distinct [OF that] by (cases f) (simp_all add: sample_cli_def)
  then show ?thesis unfolding cli_defaults_def by (simp add: sample_cli_def)
qed

theorem default_start_needs_net_witness:
  "\<forall>res. main_program (sample_run full_file) sample_cli [''vendor''] (sample_requests []) [] \<noteq> Inr res"
  using default_start_needs_net [OF sample_cli_defaults, of "sample_requests []" "sample_run full_file"]
    sample_net_needed sample_names_no_net by blast

theorem init_leaves_chain_id_zero_witness:
  "(\<exists>r. run (sample_run full_file) sample_flags [] [] = Inr r
      \<and> header_chain_id (store_lib (sample_run full_file)) (PolyJsonRpcAddress (run_conf r)) = Inr (chain_id (run_poly r)))
   \<and> (\<exists>r. run (sample_run full_file) (sample_flags\<lparr>Web := 1\<rparr>) (sample_requests ''test'') [] = Inr r \<and> chain_id (run_poly r) = 0)"
proof
  obtain r where r: "run (sample_run full_file) sample_flags [] [] = Inr r"
    using sample_start [OF sample_full_file] by blast
  have "Web sample_flags \<noteq> 1" by (simp add: sample_flags_def)
  with init_leaves_chain_id_zero [OF r] r
  show "\<exists>r. run (sample_run full_file) sample_flags [] [] = Inr r
      \<and> header_chain_id (store_lib (sample_run full_file)) (PolyJsonRpcAddress (run_conf r)) = Inr (chain_id (run_poly r))"
    by blast
next
  obtain r where r: "run (sample_run full_file) (sample_flags\<lparr>Web := 1\<rparr>) (sample_requests ''test'') [] = Inr r"
    using sample_web_start by blast
  from init_leaves_chain_id_zero [OF r, of "[''rpc'' \<mapsto> ''rpc'']"] r
  show "\<exists>r. run (sample_run full_file) (sample_flags\<lparr>Web := 1\<rparr>) (sample_requests ''test'') [] = Inr r \<and> chain_id (run_poly r) = 0"
    by (auto simp: sample_requests_def)
qed

theorem missing_interval_panics_witness:
  "\<exists>r ob. run (sample_run short_file) sample_flags [] [] = Inr r \<and> Listen ob \<in> set (routines r)
     \<and> listen_begin sample_node ob \<lparr>txchan = Some [], ob_vdb = empty_vdb, world = 0\<rparr>
         = Panic (PanicError (Text ''non-positive interval for NewTicker''))"
proof -
  obtain r ob sg where r: "run (sample_run short_file) sample_flags [] [] = Inr r" "routines r = [Listen ob, Signing sg]"
    using sample_start [OF sample_short_file] by blast
  then have ob: "Listen ob \<in> set (routines r)" by simp
  have "Web sample_flags \<noteq> 1" by (simp add: sample_flags_def)
  moreover have "open_read (file_sys (sample_run short_file)) (ConfigFile sample_flags) [] = Inr (Inr short_file)"
    by (simp add: sample_run_def)
  moreover have "list_all (\<lambda>kv. fold_key (fst kv) \<noteq> fold_key ''PolyObLoopWaitTime'')
      (map (\<lambda>(n, f). (n, encode_field f sample_conf)) short_fields)"
    by (simp add: short_fields_def config_fields_def lower_char_def)
  ultimately show ?thesis using missing_interval_panics [OF _ _ parse_short_file _ r(1) ob] r(1) ob by blast
qed

end
