(* ===== verification/Pipeline.thy ===== *)
theory Pipeline
  imports Vendor_Observer Signer_Properties
begin

text \<open>
  Mode \<open>all\<close>: \<open>Listen\<close> and \<open>Signing\<close> run as two goroutines that share a channel of 100 items
  and the database. Their steps interleave in any order: a step is what happens between two points
  at which the other goroutine can be seen, the receive or send on the channel, a single call of the
  node or the chain (a call that is repeated after an error is a step for each try, with its wait), or
  an operation of the database (which its lock makes one step).
\<close>

section \<open>The two goroutines\<close>

definition CHANNEL_SIZE :: nat where
  "CHANNEL_SIZE = 100"

text \<open>
  What the signer is doing: signing an item, submitting its signatures, or storing it. With the item
  without its scripts, which is the one to be stored, goes the item as it was taken.
\<close>

datatype signer_job = Idle | Taken to_sign_item | Posting to_sign_item to_sign_item "bytes list"
  | Accepted to_sign_item to_sign_item

text \<open>
  \<open>scan\<close> is the pair of the loop variable and \<open>newTop\<close> during a tick, \<open>todo\<close> the
  notifications of the block that are still to be looked at, \<open>captured\<close> all that was sent and
  \<open>settled\<close> all that the signer is finished with, since the start.
\<close>

record ('d, 'w) system =
  obs_top :: u32
  recorded :: u32
  scan :: "(u32 \<times> u32) option"
  to_sign :: nat
  todo :: "notify_event list"
  channel :: "to_sign_item list"
  job :: signer_job
  sys_vdb :: "'d vendor_db"
  sys_world :: 'w
  captured :: "to_sign_item list"
  settled :: "to_sign_item list"

definition start_system :: "u32 \<Rightarrow> 'd vendor_db \<Rightarrow> 'w \<Rightarrow> ('d, 'w) system" where
  "start_system t v w = \<lparr>obs_top = t, recorded = t, scan = None, to_sign = 0, todo = [], channel = [], job = Idle,
     sys_vdb = v, sys_world = w, captured = [], settled = []\<rparr>"

inductive observer_step ::
  "btcd \<Rightarrow> 'd leveldb \<Rightarrow> 'w node \<Rightarrow> (rat \<Rightarrow> u64) \<Rightarrow> observer \<Rightarrow> ('d, 'w) system \<Rightarrow> ('d, 'w) system \<Rightarrow> bool"
  for B L N cvt ob
where
  poll_error: "scan s = None \<Longrightarrow> current_height N (sys_world s) = (Inl err, w) \<Longrightarrow>
     observer_step B L N cvt ob s (s\<lparr>sys_world := w\<rparr>)"
| poll_same: "scan s = None \<Longrightarrow> current_height N (sys_world s) = (Inr newTop, w) \<Longrightarrow> newTop - obs_top s \<le> 0 \<Longrightarrow>
     observer_step B L N cvt ob s (s\<lparr>sys_world := w\<rparr>)"
| poll_new: "scan s = None \<Longrightarrow> current_height N (sys_world s) = (Inr newTop, w) \<Longrightarrow> \<not> newTop - obs_top s \<le> 0 \<Longrightarrow>
     observer_step B L N cvt ob s (s\<lparr>sys_world := w, scan := Some (obs_top s + 1, newTop), to_sign := 0\<rparr>)"
| fetch_again: "scan s = Some (h, newTop) \<Longrightarrow> h \<le> newTop \<Longrightarrow> todo s = [] \<Longrightarrow>
     events_by_block N h (sys_world s) = (Inl err, w) \<Longrightarrow>
     observer_step B L N cvt ob s (s\<lparr>sys_world := w\<rparr>)"
| fetch: "scan s = Some (h, newTop) \<Longrightarrow> h \<le> newTop \<Longrightarrow> todo s = [] \<Longrightarrow>
     events_by_block N h (sys_world s) = (Inr events, w) \<Longrightarrow>
     observer_step B L N cvt ob s
       (s\<lparr>sys_world := w, scan := Some (h + 1, newTop), todo := concat (map Notify events)\<rparr>)"
| skip: "todo s = n # ns \<Longrightarrow> notify_action B cvt (hashKey ob) (States n) = Ret Skip \<Longrightarrow>
     observer_step B L N cvt ob s (s\<lparr>todo := ns\<rparr>)"
| send: "todo s = n # ns \<Longrightarrow> notify_action B cvt (hashKey ob) (States n) = Ret (Capture item) \<Longrightarrow>
     length (channel s) < CHANNEL_SIZE \<Longrightarrow>
     observer_step B L N cvt ob s
       (s\<lparr>todo := ns, channel := channel s @ [item], captured := captured s @ [item], to_sign := to_sign s + 1\<rparr>)"
| mark: "todo s = n # ns \<Longrightarrow> notify_action B cvt (hashKey ob) (States n) = Ret (MarkDone txid) \<Longrightarrow>
     observer_step B L N cvt ob s (s\<lparr>todo := ns, sys_vdb := snd (set_tx_done B L (sys_vdb s) txid)\<rparr>)"
| finish: "scan s = Some (h, newTop) \<Longrightarrow> \<not> h \<le> newTop \<Longrightarrow> todo s = [] \<Longrightarrow>
     \<not> (to_sign s > 0 \<or> newTop - recorded s \<ge> waitingCircle ob) \<Longrightarrow>
     observer_step B L N cvt ob s (s\<lparr>scan := None, obs_top := newTop\<rparr>)"
| finish_record: "scan s = Some (h, newTop) \<Longrightarrow> \<not> h \<le> newTop \<Longrightarrow> todo s = [] \<Longrightarrow>
     to_sign s > 0 \<or> newTop - recorded s \<ge> waitingCircle ob \<Longrightarrow>
     observer_step B L N cvt ob s
       (s\<lparr>scan := None, obs_top := newTop, recorded := newTop,
          sys_world := snd (set_last_height N ob newTop (sys_world s))\<rparr>)"

inductive signer_step ::
  "btcd \<Rightarrow> 'd leveldb \<Rightarrow> 'w multi_sign \<Rightarrow> ('w \<Rightarrow> gotime) \<Rightarrow> signer \<Rightarrow> string \<Rightarrow> ('d, 'w) system \<Rightarrow> ('d, 'w) system \<Rightarrow> bool"
  for B L multi_sign now sg key
where
  take_item: "job s = Idle \<Longrightarrow> channel s = item # rest \<Longrightarrow>
     signer_step B L multi_sign now sg key s (s\<lparr>job := Taken item, channel := rest\<rparr>)"
| not_signed: "job s = Taken item \<Longrightarrow> get_sigs B sg item = (Ret (Inl err), item') \<Longrightarrow>
     signer_step B L multi_sign now sg key s (s\<lparr>job := Idle, settled := settled s @ [item]\<rparr>)"
| signed: "job s = Taken item \<Longrightarrow> get_sigs B sg item = (Ret (Inr sigs), item') \<Longrightarrow>
     signer_step B L multi_sign now sg key s (s\<lparr>job := Posting item item' sigs\<rparr>)"
| post_again: "job s = Posting item item' sigs \<Longrightarrow>
     multi_sign 1 key (tx_hash B (Mtx item)) (addr sg) sigs (acct sg) (sys_world s) = (PostErr err, w) \<Longrightarrow>
     signer_step B L multi_sign now sg key s (s\<lparr>sys_world := w\<rparr>)"
| rejected: "job s = Posting item item' sigs \<Longrightarrow>
     multi_sign 1 key (tx_hash B (Mtx item)) (addr sg) sigs (acct sg) (sys_world s) = (CallErr err, w) \<Longrightarrow>
     signer_step B L multi_sign now sg key s (s\<lparr>job := Idle, settled := settled s @ [item], sys_world := w\<rparr>)"
| accepted: "job s = Posting item item' sigs \<Longrightarrow>
     multi_sign 1 key (tx_hash B (Mtx item)) (addr sg) sigs (acct sg) (sys_world s) = (Answer txid, w) \<Longrightarrow>
     signer_step B L multi_sign now sg key s (s\<lparr>job := Accepted item item', sys_world := w\<rparr>)"
| store_item: "job s = Accepted item item' \<Longrightarrow>
     signer_step B L multi_sign now sg key s
       (s\<lparr>job := Idle, settled := settled s @ [item],
          sys_vdb := snd (put_signed_tx B L (sys_vdb s) (tx_hash B (strip_scripts (Mtx item')))
                       \<lparr>Item = item', TimeReceived = now (sys_world s), Done = False\<rparr>)\<rparr>)"

inductive_cases observer_stepE: "observer_step B L N cvt ob s s'"
inductive_cases signer_stepE: "signer_step B L multi_sign now sg key s s'"

inductive system_run ::
  "btcd \<Rightarrow> 'd leveldb \<Rightarrow> 'w node \<Rightarrow> (rat \<Rightarrow> u64) \<Rightarrow> observer \<Rightarrow> 'w multi_sign \<Rightarrow> ('w \<Rightarrow> gotime) \<Rightarrow> signer \<Rightarrow> string
     \<Rightarrow> ('d, 'w) system \<Rightarrow> ('d, 'w) system \<Rightarrow> bool"
  for B L N cvt ob multi_sign now sg key
where
  run_start: "system_run B L N cvt ob multi_sign now sg key s s"
| run_observer: "system_run B L N cvt ob multi_sign now sg key s t \<Longrightarrow> observer_step B L N cvt ob t u \<Longrightarrow>
     system_run B L N cvt ob multi_sign now sg key s u"
| run_signer: "system_run B L N cvt ob multi_sign now sg key s t \<Longrightarrow> signer_step B L multi_sign now sg key t u \<Longrightarrow>
     system_run B L N cvt ob multi_sign now sg key s u"

section \<open>Facts\<close>

lemma system_run_trans:
  assumes "system_run B L N cvt ob multi_sign now sg key s t" and "system_run B L N cvt ob multi_sign now sg key t u"
  shows "system_run B L N cvt ob multi_sign now sg key s u"
  using assms(2,1) by (induction) (auto intro: system_run.intros)

primrec in_job :: "signer_job \<Rightarrow> to_sign_item list" where
  "in_job Idle = []"
| "in_job (Taken item) = [item]"
| "in_job (Posting item item' sigs) = [item]"
| "in_job (Accepted item item') = [item]"

text \<open>The item that the signer holds with its scripts taken out is the one it took.\<close>

primrec job_ok :: "signer_job \<Rightarrow> bool" where
  "job_ok Idle \<longleftrightarrow> True"
| "job_ok (Taken item) \<longleftrightarrow> True"
| "job_ok (Posting item item' sigs) \<longleftrightarrow> item' = stripped_item item"
| "job_ok (Accepted item item') \<longleftrightarrow> item' = stripped_item item"

lemma get_sigs_item: "get_sigs B sg item = (r, item') \<Longrightarrow> item' = stripped_item item"
  using get_sigs_snd [of B sg item] by simp

lemma observer_step_job: "observer_step B L N cvt ob s s' \<Longrightarrow> job s' = job s"
  by (erule observer_stepE) simp_all

lemma signer_step_job: "signer_step B L multi_sign now sg key s s' \<Longrightarrow> job_ok (job s) \<Longrightarrow> job_ok (job s')"
  by (erule signer_stepE) (simp_all add: get_sigs_item)

text \<open>A repeated call is a step for every try.\<close>

lemma fetch_steps:
  assumes "retry_events (events_by_block N h) (sys_world s) = Some (Inr events, w)"
    and "scan s = Some (h, newTop)" and "h \<le> newTop" and "todo s = []"
  shows "system_run B L N cvt ob multi_sign now sg key s
     (s\<lparr>sys_world := w, scan := Some (h + 1, newTop), todo := concat (map Notify events)\<rparr>)"
proof -
  let ?run = "system_run B L N cvt ob multi_sign now sg key"
  have again: "?run s (s\<lparr>sys_world := u'\<rparr>)"
    if "?run s (s\<lparr>sys_world := u\<rparr>)" and "events_by_block N h u = (r, u')" and "is_failed r" for u r u'
  proof -
    from that(2,3) obtain err where "events_by_block N h u = (Inl err, u')" by (cases r) (auto simp: is_failed_def)
    with fetch_again [of "s\<lparr>sys_world := u\<rparr>" h newTop N err u' B L cvt ob] assms(2-4)
    have "observer_step B L N cvt ob (s\<lparr>sys_world := u\<rparr>) (s\<lparr>sys_world := u'\<rparr>)" by simp
    with that(1) show ?thesis by (rule run_observer)
  qed
  have "?run s (s\<lparr>sys_world := sys_world s\<rparr>)" by (simp add: run_start)
  then obtain u where u: "?run s (s\<lparr>sys_world := u\<rparr>)" "events_by_block N h u = (Inr events, w)"
    by (rule retry_steps [where P = "\<lambda>u. ?run s (s\<lparr>sys_world := u\<rparr>)", OF assms(1) [unfolded retry_events_def]])
      (erule (2) again, rule that)
  with fetch [of "s\<lparr>sys_world := u\<rparr>" h newTop N events w B L cvt ob] assms(2-4) run_observer show ?thesis by fastforce
qed

lemma post_steps:
  assumes "submit multi_sign sg key (tx_hash B (Mtx item)) sigs (sys_world s) = Some (res, w)"
    and "job s = Posting item item' sigs"
  shows "system_run B L N cvt ob multi_sign now sg key s
     (case res of Answer txid \<Rightarrow> s\<lparr>job := Accepted item item', sys_world := w\<rparr>
      | _ \<Rightarrow> s\<lparr>job := Idle, settled := settled s @ [item], sys_world := w\<rparr>)"
proof -
  let ?run = "system_run B L N cvt ob multi_sign now sg key"
  let ?call = "multi_sign 1 key (tx_hash B (Mtx item)) (addr sg) sigs (acct sg)"
  have again: "?run s (s\<lparr>sys_world := u'\<rparr>)"
    if "?run s (s\<lparr>sys_world := u\<rparr>)" and "?call u = (r, u')" and "is_post_err r" for u r u'
  proof -
    from that(2,3) obtain err where "?call u = (PostErr err, u')" by (cases r) auto
    with post_again [of "s\<lparr>sys_world := u\<rparr>" item item' sigs multi_sign key B sg err u' L now] assms(2)
    have "signer_step B L multi_sign now sg key (s\<lparr>sys_world := u\<rparr>) (s\<lparr>sys_world := u'\<rparr>)" by simp
    with that(1) show ?thesis by (rule run_signer)
  qed
  have "?run s (s\<lparr>sys_world := sys_world s\<rparr>)" by (simp add: run_start)
  then obtain u where u: "?run s (s\<lparr>sys_world := u\<rparr>)" "?call u = (res, w)" "\<not> is_post_err res"
    by (rule retry_steps [where P = "\<lambda>u. ?run s (s\<lparr>sys_world := u\<rparr>)",
        OF assms(1) [unfolded submit_def retry_post_err_def]]) (erule (2) again, rule that)
  have "signer_step B L multi_sign now sg key (s\<lparr>sys_world := u\<rparr>)
     (case res of Answer txid \<Rightarrow> s\<lparr>job := Accepted item item', sys_world := w\<rparr>
      | _ \<Rightarrow> s\<lparr>job := Idle, settled := settled s @ [item], sys_world := w\<rparr>)"
    using u(2,3) assms(2) accepted [of "s\<lparr>sys_world := u\<rparr>" item item' sigs multi_sign key B sg]
      rejected [of "s\<lparr>sys_world := u\<rparr>" item item' sigs multi_sign key B sg] by (cases res) simp_all
  with u(1) show ?thesis by (rule run_signer)
qed

text \<open>Nothing is lost, repeated or overtaken between the two goroutines.\<close>

definition flow_inv :: "('d, 'w) system \<Rightarrow> bool" where
  "flow_inv s \<longleftrightarrow> captured s = settled s @ in_job (job s) @ channel s \<and> length (channel s) \<le> CHANNEL_SIZE"

lemma observer_step_flow: "observer_step B L N cvt ob s s' \<Longrightarrow> flow_inv s \<Longrightarrow> flow_inv s'"
  by (erule observer_stepE) (auto simp: flow_inv_def)

lemma signer_step_flow: "signer_step B L multi_sign now sg key s s' \<Longrightarrow> flow_inv s \<Longrightarrow> flow_inv s'"
  by (erule signer_stepE) (auto simp: flow_inv_def)

lemma system_run_flow: "system_run B L N cvt ob multi_sign now sg key s s' \<Longrightarrow> flow_inv s \<Longrightarrow> flow_inv s'"
  by (induction rule: system_run.induct) (auto intro: observer_step_flow signer_step_flow)

lemma start_flow: "flow_inv (start_system t v w)"
  by (simp add: flow_inv_def start_system_def)

text \<open>With a chain that accepts, everything that is settled is in the database.\<close>

definition kept_inv :: "btcd \<Rightarrow> 'd leveldb \<Rightarrow> ('d, 'w) system \<Rightarrow> bool" where
  "kept_inv B L s \<longleftrightarrow> flow_inv s \<and> vdb_sound B L (sys_vdb s)
     \<and> (\<forall>item \<in> set (settled s). stored B L (sys_vdb s) (unsigned_hash B item) \<noteq> None)
     \<and> job_ok (job s)"

text \<open>A signer that has taken an item gets it accepted.\<close>

lemma accepts_steps:
  assumes "chain_accepts multi_sign" and "signable B now sg item" and "job s = Taken item"
  obtains w where "system_run B L N cvt ob multi_sign now sg key s
      (s\<lparr>job := Accepted item (stripped_item item), sys_world := w\<rparr>)"
proof -
  let ?run = "system_run B L N cvt ob multi_sign now sg key"
  from assms(2) obtain sigs where "fst (get_sigs B sg item) = Ret (Inr sigs)" by (auto simp: signable_def)
  from signed [OF assms(3) get_sigs_eq [OF this]]
  have sign: "?run s (s\<lparr>job := Posting item (stripped_item item) sigs\<rparr>)" by (rule run_signer [OF run_start])
  obtain txid w where "submit multi_sign sg key (tx_hash B (Mtx item)) sigs (sys_world s) = Some (Answer txid, w)"
    by (rule chain_accepts_submit [OF assms(1)])
  with post_steps [of multi_sign sg key B item sigs "s\<lparr>job := Posting item (stripped_item item) sigs\<rparr>" "Answer txid" w
      "stripped_item item" L N cvt ob now]
  have "?run (s\<lparr>job := Posting item (stripped_item item) sigs\<rparr>) (s\<lparr>job := Accepted item (stripped_item item), sys_world := w\<rparr>)"
    by simp
  with sign show thesis by (intro that) (rule system_run_trans)
qed

lemma observer_step_kept:
  assumes "observer_step B L N cvt ob s s'" and "kept_inv B L s"
  shows "kept_inv B L s'"
proof -
  have mark: "vdb_sound B L (snd (set_tx_done B L (sys_vdb s) txid))"
    "stored B L (sys_vdb s) h \<noteq> None \<Longrightarrow> stored B L (snd (set_tx_done B L (sys_vdb s) txid)) h \<noteq> None" for txid h
    using vdb.done_law [of B L "sys_vdb s" txid, OF _ prod.collapse [symmetric]] assms(2)
    by (auto simp: kept_inv_def split: option.splits)
  show ?thesis using assms observer_step_flow [OF assms(1)] mark
    by (auto elim!: observer_stepE simp: kept_inv_def)
qed

lemma signer_step_kept:
  assumes "signer_step B L multi_sign now sg key s s'" and "kept_inv B L s"
    and "chain_accepts multi_sign" and "\<forall>item \<in> set (captured s). signable B now sg item"
  shows "kept_inv B L s'"
proof -
  have flow: "captured s = settled s @ in_job (job s) @ channel s" "flow_inv s'"
    using assms(2) signer_step_flow [OF assms(1)] by (auto simp: kept_inv_def flow_inv_def)
  have job: "job_ok (job s')" using signer_step_job [OF assms(1)] assms(2) by (simp add: kept_inv_def)
  from assms(1) show ?thesis
  proof (cases rule: signer_step.cases)
    case (not_signed item err item')
    with flow assms(4) have "signable B now sg item" by simp
    with not_signed show ?thesis by (auto simp: signable_def)
  next
    case (rejected item item' sigs err w)
    with assms(3) show ?thesis unfolding chain_accepts_def by (metis fst_conv)
  next
    case (store_item item item')
    with assms(2) have item': "item' = stripped_item item" by (simp add: kept_inv_def)
    let ?x = "new_saved item (now (sys_world s))"
    have v: "sys_vdb s' = snd (put_signed_tx B L (sys_vdb s) (unsigned_hash B item) ?x)"
      using store_item item' by (simp add: unsigned_hash_def new_saved_def)
    from flow assms(4) store_item have "signable B now sg item" by simp
    then have "put_ok B (unsigned_hash B item) ?x" by (simp add: signable_def put_ok_def)
    from vdb.put_law [OF _ this prod.collapse [symmetric], of L "sys_vdb s"] assms(2) v
    have "vdb_sound B L (sys_vdb s')" "stored B L (sys_vdb s') (unsigned_hash B item) \<noteq> None"
      "\<And>h. stored B L (sys_vdb s) h \<noteq> None \<Longrightarrow> stored B L (sys_vdb s') h \<noteq> None"
      by (auto simp: kept_inv_def split: if_splits)
    with assms(2) flow store_item show ?thesis by (auto simp: kept_inv_def)
  qed (use assms(2) flow job in \<open>auto simp: kept_inv_def\<close>)
qed

end
