(* ===== verification/Pipeline_Properties.thy ===== *)
theory Pipeline_Properties
  imports Pipeline Sample_Node
begin

text \<open>
  Mode \<open>all\<close>, observer and signer together: what was captured reaches the database.
\<close>

section \<open>Everything captured is stored\<close>

text \<open>Where the observer is in its loop.\<close>

definition place_of :: "('d, 'w) system \<Rightarrow> (u32 \<times> u32) option \<times> u32 \<times> u32" where
  "place_of s = (scan s, obs_top s, recorded s)"

lemma store_accepted:
  assumes "kept_inv B L s" and "chain_accepts multi_sign" and "\<forall>item \<in> set (captured s). signable B now sg item"
    and "job s = Accepted item item'"
  obtains s' where "signer_step B L multi_sign now sg key s s'" "kept_inv B L s'" "job s' = Idle"
    "channel s' = channel s" "captured s' = captured s" "todo s' = todo s" "place_of s' = place_of s"
proof -
  from store_item [OF assms(4)] have step: "signer_step B L multi_sign now sg key s (s\<lparr>job := Idle,
      settled := settled s @ [item], sys_vdb := snd (put_signed_tx B L (sys_vdb s) (tx_hash B (strip_scripts (Mtx item')))
        \<lparr>Item = item', TimeReceived = now (sys_world s), Done = False\<rparr>)\<rparr>)" (is "signer_step _ _ _ _ _ _ _ ?s") .
  from signer_step_kept [OF this assms(1-3)] step show thesis by (intro that [of ?s]) (simp_all add: place_of_def)
qed

lemma system_run_kept:
  assumes "system_run B L N cvt ob multi_sign now sg key s s'" and "kept_inv B L s" and "chain_accepts multi_sign"
    and "\<forall>item \<in> set (captured s'). signable B now sg item"
  shows "kept_inv B L s'"
  using assms(1,2,4)
proof (induction rule: system_run.induct)
  case (run_observer s t u)
  have "set (captured t) \<subseteq> set (captured u)" using run_observer(2) by (auto elim: observer_stepE)
  with run_observer show ?case by (blast intro: observer_step_kept)
next
  case (run_signer s t u)
  have "captured t = captured u" using run_signer(2) by (auto elim: signer_stepE)
  with run_signer show ?case by (metis signer_step_kept assms(3))
qed

lemma finish_accepted:
  assumes "kept_inv B L s" and "chain_accepts multi_sign" and "\<forall>item \<in> set (captured s). signable B now sg item"
    and "system_run B L N cvt ob multi_sign now sg key s (s\<lparr>job := Accepted item item', sys_world := w\<rparr>)"
  obtains s' where "system_run B L N cvt ob multi_sign now sg key s s'" "kept_inv B L s'" "job s' = Idle"
    "channel s' = channel s" "captured s' = captured s" "todo s' = todo s" "place_of s' = place_of s"
proof -
  let ?t = "s\<lparr>job := Accepted item item', sys_world := w\<rparr>"
  have "kept_inv B L ?t" by (rule system_run_kept [OF assms(4,1,2)]) (use assms(3) in simp)
  from store_accepted [OF this assms(2), of now sg item item' key] assms(3) obtain s' where
    "signer_step B L multi_sign now sg key ?t s'" "kept_inv B L s'" "job s' = Idle" "channel s' = channel s"
    "captured s' = captured s" "todo s' = todo s" "place_of s' = place_of s" by (auto simp: place_of_def)
  with that assms(4) show thesis by (blast intro: run_signer)
qed

lemma finish_job:
  assumes "kept_inv B L s" and "chain_accepts multi_sign" and "\<forall>item \<in> set (captured s). signable B now sg item"
  obtains s' where "system_run B L N cvt ob multi_sign now sg key s s'" "kept_inv B L s'" "job s' = Idle"
    "channel s' = channel s" "captured s' = captured s" "todo s' = todo s" "place_of s' = place_of s"
proof (cases "job s")
  case Idle
  with assms(1) show thesis by (intro that [of s]) (auto intro: run_start)
next
  case (Accepted item item')
  then have "s\<lparr>job := Accepted item item', sys_world := sys_world s\<rparr> = s" by simp
  with run_start have "system_run B L N cvt ob multi_sign now sg key s (s\<lparr>job := Accepted item item', sys_world := sys_world s\<rparr>)"
    by metis
  with finish_accepted [OF assms] that show thesis by metis
next
  case (Taken item)
  with assms(1,3) have "signable B now sg item" by (simp add: kept_inv_def flow_inv_def)
  then obtain w where "system_run B L N cvt ob multi_sign now sg key s
      (s\<lparr>job := Accepted item (stripped_item item), sys_world := w\<rparr>)"
    using accepts_steps [OF assms(2) _ Taken] by blast
  with finish_accepted [OF assms] that show thesis by metis
next
  case (Posting item item' sigs)
  obtain txid w where "submit multi_sign sg key (tx_hash B (Mtx item)) sigs (sys_world s) = Some (Answer txid, w)"
    by (rule chain_accepts_submit [OF assms(2)])
  from post_steps [OF this Posting, of L N cvt ob now]
  have "system_run B L N cvt ob multi_sign now sg key s (s\<lparr>job := Accepted item item', sys_world := w\<rparr>)" by simp
  with finish_accepted [OF assms] that show thesis by metis
qed

text \<open>The signer empties the channel.\<close>

lemma drain:
  assumes "kept_inv B L s" and "chain_accepts multi_sign" and "\<forall>item \<in> set (captured s). signable B now sg item"
  shows "\<exists>s'. system_run B L N cvt ob multi_sign now sg key s s' \<and> kept_inv B L s' \<and> job s' = Idle
     \<and> channel s' = [] \<and> captured s' = captured s \<and> todo s' = todo s \<and> place_of s' = place_of s"
  using assms(1,3)
proof (induction "channel s" arbitrary: s)
  case Nil
  obtain s' where "system_run B L N cvt ob multi_sign now sg key s s'" "kept_inv B L s'" "job s' = Idle"
    "channel s' = channel s" "captured s' = captured s" "todo s' = todo s" "place_of s' = place_of s"
    using finish_job [OF Nil.prems(1) assms(2) Nil.prems(2)] by metis
  with Nil.hyps show ?case by auto
next
  case (Cons item rest)
  obtain t where t: "system_run B L N cvt ob multi_sign now sg key s t" "kept_inv B L t" "job t = Idle"
    "channel t = channel s" "captured t = captured s" "todo t = todo s" "place_of t = place_of s"
    using finish_job [OF Cons.prems(1) assms(2) Cons.prems(2)] by metis
  let ?u = "t\<lparr>job := Taken item, channel := rest\<rparr>"
  have step: "signer_step B L multi_sign now sg key t ?u" using t(3) by (rule take_item) (use t(4) Cons.hyps(2) in simp)
  have "kept_inv B L ?u" using step t(2) assms(2) by (rule signer_step_kept) (use t(5) Cons.prems(2) in simp)
  from Cons.hyps(1) [of ?u, OF _ this] Cons.prems(2) t(5) obtain s' where
    "system_run B L N cvt ob multi_sign now sg key ?u s'" "kept_inv B L s'" "job s' = Idle" "channel s' = []"
    "captured s' = captured s" "todo s' = todo t" "place_of s' = place_of t" by (auto simp: place_of_def)
  moreover have "system_run B L N cvt ob multi_sign now sg key s ?u" using t(1) step by (rule run_signer)
  ultimately show ?case using t(6,7) by (metis system_run_trans)
qed

text \<open>The items that a list of notifications holds.\<close>

definition items_of :: "btcd \<Rightarrow> (rat \<Rightarrow> u64) \<Rightarrow> observer \<Rightarrow> notify_event list \<Rightarrow> to_sign_item list" where
  "items_of B cvt ob ns = concat (map (\<lambda>n. case notify_action B cvt (hashKey ob) (States n) of
     Ret (Capture item) \<Rightarrow> [item] | _ \<Rightarrow> []) ns)"

lemma settle_todo:
  assumes "kept_inv B L s" and "chain_accepts multi_sign"
    and "list_all (\<lambda>n. \<exists>act. notify_action B cvt (hashKey ob) (States n) = Ret act) (todo s)"
    and "\<forall>item \<in> set (captured s @ items_of B cvt ob (todo s)). signable B now sg item"
  shows "\<exists>s'. system_run B L N cvt ob multi_sign now sg key s s' \<and> kept_inv B L s' \<and> job s' = Idle
     \<and> channel s' = [] \<and> todo s' = [] \<and> captured s' = captured s @ items_of B cvt ob (todo s)
     \<and> place_of s' = place_of s"
  using assms(1,3,4)
proof (induction "todo s" arbitrary: s)
  case Nil
  have "\<forall>item \<in> set (captured s). signable B now sg item" using Nil.prems(3) by simp
  from drain [OF Nil.prems(1) assms(2) this] obtain s' where "system_run B L N cvt ob multi_sign now sg key s s'"
    "kept_inv B L s'" "job s' = Idle" "channel s' = []" "captured s' = captured s" "todo s' = todo s"
    "place_of s' = place_of s" by metis
  with Nil.hyps show ?case by (auto simp: items_of_def)
next
  case (Cons n ns)
  have "\<forall>item \<in> set (captured s). signable B now sg item" using Cons.prems(3) by auto
  from drain [OF Cons.prems(1) assms(2) this] obtain t where
    t: "system_run B L N cvt ob multi_sign now sg key s t" "kept_inv B L t" "job t = Idle"
      "channel t = []" "captured t = captured s" and todo: "todo t = todo s" and place: "place_of t = place_of s" by blast
  have todo_t: "todo t = n # ns" using todo Cons.hyps(2) by simp
  note todo_s = Cons.hyps(2) [symmetric]
  from Cons.prems(2) obtain act where act: "notify_action B cvt (hashKey ob) (States n) = Ret act"
    and acts: "list_all (\<lambda>n. \<exists>act. notify_action B cvt (hashKey ob) (States n) = Ret act) ns"
    by (auto simp: todo_s)
  have "\<exists>u. observer_step B L N cvt ob t u \<and> todo u = ns
      \<and> captured u = captured s @ items_of B cvt ob [n] \<and> place_of u = place_of t"
  proof (cases act)
    case Skip
    with t todo_t act skip [of t n ns B cvt ob L N] show ?thesis by (intro exI conjI) (assumption | simp add: items_of_def place_of_def)+
  next
    case (Capture item)
    with t todo_t act send [of t n ns B cvt ob item L N] show ?thesis
      by (intro exI conjI) (assumption | simp add: items_of_def CHANNEL_SIZE_def place_of_def)+
  next
    case (MarkDone txid)
    with t todo_t act mark [of t n ns B cvt ob txid L N] show ?thesis by (intro exI conjI) (assumption | simp add: items_of_def place_of_def)+
  qed
  then obtain u where u: "observer_step B L N cvt ob t u" "todo u = ns"
    "captured u = captured s @ items_of B cvt ob [n]" "place_of u = place_of s" unfolding place by blast
  have rest: "items_of B cvt ob (todo s) = items_of B cvt ob [n] @ items_of B cvt ob ns"
    by (simp add: todo_s items_of_def)
  have "kept_inv B L u" using u(1) t(2) by (rule observer_step_kept)
  moreover have "list_all (\<lambda>n. \<exists>act. notify_action B cvt (hashKey ob) (States n) = Ret act) (todo u)"
    using acts u(2) by simp
  moreover have "\<forall>item \<in> set (captured u @ items_of B cvt ob (todo u)). signable B now sg item"
    using Cons.prems(3) u rest by auto
  ultimately obtain s' where "system_run B L N cvt ob multi_sign now sg key u s'" "kept_inv B L s'" "job s' = Idle"
    "channel s' = []" "todo s' = []" "captured s' = captured s @ items_of B cvt ob (todo s)"
    "place_of s' = place_of s"
    using Cons.hyps(1) [of u] u rest by auto
  moreover have "system_run B L N cvt ob multi_sign now sg key s u" using t(1) u(1) by (rule run_observer)
  ultimately show ?case using system_run_trans by blast
qed

lemma start_kept: "vdb_sound B L v \<Longrightarrow> kept_inv B L (start_system t v w)"
  using start_flow by (auto simp: kept_inv_def start_system_def)

text \<open>
  From every state that the two goroutines reach, with a chain that accepts what gets through,
  they can come to rest: all notifications of the block are looked at, the channel is empty, and
  every item that was ever captured, with those of the notifications, is in the database under its
  unsigned hash. No state is a deadlock, not even a full channel.
\<close>

theorem pipeline_delivers:
  assumes "system_run B L N cvt ob multi_sign now sg key (start_system t v w) s"
    and "vdb_sound B L v" and "chain_accepts multi_sign"
    and "list_all (\<lambda>n. \<exists>act. notify_action B cvt (hashKey ob) (States n) = Ret act) (todo s)"
    and "\<forall>item \<in> set (captured s @ items_of B cvt ob (todo s)). signable B now sg item"
  shows "\<exists>s'. system_run B L N cvt ob multi_sign now sg key s s' \<and> todo s' = [] \<and> channel s' = [] \<and> job s' = Idle
     \<and> captured s' = captured s @ items_of B cvt ob (todo s) \<and> vdb_sound B L (sys_vdb s')
     \<and> (\<forall>item \<in> set (captured s'). stored B L (sys_vdb s') (unsigned_hash B item) \<noteq> None)"
proof -
  have "kept_inv B L s"
    by (rule system_run_kept [OF assms(1) start_kept [OF assms(2)] assms(3)]) (use assms(5) in auto)
  from settle_todo [OF this assms(3-5)] obtain s' where s':
    "system_run B L N cvt ob multi_sign now sg key s s'" "kept_inv B L s'" "job s' = Idle" "channel s' = []"
    "todo s' = []" "captured s' = captured s @ items_of B cvt ob (todo s)" by blast
  then have "settled s' = captured s'" by (simp add: kept_inv_def flow_inv_def)
  with s' show ?thesis by (auto simp: kept_inv_def)
qed

section \<open>A run on the sample node\<close>

text \<open>The node is polled and block 5 fetched: its notification is to be looked at.\<close>

definition fetched_system :: "((bytes \<times> bytes) list, nat) system" where
  "fetched_system = (start_system 4 empty_vdb 0)\<lparr>sys_world := 1, scan := Some (6, 5), todo := [to_sign_event 4]\<rparr>"

lemma sample_fetch:
  "system_run sample_btcd alist_db sample_node sample_cvt (sample_observer None) multi_sign sample_now sample_signer key
     (start_system 4 empty_vdb 0) fetched_system"
proof -
  let ?s = "start_system 4 empty_vdb 0 :: ((bytes \<times> bytes) list, nat) system"
  let ?t = "?s\<lparr>sys_world := 1, scan := Some (5, 5), to_sign := 0\<rparr>"
  have one: "observer_step sample_btcd alist_db sample_node sample_cvt (sample_observer None) ?s ?t"
    using poll_new [of ?s sample_node 5 1 sample_btcd alist_db sample_cvt "sample_observer None"]
    by (simp add: start_system_def sample_node_def)
  have "events_by_block sample_node 5 1 = (Inr (sample_evs 5), 1)" by (simp add: sample_node_def)
  then have two: "observer_step sample_btcd alist_db sample_node sample_cvt (sample_observer None) ?t fetched_system"
    using fetch [of ?t 5 5 sample_node "sample_evs 5" 1 sample_btcd alist_db sample_cvt "sample_observer None"]
    by (simp add: start_system_def fetched_system_def sample_evs_def)
  show ?thesis using run_observer [OF run_observer [OF run_start one] two] .
qed

theorem pipeline_delivers_witness:
  "\<exists>s'. system_run sample_btcd alist_db sample_node sample_cvt (sample_observer None) sample_chain sample_now
        sample_signer ''key'' (start_system 4 empty_vdb 0) s'
     \<and> captured s' = [event_item 4] \<and> channel s' = [] \<and> stored sample_btcd alist_db (sys_vdb s') [1, 0, 1, 4] \<noteq> None"
proof -
  have todo: "todo fetched_system = [to_sign_event 4]" "captured fetched_system = []"
    by (simp_all add: fetched_system_def start_system_def)
  have act: "notify_action sample_btcd sample_cvt (hashKey (sample_observer None)) (States (to_sign_event 4))
      = Ret (Capture (event_item 4))"
    using sample_capture by (simp add: sample_observer_def)
  have items: "items_of sample_btcd sample_cvt (sample_observer None) [to_sign_event 4] = [event_item 4]"
    by (simp add: items_of_def act)
  have "\<exists>s'. system_run sample_btcd alist_db sample_node sample_cvt (sample_observer None) sample_chain sample_now
        sample_signer ''key'' fetched_system s' \<and> todo s' = [] \<and> channel s' = [] \<and> job s' = Idle
     \<and> captured s' = captured fetched_system @ items_of sample_btcd sample_cvt (sample_observer None) (todo fetched_system)
     \<and> vdb_sound sample_btcd alist_db (sys_vdb s')
     \<and> (\<forall>item \<in> set (captured s'). stored sample_btcd alist_db (sys_vdb s') (unsigned_hash sample_btcd item) \<noteq> None)"
    by (rule pipeline_delivers [OF sample_fetch empty_vdb_sound sample_chain_accepts])
      (simp_all add: items todo act sample_signable)
  then obtain s' where "system_run sample_btcd alist_db sample_node sample_cvt (sample_observer None) sample_chain sample_now
        sample_signer ''key'' fetched_system s'" "captured s' = [event_item 4]" "channel s' = []"
     "\<forall>item \<in> set (captured s'). stored sample_btcd alist_db (sys_vdb s') (unsigned_hash sample_btcd item) \<noteq> None"
    unfolding items todo by auto
  then show ?thesis
    using system_run_trans [OF sample_fetch] sample_unsigned_hash [of 4] by (intro exI [of _ s']) auto
qed

end
