(* ===== verification/Pipeline_Refinement.thy ===== *)
theory Pipeline_Refinement
  imports Pipeline_Properties
begin

text \<open>
  The loops of \<open>Listen\<close> and \<open>Signing\<close>, as the functions of \<open>Vendor_Observer\<close> and
  \<open>Vendor_Signer\<close> have them, are schedules of the interleaved steps of \<open>Pipeline\<close>.
\<close>

section \<open>The observer\<close>

lemma observer_first:
  "observer_step B L N cvt ob s t \<Longrightarrow> system_run B L N cvt ob multi_sign now sg key t u
     \<Longrightarrow> system_run B L N cvt ob multi_sign now sg key s u"
  by (rule system_run_trans [OF run_observer [OF run_start]])

lemma signer_first:
  "signer_step B L multi_sign now sg key s t \<Longrightarrow> system_run B L N cvt ob multi_sign now sg key t u
     \<Longrightarrow> system_run B L N cvt ob multi_sign now sg key s u"
  by (rule system_run_trans [OF run_signer [OF run_start]])

text \<open>A channel only grows while the observer looks at notifications.\<close>

lemma check_notifies_grow:
  assumes "check_notifies B L N cvt ob ns st = Some (Ret (k, st'))" and "txchan st = Some a"
  shows "\<exists>b. txchan st' = Some (a @ b)"
  using assms
proof (induction ns arbitrary: st a k)
  case (Cons n ns)
  then show ?case
    by (fastforce simp: do_action_def split: go.splits option.splits event_action.splits)
qed simp

text \<open>What the observer has done so far, in the two models.\<close>

definition shown :: "('d, 'w) ob_state \<Rightarrow> ('d, 'w) system \<Rightarrow> bool" where
  "shown st s \<longleftrightarrow> txchan st = Some (captured s) \<and> ob_vdb st = sys_vdb s \<and> world st = sys_world s"

text \<open>The state after \<open>new\<close> was sent and \<open>k\<close> items were counted.\<close>

definition sent_on :: "to_sign_item list \<Rightarrow> nat \<Rightarrow> ('d, 'w) ob_state \<Rightarrow> ('d, 'w) system \<Rightarrow> ('d, 'w) system" where
  "sent_on new k st s = s\<lparr>todo := [], channel := channel s @ new, captured := captured s @ new,
     to_sign := k, sys_vdb := ob_vdb st, sys_world := world st\<rparr>"

lemma notifies_are_steps:
  assumes "check_notifies B L N cvt ob ns st = Some (Ret (k, st'))" and "shown st s" and "todo s = ns"
    and "txchan st' = Some (captured s @ new)" and "length (channel s @ new) \<le> CHANNEL_SIZE"
  shows "system_run B L N cvt ob multi_sign now sg key s (sent_on new (to_sign s + k) st' s)"
  using assms
proof (induction ns arbitrary: st s k new)
  case Nil
  then have "sent_on new (to_sign s + k) st' s = s" by (simp add: sent_on_def shown_def)
  then show ?case by (simp add: run_start)
next
  case (Cons n ns)
  from Cons.prems(1) obtain act c u k' where act: "notify_action B cvt (hashKey ob) (States n) = Ret act"
    and does: "do_action B L N ob act st = Some (Ret (c, u))"
    and rest: "check_notifies B L N cvt ob ns u = Some (Ret (k', st'))" and k: "k = c + k'"
    by (auto split: go.splits option.splits)
  note todo = Cons.prems(3) and shown = Cons.prems(2) [unfolded shown_def]
  show ?case
  proof (cases act)
    case Skip
    with act have step: "observer_step B L N cvt ob s (s\<lparr>todo := ns\<rparr>)" by (auto intro: skip todo)
    from Skip does have "u = st" "c = 0" by (simp_all add: do_action_def)
    then have "system_run B L N cvt ob multi_sign now sg key (s\<lparr>todo := ns\<rparr>)
        (sent_on new (to_sign (s\<lparr>todo := ns\<rparr>) + k') st' (s\<lparr>todo := ns\<rparr>))"
      by (intro Cons.IH [OF rest]) (use Cons.prems in \<open>simp_all add: shown_def\<close>)
    from observer_first [OF step this] k \<open>c = 0\<close> show ?thesis by (simp add: sent_on_def)
  next
    case (MarkDone txid)
    let ?s = "s\<lparr>todo := ns, sys_vdb := snd (set_tx_done B L (sys_vdb s) txid)\<rparr>"
    from MarkDone act have step: "observer_step B L N cvt ob s ?s" by (auto intro: mark todo)
    from MarkDone does shown have u: "u = st\<lparr>ob_vdb := snd (set_tx_done B L (sys_vdb s) txid)\<rparr>" "c = 0"
      by (simp_all add: do_action_def)
    have "system_run B L N cvt ob multi_sign now sg key ?s (sent_on new (to_sign ?s + k') st' ?s)"
      by (intro Cons.IH [OF rest]) (use Cons.prems u in \<open>simp_all add: shown_def\<close>)
    from observer_first [OF step this] k u show ?thesis by (simp add: sent_on_def)
  next
    case (Capture item)
    from Capture does shown have u: "u = st\<lparr>txchan := Some (captured s @ [item])\<rparr>" "c = 1"
      by (simp_all add: do_action_def)
    from check_notifies_grow [OF rest, of "captured s @ [item]"] u Cons.prems(4) obtain b
      where new: "new = item # b" by auto
    let ?s = "s\<lparr>todo := ns, channel := channel s @ [item], captured := captured s @ [item], to_sign := to_sign s + 1\<rparr>"
    have step: "observer_step B L N cvt ob s ?s"
      by (rule send [OF todo]) (use Capture act Cons.prems(5) new in simp_all)
    have "system_run B L N cvt ob multi_sign now sg key ?s (sent_on b (to_sign ?s + k') st' ?s)"
      by (intro Cons.IH [OF rest]) (use Cons.prems u new in \<open>simp_all add: shown_def\<close>)
    from observer_first [OF step this] k u new show ?thesis by (simp add: sent_on_def)
  qed
qed

lemma scan_is_steps:
  assumes "scan_blocks B L N cvt ob h newTop k st = Some (Ret (n, st'))" and "shown st s"
    and "scan s = Some (h, newTop)" and "todo s = []" and "to_sign s = k"
  shows "\<exists>new. txchan st' = Some (captured s @ new) \<and> (length (channel s @ new) \<le> CHANNEL_SIZE \<longrightarrow>
     (\<exists>h'. \<not> h' \<le> newTop
       \<and> system_run B L N cvt ob multi_sign now sg key s ((sent_on new n st' s)\<lparr>scan := Some (h', newTop)\<rparr>)))"
  using assms
proof (induction arbitrary: s rule: scan_blocks_induct)
  case (finished h k st)
  then have "(sent_on [] k st s)\<lparr>scan := Some (h, newTop)\<rparr> = s" by (simp add: sent_on_def shown_def)
  with finished(1) have "\<exists>h'. \<not> h' \<le> newTop
      \<and> system_run B L N cvt ob multi_sign now sg key s ((sent_on [] k st s)\<lparr>scan := Some (h', newTop)\<rparr>)"
    by (intro exI [of _ h]) (simp add: run_start)
  with finished(2) show ?case by (intro exI [of _ "[]"]) (simp add: shown_def)
next
  case (block h k st events w c u n st' s)
  let ?ns = "concat (map Notify events)"
  let ?f = "s\<lparr>sys_world := w, scan := Some (h + 1, newTop), todo := ?ns\<rparr>"
  note check = block(3) [unfolded check_events_def]
  from block(2,5) have "retry_events (events_by_block N h) (sys_world s) = Some (Inr events, w)"
    by (simp add: shown_def)
  from fetch_steps [OF this block(6,1,7)] have fetched: "system_run B L N cvt ob multi_sign now sg key s ?f" .
  from check_notifies_grow [OF check, of "captured s"] block(5) obtain b
    where b: "txchan u = Some (captured s @ b)" by (auto simp: shown_def)
  let ?u = "sent_on b (k + c) u ?f"
  have "\<exists>new. txchan st' = Some (captured ?u @ new) \<and> (length (channel ?u @ new) \<le> CHANNEL_SIZE \<longrightarrow>
     (\<exists>h'. \<not> h' \<le> newTop
       \<and> system_run B L N cvt ob multi_sign now sg key ?u ((sent_on new n st' ?u)\<lparr>scan := Some (h', newTop)\<rparr>)))"
    by (rule block(4)) (simp_all add: sent_on_def shown_def b)
  then obtain new where new: "txchan st' = Some (captured s @ b @ new)"
    and rest: "length (channel s @ b @ new) \<le> CHANNEL_SIZE \<Longrightarrow> \<exists>h'. \<not> h' \<le> newTop
       \<and> system_run B L N cvt ob multi_sign now sg key ?u ((sent_on (b @ new) n st' s)\<lparr>scan := Some (h', newTop)\<rparr>)"
    by (auto simp: sent_on_def)
  have looked: "system_run B L N cvt ob multi_sign now sg key ?f ?u" if "length (channel s @ b @ new) \<le> CHANNEL_SIZE"
  proof -
    have "system_run B L N cvt ob multi_sign now sg key ?f (sent_on b (to_sign ?f + c) u ?f)"
      by (rule notifies_are_steps [OF check]) (use block(5) b that in \<open>simp_all add: shown_def\<close>)
    with block(8) show ?thesis by simp
  qed
  show ?case
  proof (intro exI [of _ "b @ new"] conjI impI)
    assume room: "length (channel s @ b @ new) \<le> CHANNEL_SIZE"
    from rest [OF room] obtain h' where "\<not> h' \<le> newTop" and run: "system_run B L N cvt ob multi_sign now sg key ?u
        ((sent_on (b @ new) n st' s)\<lparr>scan := Some (h', newTop)\<rparr>)" by blast
    moreover from system_run_trans [OF fetched system_run_trans [OF looked [OF room] run]]
    have "system_run B L N cvt ob multi_sign now sg key s ((sent_on (b @ new) n st' s)\<lparr>scan := Some (h', newTop)\<rparr>)" .
    ultimately show "\<exists>h'. \<not> h' \<le> newTop \<and> system_run B L N cvt ob multi_sign now sg key s
        ((sent_on (b @ new) n st' s)\<lparr>scan := Some (h', newTop)\<rparr>)" by blast
  qed (use new in simp)
qed

text \<open>Between two ticks.\<close>

definition matches :: "('d, 'w) listening \<Rightarrow> ('d, 'w) system \<Rightarrow> bool" where
  "matches l s \<longleftrightarrow> scan s = None \<and> todo s = [] \<and> obs_top s = top l \<and> recorded s = lastRecorded l
     \<and> shown (ob_part l) s"

text \<open>The end of a tick, in the two models.\<close>

definition tick_end :: "'w node \<Rightarrow> observer \<Rightarrow> u32 \<Rightarrow> ('d, 'w) system \<Rightarrow> ('d, 'w) system" where
  "tick_end N ob newTop s =
     (let e = s\<lparr>scan := None, obs_top := newTop\<rparr>
      in if to_sign s > 0 \<or> newTop - recorded s \<ge> waitingCircle ob
         then e\<lparr>recorded := newTop, sys_world := snd (set_last_height N ob newTop (sys_world s))\<rparr> else e)"

lemma tick_end_step:
  assumes "scan s = Some (h, newTop)" and "\<not> h \<le> newTop" and "todo s = []"
  shows "observer_step B L N cvt ob s (tick_end N ob newTop s)"
  unfolding tick_end_def Let_def using assms finish [OF assms] finish_record [OF assms] by simp

lemma listen_tick_scanned:
  assumes "listen_tick B L N cvt ob l = Some (Ret l')"
    and "current_height N (world l) = (Inr newTop, w)" and "\<not> newTop - top l \<le> 0"
  obtains n st' where "scan_blocks B L N cvt ob (top l + 1) newTop 0 (ob_part (l\<lparr>world := w\<rparr>)) = Some (Ret (n, st'))"
    and "txchan l' = txchan st'"
    and "\<And>s. to_sign s = n \<Longrightarrow> todo s = [] \<Longrightarrow> recorded s = lastRecorded l \<Longrightarrow> shown st' s \<Longrightarrow>
      matches l' (tick_end N ob newTop s)"
proof -
  from assms obtain n st' where
    scanned: "scan_blocks B L N cvt ob (top l + 1) newTop 0 (ob_part (l\<lparr>world := w\<rparr>)) = Some (Ret (n, st'))"
    and l': "l' = (let s = (with_ob_part (l\<lparr>world := w\<rparr>) st')\<lparr>top := newTop\<rparr> in
        if n > 0 \<or> top s - lastRecorded s \<ge> waitingCircle ob
        then s\<lparr>world := snd (set_last_height N ob (top s) (world s)), lastRecorded := top s\<rparr> else s)"
    by (auto simp: listen_tick_def Let_def split: option.splits go.splits if_splits)
  show thesis
    by (rule that [OF scanned])
      (auto simp: l' Let_def with_ob_part_def matches_def tick_end_def shown_def ob_part_def)
qed

text \<open>A tick in which the node answers the height that the observer has, or an error.\<close>

lemma quiet_tick:
  assumes "current_height N (world l) = (r, w)" and "\<And>newTop. r = Inr newTop \<Longrightarrow> newTop - top l \<le> 0"
    and "matches l s"
  shows "listen_tick B L N cvt ob l = Some (Ret (l\<lparr>world := w\<rparr>))"
    and "observer_step B L N cvt ob s (s\<lparr>sys_world := w\<rparr>)" and "matches (l\<lparr>world := w\<rparr>) (s\<lparr>sys_world := w\<rparr>)"
proof -
  note m = assms(3) [unfolded matches_def shown_def ob_part_def, simplified]
  show "listen_tick B L N cvt ob l = Some (Ret (l\<lparr>world := w\<rparr>))"
    using assms(1,2) by (cases r) (simp_all add: listen_tick_def)
  show "observer_step B L N cvt ob s (s\<lparr>sys_world := w\<rparr>)"
  proof (cases r)
    case (Inl err)
    with assms(1) m show ?thesis by (intro poll_error) simp_all
  next
    case (Inr newTop)
    with assms m show ?thesis by (intro poll_same) simp_all
  qed
  show "matches (l\<lparr>world := w\<rparr>) (s\<lparr>sys_world := w\<rparr>)" using m by (simp add: matches_def shown_def ob_part_def)
qed

lemma tick_is_steps:
  assumes "listen_tick B L N cvt ob l = Some (Ret l')" and "matches l s"
    and "txchan l' = Some (captured s @ new)" and "length (channel s @ new) \<le> CHANNEL_SIZE"
  shows "\<exists>s'. system_run B L N cvt ob multi_sign now sg key s s' \<and> matches l' s'
     \<and> channel s' = channel s @ new \<and> job s' = job s \<and> settled s' = settled s"
proof -
  note m = assms(2) [unfolded matches_def shown_def ob_part_def, simplified]
  obtain r w where polled: "current_height N (world l) = (r, w)" by force
  show ?thesis
  proof (cases "\<exists>newTop. r = Inr newTop \<and> \<not> newTop - top l \<le> 0")
    case False
    then have quiet: "\<And>newTop. r = Inr newTop \<Longrightarrow> newTop - top l \<le> 0" by blast
    note q = quiet_tick [OF polled quiet assms(2)]
    from q(1) [of B L cvt ob] assms(1) have l': "l' = l\<lparr>world := w\<rparr>" by simp
    with m assms(3) have "new = []" by simp
    with l' run_observer [OF run_start q(2)] q(3) show ?thesis
      by (intro exI [of _ "s\<lparr>sys_world := w\<rparr>"]) simp
  next
    case True
    with polled obtain newTop where top: "current_height N (world l) = (Inr newTop, w)" "\<not> newTop - top l \<le> 0" by blast
    obtain n st' where
      scanned: "scan_blocks B L N cvt ob (top l + 1) newTop 0 (ob_part (l\<lparr>world := w\<rparr>)) = Some (Ret (n, st'))"
      and chan: "txchan l' = txchan st'"
      and over: "\<And>s. to_sign s = n \<Longrightarrow> todo s = [] \<Longrightarrow> recorded s = lastRecorded l \<Longrightarrow> shown st' s \<Longrightarrow>
        matches l' (tick_end N ob newTop s)"
      using listen_tick_scanned [OF assms(1) top] by metis
    let ?p = "s\<lparr>sys_world := w, scan := Some (obs_top s + 1, newTop), to_sign := 0\<rparr>"
    have poll: "observer_step B L N cvt ob s ?p" by (rule poll_new) (use top m in simp_all)
    from scan_is_steps [OF scanned, of ?p multi_sign now sg key] m assms(3,4) chan
    obtain h where h: "\<not> h \<le> newTop"
      and run: "system_run B L N cvt ob multi_sign now sg key ?p ((sent_on new n st' ?p)\<lparr>scan := Some (h, newTop)\<rparr>)"
      by (auto simp: shown_def ob_part_def)
    let ?d = "(sent_on new n st' ?p)\<lparr>scan := Some (h, newTop)\<rparr>"
    have "observer_step B L N cvt ob ?d (tick_end N ob newTop ?d)"
      by (rule tick_end_step [OF _ h]) (simp_all add: sent_on_def)
    with observer_first [OF poll run] have "system_run B L N cvt ob multi_sign now sg key s (tick_end N ob newTop ?d)"
      by (rule run_observer)
    moreover have "matches l' (tick_end N ob newTop ?d)"
      by (rule over) (use m chan assms(3) in \<open>simp_all add: sent_on_def shown_def\<close>)
    ultimately show ?thesis
      by (intro exI [of _ "tick_end N ob newTop ?d"]) (simp add: tick_end_def sent_on_def Let_def)
  qed
qed

section \<open>The signer\<close>

lemma round_is_steps:
  assumes "signing_round B L multi_sign now sg key item (sys_vdb s) (sys_world s) = Some (Ret v, w)"
    and "job s = Taken item"
  shows "system_run B L N cvt ob multi_sign now sg key s
     (s\<lparr>job := Idle, settled := settled s @ [item], sys_vdb := v, sys_world := w\<rparr>)"
proof (cases "fst (get_sigs B sg item)")
  case (Ret res)
  note eq = get_sigs_eq [OF Ret]
  show ?thesis
  proof (cases res)
    case (Inl err)
    with eq have sigs: "get_sigs B sg item = (Ret (Inl err), stripped_item item)" by simp
    with assms(1) have "v = sys_vdb s" "w = sys_world s" by (simp_all add: signing_round_def sign_and_submit_def)
    with run_signer [OF run_start not_signed [OF assms(2) sigs]] show ?thesis by simp
  next
    case (Inr sigs)
    let ?p = "s\<lparr>job := Posting item (stripped_item item) sigs\<rparr>"
    from Inr eq signed [OF assms(2)] have sign: "signer_step B L multi_sign now sg key s ?p" by simp
    from Inr Ret have sigs: "fst (get_sigs B sg item) = Ret (Inr sigs)" by simp
    then have "\<exists>p. submit multi_sign sg key (tx_hash B (Mtx item)) sigs (sys_world s) = Some p"
      using assms(1) signing_round_returns [of B L multi_sign now sg key item "sys_vdb s" "sys_world s"] by blast
    then obtain r u where sub: "submit multi_sign sg key (tx_hash B (Mtx item)) sigs (sys_world s) = Some (r, u)" by auto
    with signing_round_submitted [OF sigs sub, of L now "sys_vdb s"] assms(1) have u: "u = w" by simp
    note post = post_steps [of multi_sign sg key B item sigs ?p r w "stripped_item item" L N cvt ob now]
    show ?thesis
    proof (cases r)
      case (Answer txid)
      let ?a = "?p\<lparr>job := Accepted item (stripped_item item), sys_world := w\<rparr>"
      from post Answer sub u have "system_run B L N cvt ob multi_sign now sg key ?p ?a" by simp
      moreover have "s\<lparr>job := Idle, settled := settled s @ [item], sys_vdb := v, sys_world := w\<rparr>
          = ?a\<lparr>job := Idle, settled := settled ?a @ [item], sys_vdb := v\<rparr>" by (cases s) simp
      moreover have v: "v = snd (put_signed_tx B L (sys_vdb ?a) (tx_hash B (strip_scripts (Mtx (stripped_item item))))
             \<lparr>Item = stripped_item item, TimeReceived = now (sys_world ?a), Done = False\<rparr>)"
        using signing_round_submitted [OF sigs sub, of L now "sys_vdb s"] assms(1) u Answer
        by (simp add: unsigned_hash_def new_saved_def)
      have "signer_step B L multi_sign now sg key ?a (?a\<lparr>job := Idle, settled := settled ?a @ [item], sys_vdb := v\<rparr>)"
        unfolding v by (rule store_item) simp
      ultimately show ?thesis using signer_first [OF sign run_signer] by metis
    qed (use post sub u signing_round_submitted [OF sigs sub, of L now "sys_vdb s"] assms(1) signer_first [OF sign] in simp_all)
  qed
next
  case (Panic p)
  with assms(1) get_sigs_eq [OF Panic] show ?thesis by (simp add: signing_round_def sign_and_submit_def)
qed

lemma items_are_steps:
  assumes "signing_items B L multi_sign now sg key (channel s) (sys_vdb s) (sys_world s) = Some (Ret v', w')"
    and "job s = Idle"
  shows "system_run B L N cvt ob multi_sign now sg key s
     (s\<lparr>channel := [], settled := settled s @ channel s, sys_vdb := v', sys_world := w'\<rparr>)"
  using assms
proof (induction "channel s" arbitrary: s)
  case Nil
  note chan = Nil.hyps [symmetric]
  from Nil.prems(1) chan have "s\<lparr>channel := [], settled := settled s @ channel s, sys_vdb := v', sys_world := w'\<rparr> = s"
    by simp
  then show ?case using run_start by metis
next
  case (Cons item rest)
  note chan = Cons.hyps(2) [symmetric]
  let ?run = "system_run B L N cvt ob multi_sign now sg key"
  from Cons.prems(1) chan obtain v w where
    round: "signing_round B L multi_sign now sg key item (sys_vdb s) (sys_world s) = Some (Ret v, w)"
    and items: "signing_items B L multi_sign now sg key rest v w = Some (Ret v', w')"
    by (auto split: option.splits go.splits)
  let ?t = "s\<lparr>job := Taken item, channel := rest\<rparr>"
  let ?u = "s\<lparr>channel := rest, settled := settled s @ [item], sys_vdb := v, sys_world := w\<rparr>"
  have take: "signer_step B L multi_sign now sg key s ?t" using Cons.prems(2) chan by (rule take_item)
  have "?run ?t ?u" using round_is_steps [of B L multi_sign now sg key item ?t v w N cvt ob] round Cons.prems(2) by (cases s) simp
  moreover have "?run ?u (?u\<lparr>channel := [], settled := settled ?u @ channel ?u, sys_vdb := v', sys_world := w'\<rparr>)"
    by (rule Cons.hyps(1)) (use items Cons.prems(2) in simp_all)
  ultimately show ?case using signer_first [OF take system_run_trans] chan by simp
qed

section \<open>A schedule\<close>

text \<open>
  C11: A tick of \<open>Listen\<close> that returns, followed by \<open>Signing\<close> on all it sent, as the functions that
  model the two loops compute them, is a run of the interleaved system, if the channel has room for
  what is sent: the steps lose no branch of the loops. In the state they reach the two models agree again.
\<close>

theorem tick_then_signing_is_run:
  assumes "listen_tick B L N cvt ob l = Some (Ret l')" and "matches l s"
    and "txchan l' = Some (captured s @ new)" and "channel s = []" and "job s = Idle" and "length new \<le> 100"
    and "signing_items B L multi_sign now sg key new (ob_vdb l') (world l') = Some (Ret v', w')"
  shows "\<exists>s'. system_run B L N cvt ob multi_sign now sg key s s' \<and> matches (l'\<lparr>ob_vdb := v', world := w'\<rparr>) s'
     \<and> settled s' = settled s @ new \<and> channel s' = [] \<and> job s' = Idle"
proof -
  from tick_is_steps [OF assms(1-3), of multi_sign now sg key] assms(4,6) obtain t where
    run: "system_run B L N cvt ob multi_sign now sg key s t" and t: "matches l' t" "channel t = new"
      "job t = job s" "settled t = settled s"
    by (auto simp: CHANNEL_SIZE_def)
  let ?s = "t\<lparr>channel := [], settled := settled t @ channel t, sys_vdb := v', sys_world := w'\<rparr>"
  have "system_run B L N cvt ob multi_sign now sg key t ?s"
    by (rule items_are_steps)
      (use t assms(5,7) in \<open>simp_all add: matches_def shown_def ob_part_def\<close>)
  with run have "system_run B L N cvt ob multi_sign now sg key s ?s" by (rule system_run_trans)
  with t assms(3,5) show ?thesis
    by (intro exI [of _ ?s]) (simp add: matches_def shown_def ob_part_def)
qed

definition sample_listening :: "((bytes \<times> bytes) list, nat) listening" where
  "sample_listening = \<lparr>txchan = Some [], ob_vdb = empty_vdb, world = 0, top = 4, lastRecorded = 4\<rparr>"

lemma sample_tick:
  "\<exists>l'. listen_tick sample_btcd alist_db sample_node sample_cvt (sample_observer None) sample_listening = Some (Ret l')
     \<and> txchan l' = Some [event_item 4] \<and> ob_vdb l' = empty_vdb"
proof -
  have "fst (current_height sample_node 0) = Inr 5" by (simp add: sample_node_def)
  moreover have "\<forall>h. \<exists>acts. block_actions sample_btcd sample_cvt (hashKey (sample_observer None)) sample_evs h = Ret acts"
    by (simp add: sample_block_actions)
  ultimately show ?thesis
    using tick_delivers [OF sample_node_ok, where L = alist_db and B = sample_btcd and cvt = sample_cvt
        and ob = "sample_observer None" and sent = "[]" and s = sample_listening]
    by (auto simp: sample_listening_def heights_5 actions_of_def sample_block_actions delivered_upto_def Let_def)
qed

theorem tick_then_signing_is_run_witness:
  "\<exists>s'. system_run sample_btcd alist_db sample_node sample_cvt (sample_observer None) sample_chain sample_now
        sample_signer ''key'' (start_system 4 empty_vdb 0) s'
     \<and> settled s' = [event_item 4]"
proof -
  obtain l' where tick: "listen_tick sample_btcd alist_db sample_node sample_cvt (sample_observer None) sample_listening
      = Some (Ret l')" and l': "txchan l' = Some [event_item 4]" "ob_vdb l' = empty_vdb" using sample_tick by blast
  obtain v' w' where items: "signing_items sample_btcd alist_db sample_chain sample_now sample_signer ''key'' [event_item 4]
      (ob_vdb l') (world l') = Some (Ret v', w')"
    using signing_items_stored [OF empty_vdb_sound sample_chain_accepts, of "[event_item 4]" sample_btcd sample_now
        sample_signer "''key''" "world l'"] l'
    by (auto simp: sample_signable)
  have "matches sample_listening (start_system 4 empty_vdb 0)"
    by (simp add: matches_def shown_def ob_part_def sample_listening_def start_system_def)
  from tick_then_signing_is_run [OF tick this _ _ _ _ items] l' show ?thesis
    by (auto simp: start_system_def sample_listening_def)
qed

end
