(* ===== verification/Crash_Properties.thy ===== *)
theory Crash_Properties
  imports Pipeline_Refinement Observer_Properties
begin

text \<open>
  What a crash can lose in mode \<open>all\<close>: the observer writes its checkpoint when the items are in the
  channel, not when they are stored.
\<close>

section \<open>What a tick leaves\<close>

text \<open>The transactions that are counted are those that were sent.\<close>

lemma notifies_count:
  assumes "check_notifies B L N cvt ob ns st = Some (Ret (k, st'))" and "txchan st = Some a"
  shows "\<exists>b. txchan st' = Some (a @ b) \<and> length b = k"
  using assms
proof (induction ns arbitrary: st a k)
  case (Cons n ns)
  from Cons.prems(1) obtain act c u k' where does: "do_action B L N ob act st = Some (Ret (c, u))"
    and rest: "check_notifies B L N cvt ob ns u = Some (Ret (k', st'))" and k: "k = c + k'"
    by (auto split: go.splits option.splits)
  from does Cons.prems(2) obtain b1 where b1: "txchan u = Some (a @ b1)" "length b1 = c"
    by (cases act) (auto simp: do_action_def)
  from Cons.IH [OF rest b1(1)] b1(2) k show ?case by auto
qed simp

lemma scan_count:
  assumes "scan_blocks B L N cvt ob h newTop k st = Some (Ret (n, st'))" and "txchan st = Some a"
  shows "\<exists>b. txchan st' = Some (a @ b) \<and> n = k + length b"
  using assms
proof (induction arbitrary: a rule: scan_blocks_induct)
  case (block h k st events w c u n st')
  from notifies_count [OF block(3) [unfolded check_events_def], of a] block(5)
  obtain b where b: "txchan u = Some (a @ b)" "length b = c" by auto
  from block(4) [OF b(1)] b(2) show ?case by auto
qed simp

text \<open>Looking at notifications stores no new item.\<close>

definition same_keys :: "btcd \<Rightarrow> 'd leveldb \<Rightarrow> 'd vendor_db \<Rightarrow> 'd vendor_db \<Rightarrow> bool" where
  "same_keys B L v v' \<longleftrightarrow> vdb_sound B L v' \<and> dom (stored B L v') = dom (stored B L v)"

lemma same_keys_done: "vdb_sound B L v \<Longrightarrow> same_keys B L v (snd (set_tx_done B L v txid))"
  using vdb.done_law [of B L v txid, OF _ prod.collapse [symmetric]]
  by (auto simp: same_keys_def split: option.splits if_splits)

lemma notifies_keys:
  assumes "check_notifies B L N cvt ob ns st = Some (Ret (k, st'))" and "vdb_sound B L (ob_vdb st)"
  shows "same_keys B L (ob_vdb st) (ob_vdb st')"
  using assms
proof (induction ns arbitrary: st k)
  case (Cons n ns)
  from Cons.prems(1) obtain act c u k' where does: "do_action B L N ob act st = Some (Ret (c, u))"
    and rest: "check_notifies B L N cvt ob ns u = Some (Ret (k', st'))"
    by (auto split: go.splits option.splits)
  have "same_keys B L (ob_vdb st) (ob_vdb u)"
  proof (cases act)
    case (MarkDone txid)
    with does have "ob_vdb u = snd (set_tx_done B L (ob_vdb st) txid)" by (auto simp: do_action_def)
    then show ?thesis by (simp add: same_keys_done [OF Cons.prems(2)])
  qed (use does Cons.prems(2) in \<open>auto simp: do_action_def same_keys_def split: option.splits\<close>)
  with Cons.IH [OF rest] show ?case by (simp add: same_keys_def)
qed (simp add: same_keys_def)

lemma scan_keys:
  assumes "scan_blocks B L N cvt ob h newTop k st = Some (Ret (n, st'))" and "vdb_sound B L (ob_vdb st)"
  shows "same_keys B L (ob_vdb st) (ob_vdb st')"
  using assms
proof (induction rule: scan_blocks_induct)
  case (block h k st events w c u n st')
  from notifies_keys [OF block(3) [unfolded check_events_def]] block(4,5) show ?case
    by (simp add: same_keys_def)
qed (simp add: same_keys_def)

lemma tick_records:
  assumes "listen_tick B L N cvt ob l = Some (Ret l')" and "txchan l = Some a" and "txchan l' = Some (a @ new)"
    and "new \<noteq> []" and "vdb_sound B L (ob_vdb l)"
  shows "same_keys B L (ob_vdb l) (ob_vdb l') \<and> (\<exists>w. world l' = snd (set_last_height N ob (top l') w))"
proof -
  from assms(1-4) obtain newTop w n st' where
    scanned: "scan_blocks B L N cvt ob (top l + 1) newTop 0 (ob_part (l\<lparr>world := w\<rparr>)) = Some (Ret (n, st'))"
    and l': "l' = (let s = (with_ob_part (l\<lparr>world := w\<rparr>) st')\<lparr>top := newTop\<rparr> in
        if n > 0 \<or> top s - lastRecorded s \<ge> waitingCircle ob
        then s\<lparr>world := snd (set_last_height N ob (top s) (world s)), lastRecorded := top s\<rparr> else s)"
    by (auto simp: listen_tick_def Let_def split: option.splits go.splits if_splits prod.splits sum.splits)
  have "n > 0" using scan_count [OF scanned, of a] l' assms(2-4)
    by (auto simp: ob_part_def with_ob_part_def Let_def split: if_splits)
  with l' scan_keys [OF scanned] assms(5) show ?thesis
    by (auto simp: ob_part_def with_ob_part_def Let_def)
qed

section \<open>The restart\<close>

text \<open>
  Started in the world \<open>w\<close>, whatever is in the database, the observer begins after block \<open>t\<close>: after
  any number of ticks it has sent the transactions to sign of the blocks from \<open>t + 1\<close> on, and no others.
\<close>

definition resumes_after ::
  "btcd \<Rightarrow> 'd leveldb \<Rightarrow> 'w node \<Rightarrow> (rat \<Rightarrow> u64) \<Rightarrow> observer \<Rightarrow> (u32 \<Rightarrow> contract_event list) \<Rightarrow> u32 \<Rightarrow> 'w \<Rightarrow> bool" where
  "resumes_after B L N cvt ob evs t w \<longleftrightarrow>
     (\<forall>v n. \<exists>l'. listen_ticks B L N cvt ob n (listen_start N ob \<lparr>txchan = Some [], ob_vdb = v, world = w\<rparr>) = Some (Ret l')
        \<and> txchan l' = Some (captures (actions_of B cvt (hashKey ob) evs (heights (Suc (unat t)) (Suc (unat (top l')))))))"

lemma listen_start_simps [simp]:
  "top (listen_start N ob st) = (if startHeight ob = 0 then get_last_height N ob (world st) else startHeight ob)"
  "txchan (listen_start N ob st) = txchan st" "world (listen_start N ob st) = world st"
  by (simp_all add: listen_start_def Let_def ob_state.defs listening.defs)

lemma resumes:
  fixes L :: "'d leveldb"
  assumes "node_ok N evs f" and "\<forall>h. \<exists>acts. block_actions B cvt (hashKey ob) evs h = Ret acts"
    and "t = (if startHeight ob = 0 then get_last_height N ob w else startHeight ob)" and "t \<le> f w"
  shows "resumes_after B L N cvt ob evs t w"
  unfolding resumes_after_def
proof (intro allI)
  fix v :: "'d vendor_db" and n
  let ?l = "listen_start N ob \<lparr>txchan = Some [], ob_vdb = v, world = w\<rparr>"
  have l: "txchan ?l = Some []" "top ?l = t" using assms(3) by simp_all
  from ticks_deliver [OF assms(1) l(1) _ assms(2), of L n] assms(4) l(2) obtain l' where
    "listen_ticks B L N cvt ob n ?l = Some (Ret l')" "delivered_upto B L cvt ob evs ?l l'" by auto
  with l show "\<exists>l'. listen_ticks B L N cvt ob n ?l = Some (Ret l')
      \<and> txchan l' = Some (captures (actions_of B cvt (hashKey ob) evs (heights (Suc (unat t)) (Suc (unat (top l'))))))"
    by (auto simp: delivered_upto_def Let_def)
qed

section \<open>The checkpoint comes before the store\<close>

text \<open>
  C12: After a tick that captured something, on a node that follows the chain, the two goroutines can be
  in a state in which the captured items, which are those of the blocks the tick went over, are in the
  channel, the database holds no more keys than before, and the checkpoint on disk is the new height.
  When the process ends there and is started again, with no start height configured the observer resumes
  after these blocks: it sends what later blocks hold and never the captured items again. With a start
  height configured it resumes after that height instead, and sends the blocks from there on once more.
\<close>

theorem checkpoint_before_store:
  assumes "listen_tick B L N cvt ob l = Some (Ret l')" and "matches l s"
    and "txchan l' = Some (captured s @ new)" and "new \<noteq> []" and "length (channel s @ new) \<le> 100"
    and "vdb_sound B L (ob_vdb l)" and "files_ok N" and "\<forall>h w. fst (set_last_height N ob h w) = None"
    and "node_ok N evs f" and "top l \<le> f (world l)" and "startHeight ob \<le> top l"
    and "\<forall>h. \<exists>acts. block_actions B cvt (hashKey ob) evs h = Ret acts"
  shows "\<exists>s'. system_run B L N cvt ob multi_sign now sg key s s' \<and> channel s' = channel s @ new
     \<and> new = captures (actions_of B cvt (hashKey ob) evs (heights (Suc (unat (top l))) (Suc (unat (top l')))))
     \<and> settled s' = settled s \<and> dom (stored B L (sys_vdb s')) = dom (stored B L (sys_vdb s))
     \<and> get_last_height N ob (sys_world s') = top l'
     \<and> resumes_after B L N cvt ob evs (if startHeight ob = 0 then top l' else startHeight ob) (sys_world s')"
proof -
  from tick_is_steps [OF assms(1-3), of multi_sign now sg key] assms(5) obtain s' where
    run: "system_run B L N cvt ob multi_sign now sg key s s'" and s': "matches l' s'" "channel s' = channel s @ new"
      "settled s' = settled s"
    by (auto simp: CHANNEL_SIZE_def)
  from assms(2) have chan: "txchan l = Some (captured s)" by (simp add: matches_def shown_def ob_part_def)
  from tick_records [OF assms(1) this assms(3,4,6)] obtain w where
    keys: "same_keys B L (ob_vdb l) (ob_vdb l')" and "world l' = snd (set_last_height N ob (top l') w)" by blast
  with assms(8) have "set_last_height N ob (top l') w = (None, world l')" by (simp add: prod_eq_iff)
  with assms(7) have height: "get_last_height N ob (world l') = top l'" by (rule checkpoint_read)
  from tick_delivers [OF assms(9) chan assms(10,12), of L] assms(1) have
    sent: "delivered_upto B L cvt ob evs l l'" "top l' \<le> f (world l')" by auto
  then have up: "top l \<le> top l'" by (simp add: delivered_upto_def Let_def)
  have "(if startHeight ob = 0 then top l' else startHeight ob) \<le> f (world l')"
    using order_trans [OF order_trans [OF assms(11) up] sent(2)] sent(2) by simp
  then have "resumes_after B L N cvt ob evs (if startHeight ob = 0 then top l' else startHeight ob) (world l')"
    by (intro resumes [OF assms(9,12)]) (simp_all add: height)
  with run s' keys assms(2,3) chan sent(1) height show ?thesis
    by (intro exI [of _ s']) (simp add: matches_def shown_def ob_part_def same_keys_def delivered_upto_def Let_def)
qed

text \<open>A node at height 5, with a disk for the checkpoint.\<close>

definition recording_node :: "bytes node" where
  "recording_node =
     \<lparr>http_post = \<lambda>url data w. (Inl (Ext ''offline''), w), current_height = \<lambda>w. (Inr 5, w),
      events_by_block = \<lambda>h w. (Inr (sample_evs h), w),
      read_file = \<lambda>d n w. Inr w, write_file = \<lambda>d n b w. (None, b)\<rparr>"

lemma recording_node_ok: "node_ok recording_node sample_evs (\<lambda>_. 5)" "files_ok recording_node"
proof -
  have "\<exists>n. \<not> is_failed (fst (events_by_block recording_node h (after_calls (events_by_block recording_node h) n w)))" for h w
    by (simp add: recording_node_def is_failed_def)
  then show "node_ok recording_node sample_evs (\<lambda>_. 5)"
    unfolding node_ok_def chain_follows_def by (simp add: recording_node_def)
  show "files_ok recording_node" by (simp add: files_ok_def recording_node_def)
qed

definition recording_observer :: observer where
  "recording_observer = (sample_observer None)\<lparr>startHeight := 0\<rparr>"

theorem checkpoint_before_store_witness:
  "\<exists>s'. system_run sample_btcd alist_db recording_node sample_cvt recording_observer (\<lambda>_ _ _ _ _ _ w. (Answer [], w))
        (\<lambda>w. sample_now 0) sample_signer ''key'' (start_system 4 empty_vdb []) s'
     \<and> channel s' = [event_item 4] \<and> dom (stored sample_btcd alist_db (sys_vdb s')) = dom (stored sample_btcd alist_db empty_vdb)
     \<and> resumes_after sample_btcd alist_db recording_node sample_cvt recording_observer sample_evs 5 (sys_world s')"
proof -
  let ?l = "\<lparr>txchan = Some [], ob_vdb = empty_vdb, world = [], top = 4, lastRecorded = 4\<rparr>
      :: ((bytes \<times> bytes) list, bytes) listening"
  have key: "hashKey recording_observer = hashKey (sample_observer None)" "startHeight recording_observer = 0"
    by (simp_all add: recording_observer_def)
  have blocks: "\<forall>h. \<exists>acts. block_actions sample_btcd sample_cvt (hashKey recording_observer) sample_evs h = Ret acts"
    by (simp add: key sample_block_actions)
  moreover have "fst (current_height recording_node []) = Inr 5" by (simp add: recording_node_def)
  ultimately obtain l' where tick:
    "listen_tick sample_btcd alist_db recording_node sample_cvt recording_observer ?l = Some (Ret l')"
    and l': "txchan l' = Some [event_item 4]" "top l' = 5"
    using tick_delivers [OF recording_node_ok(1), where L = alist_db and B = sample_btcd and cvt = sample_cvt
        and ob = recording_observer and sent = "[]" and s = ?l]
    by (auto simp: key heights_5 actions_of_def sample_block_actions delivered_upto_def Let_def)
  have start: "matches ?l (start_system 4 empty_vdb [])"
    by (simp add: matches_def shown_def ob_part_def start_system_def)
  have sent: "txchan l' = Some (captured (start_system 4 empty_vdb []) @ [event_item 4])"
    using l' by (simp add: start_system_def)
  have room: "length (channel (start_system 4 empty_vdb []) @ [event_item 4]) \<le> 100"
    by (simp add: start_system_def)
  have sound: "vdb_sound sample_btcd alist_db (ob_vdb ?l)" by (simp add: empty_vdb_sound)
  have writes: "\<forall>h w. fst (set_last_height recording_node recording_observer h w) = None"
    by (simp add: set_last_height_def recording_node_def)
  have low: "top ?l \<le> 5" "startHeight recording_observer \<le> top ?l" by (simp_all add: key)
  from checkpoint_before_store [OF tick start sent _ room sound recording_node_ok(2) writes recording_node_ok(1) low blocks,
      of "\<lambda>_ _ _ _ _ _ w. (Answer [], w)" "\<lambda>w. sample_now 0" sample_signer "''key''"] l'
  show ?thesis by (auto simp: start_system_def key)
qed

end
