(* ===== verification/Cut_Writes.thy ===== *)
theory Cut_Writes
  imports DB_Properties
begin

text \<open>
  What stands on the disk when the process ends in the middle of \<open>PutSignedTx\<close>: the very
  operation is run on a LevelDB that lets a number of writes through and no more.
\<close>

section \<open>Writes that are cut off\<close>

definition cut_db :: "'d leveldb \<Rightarrow> ('d \<times> nat) leveldb" where
  "cut_db L =
     \<lparr>ldb_get = \<lambda>(d, n) k. ldb_get L d k,
      ldb_put = \<lambda>(d, n) k v. (case n of 0 \<Rightarrow> (Some (Ext ''leveldb: closed''), (d, 0))
        | Suc m \<Rightarrow> (case ldb_put L d k v of (r, d) \<Rightarrow> (r, (d, m)))),
      ldb_scan = \<lambda>(d, n) p. ldb_scan L d p,
      ldb_map = \<lambda>(d, n). ldb_map L d\<rparr>"

text \<open>The disk when the process ends after \<open>n\<close> writes of the put.\<close>

definition put_cut :: "btcd \<Rightarrow> 'd leveldb \<Rightarrow> nat \<Rightarrow> 'd vendor_db \<Rightarrow> bytes \<Rightarrow> saved_item \<Rightarrow> 'd" where
  "put_cut B L n v txHash item =
     fst (db (snd (put_signed_tx B (cut_db L) \<lparr>db = (db v, n), txCache = txCache v\<rparr> txHash item)))"

text \<open>A LevelDB whose writes are cut off is a LevelDB with writes that fail.\<close>

lemma ldb_map_cut [simp]: "ldb_map (cut_db L) p = ldb_map L (fst p)"
  by (simp add: cut_db_def split: prod.split)

lemma leveldb_ok_cut:
  assumes "leveldb_ok L"
  shows "leveldb_ok (cut_db L)"
proof -
  have "\<exists>ks. distinct ks \<and> set ks = {k \<in> dom (ldb_map L d). prefix p k} \<and> map Some vs = map (ldb_map L d) ks"
    if "ldb_scan L d p = (vs, None)" for d p vs
    using leveldb_ok_scan [OF assms that] .
  with leveldb_okD [OF assms] show ?thesis
    unfolding leveldb_ok_def ldb_map_cut by (auto simp: cut_db_def split: nat.splits prod.splits)
qed

lemma vdb_inv_cut: "vdb_inv B L v \<Longrightarrow> vdb_inv B (cut_db L) \<lparr>db = (db v, n), txCache = txCache v\<rparr>"
  by (simp add: vdb_inv_def leveldb_ok_cut)

lemma put_cut_fresh:
  assumes sound: "vdb_sound B L v" and x: "put_ok B h x" and new: "stored B L v h = None"
  obtains raw d d' where "serialize_saved B x = Inr raw"
    "ldb_put L (db v) (tx_key h) raw = (None, d)"
    "ldb_put L d totalnum_prefix (write_u64 (totalCache (txCache v) + 1)) = (None, d')"
    "put_cut B L 0 v h x = db v" "put_cut B L 1 v h x = d" "put_cut B L 2 v h x = d'"
proof -
  note D = vdb_soundD [OF sound] and R = reliableD [OF vdb_soundD(2) [OF sound]]
  have m: "ldb_map L (db v) (tx_key h) = None"
    using new D(4) by (simp add: stored_def stored_item_None)
  have get: "ldb_get L (db v) (tx_key h) = Inl NotFound"
    using R(1) leveldb_okD(1) [OF D(3)] m by (cases "ldb_get L (db v) (tx_key h)") auto
  have cache: "cache_get B h (txCache v) = None"
    using new D(7) by (auto simp: cache_get_None)
  obtain raw where raw: "serialize_saved B x = Inr raw"
    using x saved.enc_ok by (auto simp: put_ok_def)
  obtain d where d: "ldb_put L (db v) (tx_key h) raw = (None, d)"
    using R(2) by (metis prod.collapse)
  obtain d' where d': "ldb_put L d totalnum_prefix (write_u64 (totalCache (txCache v) + 1)) = (None, d')"
    using R(2) by (metis prod.collapse)
  show thesis
    using that [OF raw d d']
    by (simp add: put_cut_def put_signed_tx_def cut_db_def cache get raw d d' Let_def numeral_2_eq_2)
qed

lemma opened_with_count:
  assumes "leveldb_ok L" and "leveldb_reliable L" and "ldb_map L d totalnum_prefix = map_option write_u64 c"
  shows "new_vendor_db L (Inr d) = Ret (Inr \<lparr>db = d, txCache = \<lparr>cache_list = [], cache_size = CACHE_SIZE,
      totalCache = (case c of None \<Rightarrow> 0 | Some n \<Rightarrow> n)\<rparr>\<rparr>)"
proof (cases c)
  case None
  then have "\<exists>e. ldb_get L d totalnum_prefix = Inl e"
    using leveldb_okD(1) [OF assms(1), of d totalnum_prefix] assms(3) by (cases "ldb_get L d totalnum_prefix") auto
  with None show ?thesis by (auto simp: new_vendor_db_def get_total_tx_num_def)
next
  case (Some n)
  then have "ldb_get L d totalnum_prefix = Inr (write_u64 n)"
    using leveldb_okD(1,2) [OF assms(1), of d totalnum_prefix] reliableD(1) [OF assms(2), of d totalnum_prefix] assms(3)
    by (cases "ldb_get L d totalnum_prefix") auto
  with Some show ?thesis by (simp add: new_vendor_db_def get_total_tx_num_def write_u64_def codec_simps)
qed

section \<open>The first put\<close>

text \<open>
  C39: \<open>PutSignedTx\<close> makes two writes, the transaction and the count. When the process ends between those
  of the first put, the transaction is on disk and \<open>GetSignedTx\<close> of the next start finds it, but the
  count is zero and \<open>ReadFirstBatch\<close> returns an empty list. Ending before the first write
  leaves the disk as it was, and after the second write the count is 1.
\<close>

theorem first_put_without_count_is_hidden:
  assumes "vdb_sound B L v" and "put_ok B h x" and "ldb_map L (db v) totalnum_prefix = None"
  shows "put_cut B L 0 v h x = db v
     \<and> (\<exists>v1. new_vendor_db L (Inr (put_cut B L 1 v h x)) = Ret (Inr v1)
          \<and> get_signed_tx B L v1 h = Inr (canon_saved x)
          \<and> get_total_tx_num L v1 = Ret 0
          \<and> read_first_batch B L srt v1 = (Inr [], v1))
     \<and> (\<exists>v2. new_vendor_db L (Inr (put_cut B L 2 v h x)) = Ret (Inr v2) \<and> get_total_tx_num L v2 = Ret 1)"
proof -
  note D = vdb_soundD [OF assms(1)]
  have empty: "stored_hashes (ldb_map L (db v)) = {}" "totalCache (txCache v) = 0"
    using D(6) assms(3) by (auto simp: total_ok_def)
  then have "stored B L v h = None" by (simp add: stored_None_iff [OF assms(1)])
  then obtain raw d d' where raw: "serialize_saved B x = Inr raw"
    and d: "ldb_put L (db v) (tx_key h) raw = (None, d)" and d': "ldb_put L d totalnum_prefix (write_u64 (0 + 1)) = (None, d')"
    and cut: "put_cut B L 0 v h x = db v" "put_cut B L 1 v h x = d" "put_cut B L 2 v h x = d'"
    using put_cut_fresh [OF assms(1,2)] empty(2) by metis
  note maps = leveldb_okD(3) [OF D(3) d] leveldb_okD(3) [OF D(3) d']
  have "ldb_map L d (tx_key h) = Some raw" by (simp add: maps(1))
  then have get: "ldb_get L d (tx_key h) = Inr raw"
    using leveldb_okD(1,2) [OF D(3), of d "tx_key h"] reliableD(1) [OF D(2), of d "tx_key h"]
    by (cases "ldb_get L d (tx_key h)") auto
  have count: "\<exists>e. ldb_get L d totalnum_prefix = Inl e"
    using leveldb_okD(1) [OF D(3), of d totalnum_prefix] assms(3) maps(1)
    by (cases "ldb_get L d totalnum_prefix") auto
  have decode: "deserialize_saved B raw = Inr (canon_saved x)"
    using saved.dec_enc [of B x raw "[]"] assms(2) raw by (simp add: put_ok_def)
  have "ldb_map L d totalnum_prefix = map_option write_u64 None" "ldb_map L d' totalnum_prefix = map_option write_u64 (Some 1)"
    using maps assms(3) by simp_all
  note open1 = opened_with_count [OF D(3,2) this(1)] and open2 = opened_with_count [OF D(3,2) this(2)]
  let ?v1 = "\<lparr>db = d, txCache = \<lparr>cache_list = [], cache_size = CACHE_SIZE, totalCache = 0\<rparr>\<rparr>"
  have "get_signed_tx B L ?v1 h = Inr (canon_saved x)" "get_total_tx_num L ?v1 = Ret 0"
    "read_first_batch B L srt ?v1 = (Inr [], ?v1)"
    using get count decode by (auto simp: get_signed_tx_def cache_get_def get_total_tx_num_def read_first_batch_def
        cache_len_def cache_get_all_def)
  with open1 open2 show ?thesis unfolding cut by (simp add: get_total_tx_num_def)
qed

theorem first_put_without_count_is_hidden_witness:
  "\<exists>v1. new_vendor_db alist_db (Inr (put_cut sample_btcd alist_db 1 empty_vdb [1, 0, 1, 4] (sample_item 4 9))) = Ret (Inr v1)
     \<and> get_signed_tx sample_btcd alist_db v1 [1, 0, 1, 4] = Inr (sample_item 4 9)
     \<and> read_first_batch sample_btcd alist_db sample_sort v1 = (Inr [], v1)"
proof -
  have "ldb_map alist_db (db empty_vdb) totalnum_prefix = None" by (simp add: empty_vdb_def)
  from first_put_without_count_is_hidden [OF empty_vdb_sound sample_put_ok this, where srt = sample_sort] show ?thesis
    by (auto simp: sample_canon)
qed

end
