(* ===== verification/Lifetimes.thy ===== *)
theory Lifetimes
  imports Pipeline_Properties Cut_Writes
begin

text \<open>
  The lives of the tool in mode \<open>all\<close>: it is started on what the disk holds, its two goroutines
  run, and it is killed at some point, also between the two writes of \<open>PutSignedTx\<close>; then it is
  started again. Any call of the storage may fail. What the disk keeps over all this, and what a
  kill can cost.
\<close>

section \<open>The disk\<close>

text \<open>The count, when it is there, has its eight bytes.\<close>

definition count_ok :: "(bytes \<Rightarrow> bytes option) \<Rightarrow> bool" where
  "count_ok m \<longleftrightarrow> (\<forall>b. m totalnum_prefix = Some b \<longrightarrow> length b = 8)"

definition disk_ok :: "btcd \<Rightarrow> 'd leveldb \<Rightarrow> 'd \<Rightarrow> bool" where
  "disk_ok B L d \<longleftrightarrow> leveldb_ok L \<and> store_ok B (ldb_map L d) \<and> count_ok (ldb_map L d)"

text \<open>A stored item stays the same item, but for being marked done, which is never taken back.\<close>

definition grown :: "btcd \<Rightarrow> (bytes \<Rightarrow> bytes option) \<Rightarrow> (bytes \<Rightarrow> bytes option) \<Rightarrow> bool" where
  "grown B m m' \<longleftrightarrow>
     (\<forall>h y. stored_item B m h = Some y \<longrightarrow> (\<exists>b. stored_item B m' h = Some (y\<lparr>Done := b\<rparr>) \<and> (Done y \<longrightarrow> b)))"

lemma grown_refl: "grown B m m"
  by (auto simp: grown_def intro!: exI [of _ "Done _"])

lemma grown_trans: "grown B m m' \<Longrightarrow> grown B m' m'' \<Longrightarrow> grown B m m''"
  unfolding grown_def by (metis (no_types, lifting) saved_item.select_convs(3) saved_item.surjective saved_item.update_convs(3))

lemma grown_new:
  assumes "saved_ok B x" and "serialize_saved B x = Inr raw" and "m (tx_key (item_key B x)) = None"
  shows "grown B m (m(tx_key (item_key B x) \<mapsto> raw))"
proof -
  have "stored_item B m (item_key B x) = None" using assms(3) by (simp add: stored_item_def)
  then show ?thesis
    unfolding grown_def serialized_stored(2) [OF assms(1,2)] by (auto intro!: exI [of _ "Done _"])
qed

lemma grown_done:
  assumes "saved_ok B y" and "stored_item B m (item_key B y) = Some y" and "canon_saved y = y"
    and "serialize_saved B (y\<lparr>Done := True\<rparr>) = Inr raw"
  shows "grown B m (m(tx_key (item_key B y) \<mapsto> raw))"
proof -
  have "saved_ok B (y\<lparr>Done := True\<rparr>)" using assms(1) by simp
  from serialized_stored(2) [OF this assms(4), of m]
  have at: "stored_item B (m(tx_key (item_key B y) \<mapsto> raw)) h
      = (if h = item_key B y then Some (y\<lparr>Done := True\<rparr>) else stored_item B m h)" for h
    using assms(3) by simp
  show ?thesis
    unfolding grown_def at
  proof (intro allI impI)
    fix h z assume "stored_item B m h = Some z"
    with assms(2) show "\<exists>b. (if h = item_key B y then Some (y\<lparr>Done := True\<rparr>) else stored_item B m h) = Some (z\<lparr>Done := b\<rparr>)
        \<and> (Done z \<longrightarrow> b)"
      by (intro exI [of _ "h = item_key B y \<or> Done z"]) auto
  qed
qed

lemma total_grown [simp]: "grown B m (m'(totalnum_prefix \<mapsto> b)) = grown B m m'"
  by (simp add: grown_def)

lemma count_ok_simps [simp]:
  "count_ok (m(tx_key h \<mapsto> raw)) = count_ok m"
  "count_ok (m(totalnum_prefix \<mapsto> write_u64 n))"
  by (simp_all add: count_ok_def write_u64_def)

section \<open>Opening and writing\<close>

text \<open>The disk never makes the start fail or panic.\<close>

lemma opens:
  assumes "disk_ok B L d"
  shows "\<exists>v. new_vendor_db L (Inr d) = Ret (Inr v) \<and> db v = d \<and> vdb_inv B L v"
proof -
  have L: "leveldb_ok L" using assms by (simp add: disk_ok_def)
  let ?v = "\<lparr>db = d, txCache = \<lparr>cache_list = [], cache_size = CACHE_SIZE, totalCache = 0\<rparr>\<rparr>"
  have "\<exists>n. get_total_tx_num L ?v = Ret n"
  proof (cases "ldb_get L d totalnum_prefix")
    case (Inr b)
    with assms have "length b = 8" using leveldb_okD(1) [OF L] by (auto simp: disk_ok_def count_ok_def)
    with Inr show ?thesis by (simp add: get_total_tx_num_def)
  qed (simp add: get_total_tx_num_def)
  with assms show ?thesis
    by (auto simp: new_vendor_db_def Let_def vdb_inv_def cache_len_def disk_ok_def)
qed

text \<open>What the disk may be after a step that started with \<open>m\<close>.\<close>

definition disk_step :: "btcd \<Rightarrow> (bytes \<Rightarrow> bytes option) \<Rightarrow> (bytes \<Rightarrow> bytes option) \<Rightarrow> bool" where
  "disk_step B m m' \<longleftrightarrow> grown B m m' \<and> (count_ok m \<longrightarrow> count_ok m')"

lemma disk_step_refl: "disk_step B m m"
  by (simp add: disk_step_def grown_refl)

lemma new_item_step:
  assumes "vdb_inv B L v" and "saved_ok B x" and "serialize_saved B x = Inr raw"
    and "ldb_get L (db v) (tx_key (item_key B x)) = Inl NotFound"
  shows "disk_step B (ldb_map L (db v)) ((ldb_map L (db v))(tx_key (item_key B x) \<mapsto> raw))"
proof -
  have "leveldb_ok L" using assms(1) by (simp add: vdb_inv_def)
  then have "ldb_map L (db v) (tx_key (item_key B x)) = None" by (rule leveldb_okD(2)) (rule assms(4))
  from grown_new [of B x raw "ldb_map L (db v)", OF assms(2,3) this] show ?thesis by (simp add: disk_step_def)
qed

lemma put_disk_step:
  assumes inv: "vdb_inv B L v" and x: "saved_ok B x"
    and put: "put_signed_tx B L v (item_key B x) x = (r, v')"
  shows "disk_step B (ldb_map L (db v)) (ldb_map L (db v'))"
proof -
  have L: "leveldb_ok L" using inv by (simp add: vdb_inv_def)
  from put show ?thesis
  proof (cases rule: put_signed_tx_cases)
    case unchanged
    then show ?thesis by (simp add: disk_step_refl)
  next
    case (put_failed raw e d)
    from new_item_step [OF inv x put_failed(3,2)] leveldb_okD(4) [OF L put_failed(4)] put_failed(6)
    show ?thesis by (auto simp: disk_step_refl)
  next
    case (written raw d d')
    have "ldb_map L d' = ldb_map L d
        \<or> ldb_map L d' = (ldb_map L d)(totalnum_prefix \<mapsto> write_u64 (totalCache (txCache v) + 1))"
      using written(5) leveldb_okD(3,4) [OF L] by (cases r) blast+
    with new_item_step [OF inv x written(3,2)] leveldb_okD(3) [OF L written(4)] written(6)
    show ?thesis by (auto simp: disk_step_def)
  qed
qed

text \<open>A put that is cut off is a put on storage that fails.\<close>

lemma put_cut_step:
  assumes inv: "vdb_inv B L v" and x: "saved_ok B x"
  shows "disk_step B (ldb_map L (db v)) (ldb_map L (put_cut B L n v (item_key B x) x))"
    and "store_ok B (ldb_map L (put_cut B L n v (item_key B x) x))"
proof -
  let ?v = "\<lparr>db = (db v, n), txCache = txCache v\<rparr>"
  note cut = vdb_inv_cut [OF inv, of n]
  show "disk_step B (ldb_map L (db v)) (ldb_map L (put_cut B L n v (item_key B x) x))"
    using put_disk_step [OF cut x prod.collapse [symmetric]] by (simp add: put_cut_def)
  show "store_ok B (ldb_map L (put_cut B L n v (item_key B x) x))"
    using put_signed_tx_inv [OF cut x prod.collapse [symmetric]] by (simp add: put_cut_def vdb_inv_def)
qed

lemma done_disk_step:
  assumes inv: "vdb_inv B L v" and mark: "set_tx_done B L v h = (r, v')"
  shows "disk_step B (ldb_map L (db v)) (ldb_map L (db v'))"
proof -
  have L: "leveldb_ok L" and store: "store_ok B (ldb_map L (db v))" using inv by (simp_all add: vdb_inv_def)
  from mark show ?thesis
  proof (cases rule: set_tx_done_cases)
    case not_read
    then show ?thesis by (auto simp: disk_step_refl)
  next
    case (written val y raw d)
    from leveldb_okD(1) [OF L written(1)] obtain y' where y': "saved_ok B y'" "canon_saved y' = y'" "item_key B y' = h"
      "deserialize_saved B val = Inr y'" "stored_item B (ldb_map L (db v)) h = Some y'"
      by (rule store_ok_item [OF store])
    then have y: "y' = y" using written(2) by simp
    have "saved_ok B (y\<lparr>Done := True\<rparr>)" using y'(1) y by simp
    then obtain raw' where raw': "serialize_saved B (y\<lparr>Done := True\<rparr>) = Inr raw'" using saved.enc_ok by blast
    have raw: "raw = raw'" using written(3) raw' by simp
    have "ldb_map L d = ldb_map L (db v) \<or> ldb_map L d = (ldb_map L (db v))(tx_key h \<mapsto> raw)"
      using written(4) leveldb_okD(3,4) [OF L] by (cases r) blast+
    moreover have "db v' = d" using written(5) by auto
    moreover have "grown B (ldb_map L (db v)) ((ldb_map L (db v))(tx_key h \<mapsto> raw))"
      using grown_done [of B y "ldb_map L (db v)" raw'] y' y raw' raw by simp
    ultimately show ?thesis by (auto simp: disk_step_def grown_refl)
  qed
qed

section \<open>One life\<close>

text \<open>A notification the node gives; all that are to be signed can be stored.\<close>

definition offered :: "'w node \<Rightarrow> notify_event \<Rightarrow> bool" where
  "offered N n \<longleftrightarrow> (\<exists>h w events w'. events_by_block N h w = (Inr events, w') \<and> n \<in> set (concat (map Notify events)))"

definition storable_items :: "btcd \<Rightarrow> 'w node \<Rightarrow> (rat \<Rightarrow> u64) \<Rightarrow> observer \<Rightarrow> ('w \<Rightarrow> gotime) \<Rightarrow> bool" where
  "storable_items B N cvt ob now \<longleftrightarrow>
     (\<forall>n item w. offered N n \<and> notify_action B cvt (hashKey ob) (States n) = Ret (Capture item)
        \<longrightarrow> saved_ok B (new_saved item (now w)))"

text \<open>What a kill leaves on the disk; within a put any number of its writes may have been made.\<close>

inductive killed :: "btcd \<Rightarrow> 'd leveldb \<Rightarrow> ('w \<Rightarrow> gotime) \<Rightarrow> ('d, 'w) system \<Rightarrow> 'd \<Rightarrow> bool"
  for B L now
where
  killed_between_steps: "killed B L now s (db (sys_vdb s))"
| killed_in_put: "job s = Accepted item item' \<Longrightarrow>
     killed B L now s (put_cut B L n (sys_vdb s) (tx_hash B (strip_scripts (Mtx item')))
       \<lparr>Item = item', TimeReceived = now (sys_world s), Done = False\<rparr>)"

inductive_cases killedE: "killed B L now s d"

text \<open>
  Any number of lives, from disk to disk and world to world; between two lives the world (the chain,
  the network, the other files) may become any other.
\<close>

inductive lives ::
  "btcd \<Rightarrow> 'd leveldb \<Rightarrow> 'w node \<Rightarrow> (rat \<Rightarrow> u64) \<Rightarrow> observer \<Rightarrow> 'w multi_sign \<Rightarrow> ('w \<Rightarrow> gotime) \<Rightarrow> signer \<Rightarrow> string
     \<Rightarrow> 'd \<Rightarrow> 'w \<Rightarrow> 'd \<Rightarrow> 'w \<Rightarrow> bool"
  for B L N cvt ob multi_sign now sg key
where
  no_life: "lives B L N cvt ob multi_sign now sg key d w d w"
| one_life: "lives B L N cvt ob multi_sign now sg key d w d1 w1 \<Longrightarrow>
     new_vendor_db L (Inr d1) = Ret (Inr v) \<Longrightarrow>
     system_run B L N cvt ob multi_sign now sg key
       (start_system (top (listen_start N ob \<lparr>txchan = Some [], ob_vdb = v, world = w1\<rparr>)) v w1) s \<Longrightarrow>
     killed B L now s d2 \<Longrightarrow>
     lives B L N cvt ob multi_sign now sg key d w d2 w2"

definition live_inv ::
  "btcd \<Rightarrow> 'd leveldb \<Rightarrow> 'w node \<Rightarrow> ('w \<Rightarrow> gotime) \<Rightarrow> (bytes \<Rightarrow> bytes option) \<Rightarrow> ('d, 'w) system \<Rightarrow> bool" where
  "live_inv B L N now m s \<longleftrightarrow>
     vdb_inv B L (sys_vdb s) \<and> disk_step B m (ldb_map L (db (sys_vdb s)))
     \<and> (\<forall>n \<in> set (todo s). offered N n)
     \<and> (\<forall>item \<in> set (in_job (job s) @ channel s). \<forall>w. saved_ok B (new_saved item (now w)))
     \<and> job_ok (job s)"

lemma disk_step_trans: "disk_step B m m' \<Longrightarrow> disk_step B m' m'' \<Longrightarrow> disk_step B m m''"
  by (auto simp: disk_step_def intro: grown_trans)

lemma observer_step_live:
  assumes "observer_step B L N cvt ob s s'" and "live_inv B L N now m s" and "storable_items B N cvt ob now"
  shows "live_inv B L N now m s'"
  using assms(1)
proof (cases rule: observer_step.cases)
  case (fetch h newTop events w)
  from fetch(5) have "\<forall>n \<in> set (concat (map Notify events)). offered N n"
    unfolding offered_def by blast
  with fetch assms(2) show ?thesis by (simp add: live_inv_def)
next
  case (send n ns item)
  with assms(2,3) show ?thesis by (auto simp: live_inv_def storable_items_def)
next
  case (mark n ns txid)
  have inv: "vdb_inv B L (sys_vdb s)" using assms(2) by (simp add: live_inv_def)
  have "vdb_inv B L (snd (set_tx_done B L (sys_vdb s) txid))"
    "disk_step B (ldb_map L (db (sys_vdb s))) (ldb_map L (db (snd (set_tx_done B L (sys_vdb s) txid))))"
    using set_tx_done_inv [OF inv prod.collapse [symmetric]] done_disk_step [OF inv prod.collapse [symmetric]] by blast+
  with mark assms(2) show ?thesis by (auto simp: live_inv_def intro: disk_step_trans)
qed (use assms(2) in \<open>simp_all add: live_inv_def\<close>)

lemma stored_put:
  assumes "live_inv B L N now m s" and "job s = Accepted item item'"
  shows "item_key B (new_saved item t) = tx_hash B (strip_scripts (Mtx item'))"
    and "\<lparr>Item = item', TimeReceived = t, Done = False\<rparr> = new_saved item t"
    and "saved_ok B (new_saved item (now w))"
  using assms by (auto simp: live_inv_def new_saved_def item_key_def)

lemma signer_step_live:
  assumes "signer_step B L multi_sign now sg key s s'" and "live_inv B L N now m s"
  shows "live_inv B L N now m s'"
  using assms(1)
proof (cases rule: signer_step.cases)
  case (signed item sigs item')
  with assms(2) get_sigs_item [OF signed(3)] show ?thesis by (simp add: live_inv_def)
next
  case (store_item item item')
  note put = stored_put [OF assms(2) store_item(2)]
  have inv: "vdb_inv B L (sys_vdb s)" using assms(2) by (simp add: live_inv_def)
  let ?x = "new_saved item (now (sys_world s))"
  have v: "sys_vdb s' = snd (put_signed_tx B L (sys_vdb s) (item_key B ?x) ?x)"
    using store_item(1) put(1) [of "now (sys_world s)"] put(2) [of "now (sys_world s)"] by simp
  have "vdb_inv B L (sys_vdb s')" "disk_step B (ldb_map L (db (sys_vdb s))) (ldb_map L (db (sys_vdb s')))"
    unfolding v using put_signed_tx_inv [OF inv put(3) prod.collapse [symmetric]]
      put_disk_step [OF inv put(3) prod.collapse [symmetric]] by blast+
  with store_item assms(2) show ?thesis by (auto simp: live_inv_def intro: disk_step_trans)
qed (use assms(2) in \<open>simp_all add: live_inv_def\<close>)

lemma system_run_live:
  "system_run B L N cvt ob multi_sign now sg key s s' \<Longrightarrow> live_inv B L N now m s \<Longrightarrow> storable_items B N cvt ob now
     \<Longrightarrow> live_inv B L N now m s'"
  by (induction rule: system_run.induct) (auto intro: observer_step_live signer_step_live)

lemma killed_live:
  assumes "killed B L now s d" and "live_inv B L N now m s"
  shows "disk_step B m (ldb_map L d) \<and> store_ok B (ldb_map L d)"
  using assms(1)
proof (cases rule: killed.cases)
  case killed_between_steps
  with assms(2) show ?thesis by (simp add: live_inv_def vdb_inv_def)
next
  case (killed_in_put item item' n)
  note put = stored_put [OF assms(2) killed_in_put(2)]
  have inv: "vdb_inv B L (sys_vdb s)" using assms(2) by (simp add: live_inv_def)
  let ?x = "new_saved item (now (sys_world s))"
  have "d = put_cut B L n (sys_vdb s) (item_key B ?x) ?x"
    using killed_in_put(1) put(1) [of "now (sys_world s)"] put(2) [of "now (sys_world s)"] by simp
  with put_cut_step [OF inv put(3)] assms(2) show ?thesis
    by (auto simp: live_inv_def intro: disk_step_trans)
qed

section \<open>What the disk keeps\<close>

text \<open>
  C3: What was stored once stays stored. Over any number of starts and kills, at any point and also
  between the two writes of a put, with storage calls that fail anywhere and the observer that scans
  blocks again, every stored item keeps its transaction, amounts and time under its hash; it may only be
  marked done, and a done mark is never taken back. And the disk always opens again, without error
  or panic, to a database in order.
\<close>

theorem disk_survives_lives:
  assumes "lives B L N cvt ob multi_sign now sg key d w d' w'"
    and "disk_ok B L d" and "storable_items B N cvt ob now"
  shows "grown B (ldb_map L d) (ldb_map L d') \<and> disk_ok B L d'
     \<and> (\<exists>v. new_vendor_db L (Inr d') = Ret (Inr v) \<and> db v = d' \<and> vdb_inv B L v)"
proof -
  have "grown B (ldb_map L d) (ldb_map L d') \<and> disk_ok B L d'"
    using assms(1,2)
  proof (induction rule: lives.induct)
    case (one_life d w d1 w1 v s d2 w2)
    then have old: "grown B (ldb_map L d) (ldb_map L d1)" and d1: "disk_ok B L d1" by simp_all
    from opens [OF d1] one_life.hyps(2) have v: "db v = d1" "vdb_inv B L v" by auto
    have "live_inv B L N now (ldb_map L d1) (start_system t v w1)" for t
      using v by (simp add: live_inv_def start_system_def disk_step_refl)
    from system_run_live [OF one_life.hyps(3) this assms(3)] have "live_inv B L N now (ldb_map L d1) s" .
    from killed_live [OF one_life.hyps(4) this] have step: "grown B (ldb_map L d1) (ldb_map L d2)" "disk_ok B L d2"
      using d1 by (simp_all add: disk_ok_def disk_step_def)
    from grown_trans [OF old step(1)] step(2) show ?case by simp
  qed (simp add: grown_refl)
  then show ?thesis using opens [of B L d'] by simp
qed

section \<open>What a kill costs\<close>

lemma found_after_opening:
  assumes "disk_ok B L d" and "leveldb_reliable L" and "new_vendor_db L (Inr d) = Ret (Inr v)"
    and "stored_item B (ldb_map L d) h \<noteq> None"
  shows "\<exists>x. get_signed_tx B L v h = Inr x"
proof -
  have L: "leveldb_ok L" and store: "store_ok B (ldb_map L d)" using assms(1) by (simp_all add: disk_ok_def)
  have v: "cache_list (txCache v) = []" "db v = d"
    using assms(3) by (auto simp: new_vendor_db_def Let_def split: go.splits)
  from assms(4) obtain raw where raw: "ldb_map L d (tx_key h) = Some raw"
    by (auto simp: stored_item_def split: option.splits)
  with reliableD(1) [OF assms(2), of d "tx_key h"] leveldb_okD(1,2) [OF L]
  have "ldb_get L d (tx_key h) = Inr raw" by (cases "ldb_get L d (tx_key h)") force+
  moreover obtain y where "deserialize_saved B raw = Inr y" using store raw by (rule store_ok_item)
  ultimately show ?thesis using v by (simp add: get_signed_tx_def cache_get_def)
qed

text \<open>What is finished with is on the disk that a kill leaves.\<close>

lemma killed_keeps_settled:
  assumes "kept_inv B L s" and "killed B L now s d" and "\<forall>item \<in> set (captured s). signable B now sg item"
    and "count_ok (ldb_map L (db (sys_vdb s)))"
  shows "disk_ok B L d" and "item \<in> set (settled s) \<Longrightarrow> stored_item B (ldb_map L d) (unsigned_hash B item) \<noteq> None"
proof -
  let ?m = "ldb_map L (db (sys_vdb s))"
  have inv: "vdb_inv B L (sys_vdb s)" using assms(1) vdb_soundD(1) by (auto simp: kept_inv_def)
  have "\<forall>item \<in> set (in_job (job s) @ channel s). \<forall>w. saved_ok B (new_saved item (now w))"
    using assms(1,3) by (auto simp: kept_inv_def flow_inv_def signable_def)
  then have live: "live_inv B L N now ?m (s\<lparr>todo := []\<rparr>)" for N
    using assms(1) inv by (simp add: live_inv_def kept_inv_def disk_step_refl)
  have "killed B L now (s\<lparr>todo := []\<rparr>) d"
    using assms(2) by (cases rule: killed.cases) (auto intro: killed.intros simp: killed.simps)
  from killed_live [OF this live] have step: "disk_step B ?m (ldb_map L d)" "store_ok B (ldb_map L d)"
    by simp_all
  with assms(4) inv show "disk_ok B L d" by (simp add: disk_ok_def disk_step_def vdb_inv_def)
  show "stored_item B (ldb_map L d) (unsigned_hash B item) \<noteq> None" if "item \<in> set (settled s)"
    using that assms(1) step(1) by (fastforce simp: kept_inv_def stored_def disk_step_def grown_def)
qed

text \<open>
  C10: With storage that does not fail and a chain that accepts, a kill, also one between the two writes
  of a put, costs at most the last 101 captured transactions: the database of the next start finds all
  earlier ones. 100 are the channel, one is in the hands of the signer.
\<close>

theorem kill_loses_at_most_101:
  assumes "vdb_sound B L v" and "system_run B L N cvt ob multi_sign now sg key (start_system t v w) s"
    and "killed B L now s d"
    and "chain_accepts multi_sign" and "\<forall>item \<in> set (captured s). signable B now sg item"
  shows "\<exists>v' early late. new_vendor_db L (Inr d) = Ret (Inr v') \<and> captured s = early @ late
     \<and> length late \<le> 101 \<and> (\<forall>item \<in> set early. \<exists>x. get_signed_tx B L v' (unsigned_hash B item) = Inr x)"
proof -
  have kept: "kept_inv B L s" by (rule system_run_kept [OF assms(2) start_kept [OF assms(1)] assms(4,5)])
  then have sound: "vdb_sound B L (sys_vdb s)" and flow: "captured s = settled s @ in_job (job s) @ channel s"
    "length (channel s) \<le> 100"
    by (simp_all add: kept_inv_def flow_inv_def CHANNEL_SIZE_def)
  have "count_ok (ldb_map L (db (sys_vdb s)))"
    using vdb_soundD(6) [OF sound] by (auto simp: count_ok_def total_ok_def write_u64_def)
  note on_disk = killed_keeps_settled [OF kept assms(3,5) this]
  obtain v' where v': "new_vendor_db L (Inr d) = Ret (Inr v')" using opens [OF on_disk(1)] by blast
  have "\<forall>item \<in> set (settled s). \<exists>x. get_signed_tx B L v' (unsigned_hash B item) = Inr x"
    using found_after_opening [OF on_disk(1) vdb_soundD(2) [OF sound] v'] on_disk(2) by blast
  moreover have "length (in_job (job s) @ channel s) \<le> 101" using flow(2) by (cases "job s") simp_all
  ultimately show ?thesis using v' flow(1) by blast
qed

section \<open>A life that ends between the two writes\<close>

definition sample_accepted :: "nat \<Rightarrow> ((bytes \<times> bytes) list, nat) system" where
  "sample_accepted w = fetched_system\<lparr>todo := [], captured := [event_item 4], to_sign := 1,
     job := Accepted (event_item 4) (stripped_item (event_item 4)), sys_world := w\<rparr>"

lemma sample_accepted_run:
  "\<exists>w. system_run sample_btcd alist_db sample_node sample_cvt (sample_observer None) sample_chain sample_now sample_signer key
     (start_system 4 empty_vdb 0) (sample_accepted w)"
proof -
  let ?run = "system_run sample_btcd alist_db sample_node sample_cvt (sample_observer None) sample_chain sample_now
      sample_signer key (start_system 4 empty_vdb 0)"
  let ?sent = "fetched_system\<lparr>todo := [], channel := [event_item 4], captured := [event_item 4], to_sign := 1\<rparr>"
  let ?taken = "?sent\<lparr>job := Taken (event_item 4), channel := []\<rparr>"
  have "notify_action sample_btcd sample_cvt (hashKey (sample_observer None)) (States (to_sign_event 4))
      = Ret (Capture (event_item 4))"
    using sample_capture by (simp add: sample_observer_def)
  then have "observer_step sample_btcd alist_db sample_node sample_cvt (sample_observer None) fetched_system ?sent"
    using send [of fetched_system "to_sign_event 4" "[]" sample_btcd sample_cvt "sample_observer None" "event_item 4"
        alist_db sample_node]
    by (simp add: fetched_system_def start_system_def CHANNEL_SIZE_def)
  with sample_fetch have "?run ?sent" by (rule run_observer)
  moreover have "signer_step sample_btcd alist_db sample_chain sample_now sample_signer key ?sent ?taken"
    by (rule take_item) (simp_all add: fetched_system_def start_system_def)
  ultimately have taken: "?run ?taken" by (rule run_signer)
  have job: "job ?taken = Taken (event_item 4)" by simp
  obtain w where "system_run sample_btcd alist_db sample_node sample_cvt (sample_observer None) sample_chain sample_now
      sample_signer key ?taken (?taken\<lparr>job := Accepted (event_item 4) (stripped_item (event_item 4)), sys_world := w\<rparr>)"
    by (rule accepts_steps [OF sample_chain_accepts sample_signable job])
  with taken have "?run (?taken\<lparr>job := Accepted (event_item 4) (stripped_item (event_item 4)), sys_world := w\<rparr>)"
    by (rule system_run_trans)
  then show ?thesis
    by (intro exI [of _ w]) (simp add: sample_accepted_def fetched_system_def start_system_def)
qed

lemma sample_storable: "storable_items sample_btcd sample_node sample_cvt (sample_observer None) sample_now"
proof -
  have two: "n = to_sign_event 4 \<or> n = signed_event 4" if "offered sample_node n" for n
    using that by (auto simp: offered_def sample_node_def sample_evs_def split: if_splits)
  have "item = event_item 4" if "offered sample_node n"
    "notify_action sample_btcd sample_cvt (hashKey (sample_observer None)) (States n) = Ret (Capture item)" for n item
    using two [OF that(1)] that(2) sample_capture [of 4] sample_mark [of 4] by (auto simp: sample_observer_def)
  then show ?thesis using sample_signable [of 4] by (auto simp: storable_items_def signable_def)
qed

lemma sample_opened: "new_vendor_db alist_db (Inr []) = Ret (Inr empty_vdb)"
  by (simp add: new_vendor_db_def get_total_tx_num_def alist_db_def empty_vdb_def)

lemma sample_disk_ok: "disk_ok B alist_db []"
  using leveldb_ok_alist by (simp add: disk_ok_def store_ok_def count_ok_def)

lemma sample_killed:
  "\<exists>d. killed sample_btcd alist_db sample_now (sample_accepted w) d
     \<and> stored_item sample_btcd (map_of d) (unsigned_hash sample_btcd (event_item 4)) \<noteq> None
     \<and> map_of d totalnum_prefix = None"
proof -
  let ?x = "new_saved (event_item 4) (sample_now w)"
  let ?h = "unsigned_hash sample_btcd (event_item 4)"
  have ok: "saved_ok sample_btcd ?x" using sample_signable [of 4] by (simp add: signable_def)
  then obtain raw where raw: "serialize_saved sample_btcd ?x = Inr raw" using saved.enc_ok by blast
  have key: "item_key sample_btcd ?x = ?h" by (rule item_key_new_saved)
  have "put_cut sample_btcd alist_db 1 empty_vdb ?h ?x = [(tx_key ?h, raw)]"
    using raw by (simp add: put_cut_def put_signed_tx_def cut_db_def cache_get_def Let_def)
      (simp add: alist_db_def empty_vdb_def)
  moreover have "sys_vdb (sample_accepted w) = empty_vdb"
    by (simp add: sample_accepted_def fetched_system_def start_system_def)
  ultimately have "killed sample_btcd alist_db sample_now (sample_accepted w) [(tx_key ?h, raw)]"
    using killed_in_put [of "sample_accepted w" "event_item 4" "stripped_item (event_item 4)" sample_btcd alist_db sample_now 1]
    by (simp add: sample_accepted_def new_saved_def unsigned_hash_def del: sample_strip)
  moreover have "stored_item sample_btcd (map_of [(tx_key ?h, raw)]) ?h \<noteq> None"
    using serialized_stored(2) [OF ok raw, of Map.empty ?h] key by simp
  ultimately show ?thesis by (intro exI [of _ "[(tx_key ?h, raw)]"]) simp
qed

text \<open>The transaction of a put that was cut short is still there after the next life.\<close>

theorem disk_survives_lives_witness:
  "\<exists>d1 d2 y b. lives sample_btcd alist_db sample_node sample_cvt (sample_observer None) sample_chain sample_now
        sample_signer ''key'' [] 0 d1 7
     \<and> lives sample_btcd alist_db sample_node sample_cvt (sample_observer None) sample_chain sample_now
        sample_signer ''key'' d1 7 d2 8
     \<and> stored_item sample_btcd (map_of d1) (unsigned_hash sample_btcd (event_item 4)) = Some y
     \<and> stored_item sample_btcd (map_of d2) (unsigned_hash sample_btcd (event_item 4)) = Some (y\<lparr>Done := b\<rparr>)"
proof -
  let ?lives = "lives sample_btcd alist_db sample_node sample_cvt (sample_observer None) sample_chain sample_now
        sample_signer ''key''"
  have height: "top (listen_start sample_node (sample_observer None) st) = 4" for st :: "((bytes \<times> bytes) list, nat) ob_state"
    by (simp add: listen_start_def sample_observer_def Let_def ob_state.defs listening.defs)
  obtain w where run: "system_run sample_btcd alist_db sample_node sample_cvt (sample_observer None) sample_chain sample_now
      sample_signer ''key'' (start_system 4 empty_vdb 0) (sample_accepted w)"
    using sample_accepted_run by blast
  obtain d1 where d1: "killed sample_btcd alist_db sample_now (sample_accepted w) d1"
    "stored_item sample_btcd (map_of d1) (unsigned_hash sample_btcd (event_item 4)) \<noteq> None"
    using sample_killed by blast
  have first: "?lives [] 0 d1 7"
    by (rule one_life [OF no_life sample_opened _ d1(1)]) (simp add: height run)
  have ok: "disk_ok sample_btcd alist_db d1"
    using disk_survives_lives [OF first sample_disk_ok sample_storable] by blast
  from opens [OF ok] obtain v where v: "new_vendor_db alist_db (Inr d1) = Ret (Inr v)" "db v = d1" by blast
  have "killed sample_btcd alist_db sample_now (start_system 4 v 7) d1"
    using killed_between_steps [of sample_btcd alist_db sample_now "start_system 4 v 7"] v(2) by (simp add: start_system_def)
  then have second: "?lives d1 7 d1 8"
    by (intro one_life [OF no_life v(1), of _ _ _ _ _ _ _ _ _ "start_system 4 v 7"]) (simp_all add: height run_start)
  obtain y where y: "stored_item sample_btcd (map_of d1) (unsigned_hash sample_btcd (event_item 4)) = Some y"
    using d1(2) by blast
  have "grown sample_btcd (map_of d1) (map_of d1)"
    using disk_survives_lives [OF second ok sample_storable] by simp
  with y obtain b where "stored_item sample_btcd (map_of d1) (unsigned_hash sample_btcd (event_item 4)) = Some (y\<lparr>Done := b\<rparr>)"
    unfolding grown_def by blast
  with y first second show ?thesis by blast
qed

theorem kill_loses_at_most_101_witness:
  "\<exists>w d v'. system_run sample_btcd alist_db sample_node sample_cvt (sample_observer None) sample_chain sample_now
        sample_signer ''key'' (start_system 4 empty_vdb 0) (sample_accepted w)
     \<and> killed sample_btcd alist_db sample_now (sample_accepted w) d \<and> new_vendor_db alist_db (Inr d) = Ret (Inr v')"
proof -
  obtain w where run: "system_run sample_btcd alist_db sample_node sample_cvt (sample_observer None) sample_chain sample_now
      sample_signer ''key'' (start_system 4 empty_vdb 0) (sample_accepted w)"
    using sample_accepted_run by blast
  obtain d where d: "killed sample_btcd alist_db sample_now (sample_accepted w) d" using sample_killed by blast
  have "\<forall>item \<in> set (captured (sample_accepted w)). signable sample_btcd sample_now sample_signer item"
    by (simp add: sample_accepted_def sample_signable)
  from kill_loses_at_most_101 [OF empty_vdb_sound run d sample_chain_accepts this] run d show ?thesis by blast
qed

end
