(* ===== verification/End_To_End.thy ===== *)
theory End_To_End
  imports Pipeline_Properties
begin

text \<open>
  From the blocks of the Poly chain to the database, in mode \<open>all\<close>: however many transactions the
  blocks hold, observer and signer together can bring all of them into the database, the channel of
  100 notwithstanding.
\<close>

section \<open>A block\<close>

lemma items_of_actions:
  "notify_actions B cvt (hashKey ob) ns = Ret acts \<Longrightarrow>
     list_all (\<lambda>n. \<exists>act. notify_action B cvt (hashKey ob) (States n) = Ret act) ns
     \<and> items_of B cvt ob ns = captures acts"
proof (induction ns arbitrary: acts)
  case (Cons n ns)
  then obtain act acts' where "notify_action B cvt (hashKey ob) (States n) = Ret act"
    "notify_actions B cvt (hashKey ob) ns = Ret acts'" "acts = act # acts'"
    by (auto simp: go_bind_Ret_iff)
  with Cons.IH [of acts'] show ?case by (cases act) (simp_all add: items_of_def)
qed (simp add: items_of_def)

lemma settle_block:
  assumes "kept_inv B L s" and "todo s = []" and "scan s = Some (h, newTop)" and "h \<le> newTop"
    and "chain_accepts multi_sign" and "chain_follows N evs" and "block_actions B cvt (hashKey ob) evs h = Ret acts"
    and "\<forall>item \<in> set (captured s @ captures acts). signable B now sg item"
  shows "\<exists>s'. system_run B L N cvt ob multi_sign now sg key s s' \<and> kept_inv B L s' \<and> job s' = Idle
     \<and> channel s' = [] \<and> todo s' = [] \<and> captured s' = captured s @ captures acts \<and> scan s' = Some (h + 1, newTop)"
proof -
  obtain w where w: "retry_events (events_by_block N h) (sys_world s) = Some (Inr (evs h), w)"
    by (rule chain_follows_retry [OF assms(6)])
  let ?ns = "concat (map Notify (evs h))"
  let ?t = "s\<lparr>sys_world := w, scan := Some (h + 1, newTop), todo := ?ns\<rparr>"
  have fetched: "system_run B L N cvt ob multi_sign now sg key s ?t" using w assms(3,4,2) by (rule fetch_steps)
  have kept: "kept_inv B L ?t" using assms(1) by (simp add: kept_inv_def flow_inv_def)
  have "notify_actions B cvt (hashKey ob) ?ns = Ret acts" using assms(7) by (simp add: block_actions_def)
  from items_of_actions [OF this] have items: "list_all (\<lambda>n. \<exists>act. notify_action B cvt (hashKey ob) (States n) = Ret act) (todo ?t)"
    "items_of B cvt ob (todo ?t) = captures acts" by simp_all
  from settle_todo [OF kept assms(5) items(1), where now = now and sg = sg and N = N and key = key] items(2) assms(8) obtain s' where
    "system_run B L N cvt ob multi_sign now sg key ?t s'" "kept_inv B L s'" "job s' = Idle" "channel s' = []"
    "todo s' = []" "captured s' = captured s @ captures acts" "place_of s' = place_of ?t" by auto
  with fetched show ?thesis by (auto simp: place_of_def intro!: exI [of _ s'] intro: system_run_trans)
qed

section \<open>All blocks\<close>

lemma settle_blocks:
  assumes "chain_accepts multi_sign" and "chain_follows N evs" and "newTop \<noteq> - 1"
    and "\<forall>k. \<exists>acts. block_actions B cvt (hashKey ob) evs k = Ret acts"
    and "kept_inv B L s" and "todo s = []" and "job s = Idle" and "channel s = []" and "scan s = Some (h, newTop)"
    and "\<forall>item \<in> set (captured s @ captures (actions_of B cvt (hashKey ob) evs (heights (unat h) (Suc (unat newTop))))).
           signable B now sg item"
  shows "\<exists>s' h'. system_run B L N cvt ob multi_sign now sg key s s' \<and> kept_inv B L s' \<and> job s' = Idle
     \<and> channel s' = [] \<and> todo s' = [] \<and> scan s' = Some (h', newTop) \<and> \<not> h' \<le> newTop
     \<and> captured s' = captured s @ captures (actions_of B cvt (hashKey ob) evs (heights (unat h) (Suc (unat newTop))))"
  using assms(5-)
proof (induction "Suc (unat newTop) - unat h" arbitrary: h s)
  case 0
  then have "\<not> h \<le> newTop" by (simp add: word_le_nat_alt)
  with 0 show ?case by (intro exI [of _ s] exI [of _ h]) (simp add: heights_simps(1) actions_of_def run_start)
next
  case (Suc d)
  then have le: "h \<le> newTop" by (simp add: word_le_nat_alt)
  then have "h \<noteq> - 1" using assms(3) word_order.extremum_uniqueI by blast
  then have Suc_h: "unat (h + 1) = Suc (unat h)" by (rule unat_Suc_u32)
  obtain acts where acts: "block_actions B cvt (hashKey ob) evs h = Ret acts" using assms(4) by blast
  have hs: "heights (unat h) (Suc (unat newTop)) = h # heights (unat (h + 1)) (Suc (unat newTop))"
    using le by (simp add: heights_simps(2) word_le_nat_alt Suc_h)
  let ?rest = "captures (actions_of B cvt (hashKey ob) evs (heights (unat (h + 1)) (Suc (unat newTop))))"
  have all: "captures (actions_of B cvt (hashKey ob) evs (heights (unat h) (Suc (unat newTop)))) = captures acts @ ?rest"
    unfolding hs by (simp add: actions_of_def acts)
  have "\<forall>item \<in> set (captured s @ captures acts). signable B now sg item" using Suc.prems(6) all by auto
  from settle_block [OF Suc.prems(1,2,5) le assms(1,2) acts this, of key] obtain t where
    t: "system_run B L N cvt ob multi_sign now sg key s t" "kept_inv B L t" "job t = Idle" "channel t = []" "todo t = []"
      "captured t = captured s @ captures acts" "scan t = Some (h + 1, newTop)" by blast
  have "d = Suc (unat newTop) - unat (h + 1)" using Suc.hyps(2) by (simp add: Suc_h)
  from Suc.hyps(1) [OF this t(2,5,3,4,7)] Suc.prems(6) all t(6) obtain s' h' where
    "system_run B L N cvt ob multi_sign now sg key t s'" "kept_inv B L s'" "job s' = Idle" "channel s' = []" "todo s' = []"
    "scan s' = Some (h', newTop)" "\<not> h' \<le> newTop" "captured s' = captured t @ ?rest" by auto
  with t(1,6) all show ?case by (intro exI [of _ s'] exI [of _ h']) (auto intro: system_run_trans)
qed

lemma end_of_tick:
  assumes "todo s = []" and "scan s = Some (h, newTop)" and "\<not> h \<le> newTop"
  shows "\<exists>s'. observer_step B L N cvt ob s s' \<and> scan s' = None \<and> obs_top s' = newTop \<and> captured s' = captured s
     \<and> channel s' = channel s \<and> job s' = job s \<and> todo s' = []"
proof (cases "to_sign s > 0 \<or> newTop - recorded s \<ge> waitingCircle ob")
  case True
  from finish_record [OF assms(2,3,1) True, of B L N cvt] show ?thesis by (intro exI conjI) (assumption | simp add: assms)+
next
  case False
  from finish [OF assms(2,3,1) False, of B L N cvt] show ?thesis by (intro exI conjI) (assumption | simp add: assms)+
qed

text \<open>
  C6: From every state that the two goroutines reach while the observer works on the blocks up to a
  height, on a node that follows the chain and with a chain that accepts what gets through, they can
  finish: the observer stands at that height, all transactions to sign of the blocks that were left
  have been captured in order, and every transaction ever captured is in the database. The blocks may
  hold any number of transactions.
\<close>

theorem blocks_reach_database:
  assumes "system_run B L N cvt ob multi_sign now sg key (start_system t v w) s" and "vdb_sound B L v"
    and "chain_accepts multi_sign" and "chain_follows N evs" and "scan s = Some (h, newTop)" and "newTop \<noteq> - 1"
    and "notify_actions B cvt (hashKey ob) (todo s) = Ret now_acts"
    and "\<forall>k. \<exists>acts. block_actions B cvt (hashKey ob) evs k = Ret acts"
    and "left = captures now_acts @ captures (actions_of B cvt (hashKey ob) evs (heights (unat h) (Suc (unat newTop))))"
    and "\<forall>item \<in> set (captured s @ left). signable B now sg item"
  shows "\<exists>s'. system_run B L N cvt ob multi_sign now sg key s s' \<and> scan s' = None \<and> obs_top s' = newTop
     \<and> captured s' = captured s @ left \<and> channel s' = [] \<and> job s' = Idle
     \<and> (\<forall>item \<in> set (captured s'). stored B L (sys_vdb s') (unsigned_hash B item) \<noteq> None)"
proof -
  have kept: "kept_inv B L s"
    by (rule system_run_kept [OF assms(1) start_kept [OF assms(2)] assms(3)]) (use assms(10) in auto)
  note items = items_of_actions [OF assms(7)]
  have "\<forall>item \<in> set (captured s @ items_of B cvt ob (todo s)). signable B now sg item"
    using assms(9,10) items by auto
  from settle_todo [OF kept assms(3) conjunct1 [OF items] this, where N = N and key = key] items obtain s1 where
    s1: "system_run B L N cvt ob multi_sign now sg key s s1" "kept_inv B L s1" "job s1 = Idle" "channel s1 = []"
      "todo s1 = []" "captured s1 = captured s @ captures now_acts" "place_of s1 = place_of s" by auto
  then have "scan s1 = Some (h, newTop)" using assms(5) by (simp add: place_of_def)
  note blocks = settle_blocks [OF assms(3,4,6,8) s1(2,5,3,4) this, where now = now and sg = sg and key = key]
  from blocks s1(6) assms(9,10) obtain s2 h' where
    s2: "system_run B L N cvt ob multi_sign now sg key s1 s2" "kept_inv B L s2" "job s2 = Idle" "channel s2 = []"
      "todo s2 = []" "scan s2 = Some (h', newTop)" "\<not> h' \<le> newTop" "captured s2 = captured s @ left" by auto
  from end_of_tick [OF s2(5,6,7), of B L N cvt ob] s2(3,4) obtain s3 where
    s3: "observer_step B L N cvt ob s2 s3" "scan s3 = None" "obs_top s3 = newTop" "captured s3 = captured s2"
      "channel s3 = []" "job s3 = Idle" by auto
  have "kept_inv B L s3" using s3(1) s2(2) by (rule observer_step_kept)
  then have "\<forall>item \<in> set (captured s3). stored B L (sys_vdb s3) (unsigned_hash B item) \<noteq> None"
    using s3(5,6) by (simp add: kept_inv_def flow_inv_def)
  moreover have "system_run B L N cvt ob multi_sign now sg key s s3"
    using system_run_trans [OF s1(1) run_observer [OF s2(1) s3(1)]] .
  ultimately show ?thesis using s3 s2(8) by (intro exI [of _ s3]) simp
qed

theorem blocks_reach_database_witness:
  "\<exists>s'. system_run sample_btcd alist_db sample_node sample_cvt (sample_observer None) sample_chain sample_now
        sample_signer ''key'' (start_system 4 empty_vdb 0) s'
     \<and> obs_top s' = 5 \<and> captured s' = [event_item 4] \<and> stored sample_btcd alist_db (sys_vdb s') [1, 0, 1, 4] \<noteq> None"
proof -
  have act: "notify_action sample_btcd sample_cvt (hashKey (sample_observer None)) (States (to_sign_event 4))
      = Ret (Capture (event_item 4))"
    using sample_capture by (simp add: sample_observer_def)
  have scan: "scan fetched_system = Some (6, 5)" by (simp add: fetched_system_def)
  have now_acts: "notify_actions sample_btcd sample_cvt (hashKey (sample_observer None)) (todo fetched_system)
      = Ret [Capture (event_item 4)]"
    by (simp add: fetched_system_def act)
  have blocks: "\<forall>k. \<exists>acts. block_actions sample_btcd sample_cvt (hashKey (sample_observer None)) sample_evs k = Ret acts"
    by (simp add: sample_block_actions)
  have left: "[event_item 4] = captures [Capture (event_item 4)]
      @ captures (actions_of sample_btcd sample_cvt (hashKey (sample_observer None)) sample_evs (heights (unat (6 :: u32)) (Suc (unat (5 :: u32)))))"
    by (simp add: heights_simps(1) actions_of_def)
  have signs: "\<forall>item \<in> set (captured fetched_system @ [event_item 4]). signable sample_btcd sample_now sample_signer item"
    by (simp add: fetched_system_def start_system_def sample_signable)
  have top: "(5 :: u32) \<noteq> - 1" by simp
  from blocks_reach_database [OF sample_fetch empty_vdb_sound sample_chain_accepts sample_chain_follows scan top now_acts
      blocks left] signs
  obtain s' where "system_run sample_btcd alist_db sample_node sample_cvt (sample_observer None) sample_chain sample_now
        sample_signer ''key'' fetched_system s'" "obs_top s' = 5" "captured s' = captured fetched_system @ [event_item 4]"
     "\<forall>item \<in> set (captured s'). stored sample_btcd alist_db (sys_vdb s') (unsigned_hash sample_btcd item) \<noteq> None" by blast
  then show ?thesis
    using system_run_trans [OF sample_fetch] sample_unsigned_hash [of 4]
    by (intro exI [of _ s']) (auto simp: fetched_system_def start_system_def)
qed

end
