(* ===== verification/No_Loss.thy ===== *)
theory No_Loss
  imports End_To_End
begin

text \<open>
  Mode \<open>all\<close>, in every state the two goroutines reach: each transaction to sign of the blocks that
  the observer has fetched is in the database, in the hands of the signer, in the channel, or still to
  be looked at, unless it was refused.
\<close>

section \<open>What was refused\<close>

text \<open>The step that comes next gives the item up: it cannot be signed, or the chain answers an error.\<close>

definition refused :: "btcd \<Rightarrow> 'w multi_sign \<Rightarrow> signer \<Rightarrow> string \<Rightarrow> ('d, 'w) system \<Rightarrow> bool" where
  "refused B multi_sign sg key s \<longleftrightarrow>
     (case job s of
        Taken item \<Rightarrow> (case fst (get_sigs B sg item) of Ret (Inl err) \<Rightarrow> True | _ \<Rightarrow> False)
      | Posting item item' sigs \<Rightarrow>
          (case fst (multi_sign 1 key (tx_hash B (Mtx item)) (addr sg) sigs (acct sg) (sys_world s)) of
             CallErr err \<Rightarrow> True | _ \<Rightarrow> False)
      | _ \<Rightarrow> False)"

text \<open>The item was refused in a state between the two.\<close>

definition refused_between ::
  "btcd \<Rightarrow> 'd leveldb \<Rightarrow> 'w node \<Rightarrow> (rat \<Rightarrow> u64) \<Rightarrow> observer \<Rightarrow> 'w multi_sign \<Rightarrow> ('w \<Rightarrow> gotime) \<Rightarrow> signer \<Rightarrow> string
     \<Rightarrow> ('d, 'w) system \<Rightarrow> ('d, 'w) system \<Rightarrow> to_sign_item \<Rightarrow> bool" where
  "refused_between B L N cvt ob multi_sign now sg key s0 s item \<longleftrightarrow>
     (\<exists>r. system_run B L N cvt ob multi_sign now sg key s0 r \<and> system_run B L N cvt ob multi_sign now sg key r s
        \<and> in_job (job r) = [item] \<and> refused B multi_sign sg key r)"

lemma refused_between_run:
  "refused_between B L N cvt ob multi_sign now sg key s0 s item \<Longrightarrow> system_run B L N cvt ob multi_sign now sg key s s'
     \<Longrightarrow> refused_between B L N cvt ob multi_sign now sg key s0 s' item"
  unfolding refused_between_def by (blast intro: system_run_trans)

text \<open>What the signer is finished with is stored or was refused.\<close>

definition stored_or_refused ::
  "btcd \<Rightarrow> 'd leveldb \<Rightarrow> 'w node \<Rightarrow> (rat \<Rightarrow> u64) \<Rightarrow> observer \<Rightarrow> 'w multi_sign \<Rightarrow> ('w \<Rightarrow> gotime) \<Rightarrow> signer \<Rightarrow> string
     \<Rightarrow> ('d, 'w) system \<Rightarrow> ('d, 'w) system \<Rightarrow> bool" where
  "stored_or_refused B L N cvt ob multi_sign now sg key s0 s \<longleftrightarrow> vdb_sound B L (sys_vdb s) \<and> job_ok (job s)
     \<and> (\<forall>item \<in> set (settled s). stored B L (sys_vdb s) (unsigned_hash B item) \<noteq> None
          \<or> refused_between B L N cvt ob multi_sign now sg key s0 s item)"

lemma observer_step_refused:
  assumes "observer_step B L N cvt ob s s'" and "stored_or_refused B L N cvt ob multi_sign now sg key s0 s"
  shows "stored_or_refused B L N cvt ob multi_sign now sg key s0 s'"
proof -
  have "system_run B L N cvt ob multi_sign now sg key s s'" using run_start assms(1) by (rule run_observer)
  note still = refused_between_run [OF _ this]
  have "vdb_sound B L (sys_vdb s') \<and> settled s' = settled s
      \<and> (\<forall>h. stored B L (sys_vdb s) h \<noteq> None \<longrightarrow> stored B L (sys_vdb s') h \<noteq> None)"
    using assms(1)
  proof (cases rule: observer_step.cases)
    case (mark n ns txid)
    with vdb.done_law [of B L "sys_vdb s" txid, OF _ prod.collapse [symmetric]] assms(2) show ?thesis
      by (auto simp: stored_or_refused_def split: option.splits)
  qed (use assms(2) in \<open>simp_all add: stored_or_refused_def\<close>)
  with assms(2) still observer_step_job [OF assms(1)] show ?thesis
    unfolding stored_or_refused_def by auto
qed

lemma signer_step_refused:
  assumes "signer_step B L multi_sign now sg key s s'" and "system_run B L N cvt ob multi_sign now sg key s0 s"
    and "stored_or_refused B L N cvt ob multi_sign now sg key s0 s"
    and "\<forall>item \<in> set (in_job (job s)). \<forall>w. saved_ok B (new_saved item (now w))"
  shows "stored_or_refused B L N cvt ob multi_sign now sg key s0 s'"
proof -
  have run: "system_run B L N cvt ob multi_sign now sg key s s'" using run_start assms(1) by (rule run_signer)
  note still = refused_between_run [OF _ run]
  have job: "job_ok (job s')" using signer_step_job [OF assms(1)] assms(3) by (simp add: stored_or_refused_def)
  have given_up: "refused_between B L N cvt ob multi_sign now sg key s0 s' item"
    if "in_job (job s) = [item]" and "refused B multi_sign sg key s" for item
    using assms(2) run that unfolding refused_between_def by blast
  from assms(1) show ?thesis
  proof (cases rule: signer_step.cases)
    case (not_signed item err item')
    then have "refused B multi_sign sg key s" by (simp add: refused_def)
    with not_signed given_up assms(3) still job show ?thesis by (auto simp: stored_or_refused_def)
  next
    case (rejected item item' sigs err w)
    then have "refused B multi_sign sg key s" by (simp add: refused_def)
    with rejected given_up assms(3) still job show ?thesis by (auto simp: stored_or_refused_def)
  next
    case (store_item item item')
    with assms(3) have item': "item' = stripped_item item" by (simp add: stored_or_refused_def)
    let ?x = "new_saved item (now (sys_world s))"
    have v: "sys_vdb s' = snd (put_signed_tx B L (sys_vdb s) (unsigned_hash B item) ?x)"
      using store_item item' by (simp add: unsigned_hash_def new_saved_def)
    have "put_ok B (unsigned_hash B item) ?x" using assms(4) store_item by (simp add: put_ok_def)
    from vdb.put_law [OF _ this prod.collapse [symmetric], of L "sys_vdb s"] assms(3) v
    have "vdb_sound B L (sys_vdb s')" "stored B L (sys_vdb s') (unsigned_hash B item) \<noteq> None"
      "\<And>h. stored B L (sys_vdb s) h \<noteq> None \<Longrightarrow> stored B L (sys_vdb s') h \<noteq> None"
      by (auto simp: stored_or_refused_def split: if_splits)
    with assms(3) store_item still job show ?thesis by (auto simp: stored_or_refused_def)
  qed (use assms(3) still job in \<open>auto simp: stored_or_refused_def\<close>)
qed

section \<open>What was fetched\<close>

text \<open>The last block that was fetched, and the transactions to sign of the blocks after \<open>t\<close> up to \<open>n\<close>.\<close>

definition last_block :: "('d, 'w) system \<Rightarrow> nat" where
  "last_block s = (case scan s of None \<Rightarrow> unat (obs_top s) | Some (h, newTop) \<Rightarrow> unat h - 1)"

definition blocks_items :: "btcd \<Rightarrow> (rat \<Rightarrow> u64) \<Rightarrow> observer \<Rightarrow> (u32 \<Rightarrow> contract_event list) \<Rightarrow> u32 \<Rightarrow> nat \<Rightarrow> to_sign_item list" where
  "blocks_items B cvt ob evs t n = captures (actions_of B cvt (hashKey ob) evs (heights (Suc (unat t)) (Suc n)))"

lemma blocks_items_next:
  assumes "unat t < unat h" and "block_actions B cvt (hashKey ob) evs h = Ret acts"
  shows "blocks_items B cvt ob evs t (unat h) = blocks_items B cvt ob evs t (unat h - 1) @ captures acts"
proof -
  have "heights (Suc (unat t)) (Suc (unat h)) = heights (Suc (unat t)) (unat h) @ [h]"
    using assms(1) heights_append [of "Suc (unat t)" "unat h" "Suc (unat h)"] by (simp add: heights_simps)
  moreover have "actions_of B cvt (hashKey ob) evs [h] = acts" using assms(2) by (simp add: actions_of_def)
  ultimately show ?thesis using assms(1) by (simp add: blocks_items_def)
qed

text \<open>Where the observer stands between the start height and the height of the node.\<close>

definition scan_inv :: "u32 \<Rightarrow> ('w \<Rightarrow> u32) \<Rightarrow> ('d, 'w) system \<Rightarrow> bool" where
  "scan_inv t f s \<longleftrightarrow>
     (case scan s of None \<Rightarrow> todo s = [] \<and> t \<le> obs_top s \<and> obs_top s \<le> f (sys_world s)
      | Some (h, newTop) \<Rightarrow> unat t < unat h \<and> unat h \<le> Suc (unat newTop) \<and> newTop \<le> f (sys_world s))"

definition fetched_inv ::
  "btcd \<Rightarrow> (rat \<Rightarrow> u64) \<Rightarrow> observer \<Rightarrow> (u32 \<Rightarrow> contract_event list) \<Rightarrow> u32 \<Rightarrow> ('w \<Rightarrow> u32) \<Rightarrow> ('d, 'w) system \<Rightarrow> bool" where
  "fetched_inv B cvt ob evs t f s \<longleftrightarrow> scan_inv t f s
     \<and> blocks_items B cvt ob evs t (last_block s) = captured s @ items_of B cvt ob (todo s)"

text \<open>Every block can be looked at, and what it holds to sign can be stored.\<close>

definition storable_blocks ::
  "btcd \<Rightarrow> (rat \<Rightarrow> u64) \<Rightarrow> observer \<Rightarrow> (u32 \<Rightarrow> contract_event list) \<Rightarrow> ('w \<Rightarrow> gotime) \<Rightarrow> bool" where
  "storable_blocks B cvt ob evs now \<longleftrightarrow>
     (\<forall>h. \<exists>acts. block_actions B cvt (hashKey ob) evs h = Ret acts
        \<and> (\<forall>item \<in> set (captures acts). \<forall>w. saved_ok B (new_saved item (now w))))"

lemma storable_blocks_items:
  assumes "storable_blocks B cvt ob evs now" and "item \<in> set (blocks_items B cvt ob evs t n)"
  shows "saved_ok B (new_saved item (now w))"
proof -
  have "saved_ok B (new_saved item (now w))" if "item \<in> set (captures (actions_of B cvt (hashKey ob) evs hs))" for hs
    using that
  proof (induction hs)
    case (Cons h hs)
    obtain acts where acts: "block_actions B cvt (hashKey ob) evs h = Ret acts"
      "\<forall>item \<in> set (captures acts). \<forall>w. saved_ok B (new_saved item (now w))"
      using assms(1) unfolding storable_blocks_def by blast
    then have "actions_of B cvt (hashKey ob) evs (h # hs) = acts @ actions_of B cvt (hashKey ob) evs hs"
      by (simp add: actions_of_def)
    with acts(2) Cons show ?case by auto
  qed simp
  with assms(2) show ?thesis unfolding blocks_items_def by blast
qed

lemma u32_after: "t \<le> u \<Longrightarrow> u < (v :: u32) \<Longrightarrow> unat (u + 1) = Suc (unat u) \<and> unat t < unat (u + 1) \<and> unat (u + 1) \<le> Suc (unat v)"
proof -
  assume le: "t \<le> u" and less: "u < v"
  then have "u \<noteq> - 1" using word_order.extremum_strict [of v] by metis
  with le less show ?thesis by (simp add: unat_Suc_u32 word_le_nat_alt word_less_nat_alt)
qed

lemma observer_step_fetched:
  assumes "observer_step B L N cvt ob s s'" and "fetched_inv B cvt ob evs t f s"
    and "node_ok N evs f" and "storable_blocks B cvt ob evs now"
  shows "fetched_inv B cvt ob evs t f s'"
proof -
  have grows: "\<And>w. f w \<le> f (snd (current_height N w))" "\<And>w n. fst (current_height N w) = Inr n \<Longrightarrow> n = f w"
    "\<And>h w. f w \<le> f (snd (events_by_block N h w))" "\<And>d n b w. f w \<le> f (snd (write_file N d n b w))" "\<And>w. f w \<noteq> - 1"
    and follows: "\<And>h w es. fst (events_by_block N h w) = Inr es \<Longrightarrow> es = evs h"
    using assms(3) by (simp_all add: node_ok_def chain_follows_def)
  note inv = assms(2) [unfolded fetched_inv_def scan_inv_def]
  from assms(1) show ?thesis
  proof (cases rule: observer_step.cases)
    case (poll_error err w)
    with inv grows(1) [of "sys_world s"] show ?thesis
      by (auto simp: fetched_inv_def scan_inv_def last_block_def)
  next
    case (poll_same newTop w)
    with inv grows(1) [of "sys_world s"] show ?thesis
      by (auto simp: fetched_inv_def scan_inv_def last_block_def)
  next
    case (poll_new newTop w)
    from poll_new(3) grows(1,2) [of "sys_world s"] have new: "newTop = f (sys_world s)" "f (sys_world s) \<le> f w" by simp_all
    with poll_new inv have less: "t \<le> obs_top s" "obs_top s < newTop" by auto
    from poll_new u32_after [OF this] inv new show ?thesis
      by (simp add: fetched_inv_def scan_inv_def last_block_def)
  next
    case (fetch_again h newTop err w)
    with inv grows(3) [of "sys_world s" h] show ?thesis
      by (auto simp: fetched_inv_def scan_inv_def last_block_def)
  next
    case (fetch h newTop events w)
    from fetch(5) follows [of h "sys_world s"] grows(3) [of "sys_world s" h] have events: "events = evs h"
      and w: "f (sys_world s) \<le> f w" by simp_all
    from fetch inv have at: "unat t < unat h" "newTop \<le> f (sys_world s)" by simp_all
    have "f (sys_world s) < - 1" using grows(5) by (simp add: word_order.not_eq_extremum)
    with at(2) fetch(3) have "h \<noteq> - 1" by auto
    then have next_h: "unat (h + 1) = Suc (unat h)" by (rule unat_Suc_u32)
    obtain acts where acts: "block_actions B cvt (hashKey ob) evs h = Ret acts"
      using assms(4) unfolding storable_blocks_def by blast
    then have "items_of B cvt ob (concat (map Notify (evs h))) = captures acts"
      using items_of_actions unfolding block_actions_def by blast
    with blocks_items_next [OF at(1) acts] inv fetch next_h events w at show ?thesis
      by (auto simp: fetched_inv_def scan_inv_def last_block_def items_of_def word_le_nat_alt)
  next
    case (finish h newTop)
    with inv have "unat h = Suc (unat newTop)" by (simp add: word_le_nat_alt)
    with finish inv show ?thesis
      by (auto simp: fetched_inv_def scan_inv_def last_block_def word_le_nat_alt)
  next
    case (finish_record h newTop)
    with inv have "unat h = Suc (unat newTop)" by (simp add: word_le_nat_alt)
    moreover have "f (sys_world s) \<le> f (snd (set_last_height N ob newTop (sys_world s)))"
      by (simp add: set_last_height_def grows(4))
    ultimately show ?thesis using finish_record inv
      by (auto simp: fetched_inv_def scan_inv_def last_block_def word_le_nat_alt)
  qed (use inv in \<open>auto simp: fetched_inv_def scan_inv_def last_block_def items_of_def split: option.splits\<close>)
qed

text \<open>The height of the node does not go down while the chain is called to sign.\<close>

definition keeps_height :: "'w multi_sign \<Rightarrow> ('w \<Rightarrow> u32) \<Rightarrow> bool" where
  "keeps_height multi_sign f \<longleftrightarrow> (\<forall>i k h a sigs acc w. f w \<le> f (snd (multi_sign i k h a sigs acc w)))"

lemma signer_step_fetched:
  assumes "signer_step B L multi_sign now sg key s s'" and "fetched_inv B cvt ob evs t f s"
    and "keeps_height multi_sign f"
  shows "fetched_inv B cvt ob evs t f s'"
proof -
  have same: "scan s' = scan s" "todo s' = todo s" "obs_top s' = obs_top s" "captured s' = captured s"
    using assms(1) by (auto elim: signer_stepE)
  have "f (sys_world s) \<le> f (sys_world s')"
    using assms(1) by (cases rule: signer_step.cases)
      (use assms(3) in \<open>simp_all add: keeps_height_def, (metis snd_conv)+\<close>)
  with assms(2) same show ?thesis
    by (auto simp: fetched_inv_def scan_inv_def last_block_def split: option.splits)
qed

section \<open>No loss\<close>

definition no_loss_inv ::
  "btcd \<Rightarrow> 'd leveldb \<Rightarrow> 'w node \<Rightarrow> (rat \<Rightarrow> u64) \<Rightarrow> observer \<Rightarrow> 'w multi_sign \<Rightarrow> ('w \<Rightarrow> gotime) \<Rightarrow> signer \<Rightarrow> string
     \<Rightarrow> (u32 \<Rightarrow> contract_event list) \<Rightarrow> u32 \<Rightarrow> ('w \<Rightarrow> u32) \<Rightarrow> ('d, 'w) system \<Rightarrow> ('d, 'w) system \<Rightarrow> bool" where
  "no_loss_inv B L N cvt ob multi_sign now sg key evs t f s0 s \<longleftrightarrow>
     flow_inv s \<and> fetched_inv B cvt ob evs t f s \<and> stored_or_refused B L N cvt ob multi_sign now sg key s0 s"

lemma start_no_loss:
  "vdb_sound B L v \<Longrightarrow> t \<le> f w \<Longrightarrow>
     no_loss_inv B L N cvt ob multi_sign now sg key evs t f (start_system t v w) (start_system t v w)"
  using start_flow [of t v w]
  by (simp add: no_loss_inv_def fetched_inv_def scan_inv_def last_block_def blocks_items_def stored_or_refused_def
      start_system_def items_of_def heights_simps)

lemma system_run_no_loss:
  assumes "system_run B L N cvt ob multi_sign now sg key s0 s"
    and "no_loss_inv B L N cvt ob multi_sign now sg key evs t f s0 s0"
    and "node_ok N evs f" and "storable_blocks B cvt ob evs now"
    and "keeps_height multi_sign f"
  shows "no_loss_inv B L N cvt ob multi_sign now sg key evs t f s0 s"
  using assms(1,2)
proof (induction rule: system_run.induct)
  case (run_observer s0 s u)
  then have inv: "no_loss_inv B L N cvt ob multi_sign now sg key evs t f s0 s" by simp
  note step = run_observer.hyps(2)
  show ?case
    using inv observer_step_flow [OF step] observer_step_fetched [OF step _ assms(3,4)]
      observer_step_refused [OF step] by (simp add: no_loss_inv_def)
next
  case (run_signer s0 s u)
  then have inv: "no_loss_inv B L N cvt ob multi_sign now sg key evs t f s0 s" by simp
  then have "set (in_job (job s)) \<subseteq> set (blocks_items B cvt ob evs t (last_block s))"
    by (auto simp: no_loss_inv_def flow_inv_def fetched_inv_def)
  then have "\<forall>item \<in> set (in_job (job s)). \<forall>w. saved_ok B (new_saved item (now w))"
    using storable_blocks_items [OF assms(4)] by blast
  note step = run_signer.hyps(2) and stored = signer_step_refused [OF run_signer.hyps(2,1) _ this]
  show ?case
    using inv signer_step_flow [OF step] signer_step_fetched [OF step _ assms(5)] stored
    by (simp add: no_loss_inv_def)
qed

text \<open>
  C9: In every state that the two goroutines reach together from a start height, in whatever order their
  steps come, the transactions to sign of all blocks after that height up to the last one fetched are, in
  chain order and none left out, those that are dealt with, the one in the signer's hands, those in the
  channel, which never holds more than 100, and those of the notifications still to be looked at. What is
  dealt with is in the database under its unsigned hash, or was refused in this run: it could not be
  signed, or the chain answered an error that is not a transport error.
\<close>

theorem pipeline_no_loss:
  assumes "system_run B L N cvt ob multi_sign now sg key (start_system t v w) s" and "vdb_sound B L v"
    and "node_ok N evs f" and "t \<le> f w" and "storable_blocks B cvt ob evs now"
    and "keeps_height multi_sign f"
  shows "\<exists>front. blocks_items B cvt ob evs t (last_block s)
        = front @ in_job (job s) @ channel s @ items_of B cvt ob (todo s)
     \<and> length (channel s) \<le> 100
     \<and> (\<forall>item \<in> set front. (\<exists>x. stored B L (sys_vdb s) (unsigned_hash B item) = Some x)
          \<or> refused_between B L N cvt ob multi_sign now sg key (start_system t v w) s item)"
  using system_run_no_loss [OF assms(1) start_no_loss [where f = f, OF assms(2,4)] assms(3,5,6)]
  by (intro exI [of _ "settled s"])
    (simp add: no_loss_inv_def flow_inv_def fetched_inv_def stored_or_refused_def CHANNEL_SIZE_def)

text \<open>A chain that answers at once, and a run to rest with it.\<close>

definition answering_chain :: "nat multi_sign" where
  "answering_chain i key h a sigs acc w = (Answer ''txid'', w)"

lemma answering_chain_accepts: "chain_accepts answering_chain"
  by (simp add: chain_accepts_def answering_chain_def)

lemma sample_rest:
  "\<exists>s'. system_run sample_btcd alist_db sample_node sample_cvt (sample_observer None) answering_chain sample_now
        sample_signer ''key'' (start_system 4 empty_vdb 0) s'
     \<and> job s' = Idle \<and> channel s' = [] \<and> todo s' = [] \<and> last_block s' = 5"
proof -
  have act: "notify_action sample_btcd sample_cvt (hashKey (sample_observer None)) (States (to_sign_event 4))
      = Ret (Capture (event_item 4))"
    using sample_capture by (simp add: sample_observer_def)
  have kept: "kept_inv sample_btcd alist_db fetched_system"
    by (rule system_run_kept [OF sample_fetch start_kept [OF empty_vdb_sound] answering_chain_accepts])
      (simp add: fetched_system_def start_system_def)
  have "list_all (\<lambda>n. \<exists>act. notify_action sample_btcd sample_cvt (hashKey (sample_observer None)) (States n) = Ret act)
      (todo fetched_system)"
    by (simp add: fetched_system_def act)
  moreover have "\<forall>item \<in> set (captured fetched_system @ items_of sample_btcd sample_cvt (sample_observer None)
      (todo fetched_system)). signable sample_btcd sample_now sample_signer item"
    by (simp add: fetched_system_def start_system_def items_of_def act sample_signable)
  ultimately obtain s' where "system_run sample_btcd alist_db sample_node sample_cvt (sample_observer None) answering_chain
      sample_now sample_signer ''key'' fetched_system s'" "job s' = Idle" "channel s' = []" "todo s' = []"
    "place_of s' = place_of fetched_system"
    using settle_todo [OF kept answering_chain_accepts] by blast
  then show ?thesis using system_run_trans [OF sample_fetch]
    by (intro exI [of _ s']) (auto simp: place_of_def last_block_def fetched_system_def)
qed

lemma sample_not_refused:
  "\<not> refused_between sample_btcd L N cvt ob answering_chain now sample_signer key s0 s (event_item 4)"
  using sample_signed by (auto simp: refused_between_def refused_def answering_chain_def split: signer_job.splits)

theorem pipeline_no_loss_witness:
  "\<exists>s'. system_run sample_btcd alist_db sample_node sample_cvt (sample_observer None) answering_chain sample_now
        sample_signer ''key'' (start_system 4 empty_vdb 0) s'
     \<and> last_block s' = 5 \<and> (\<exists>x. stored sample_btcd alist_db (sys_vdb s') [1, 0, 1, 4] = Some x)"
proof -
  obtain s' where s': "system_run sample_btcd alist_db sample_node sample_cvt (sample_observer None) answering_chain
      sample_now sample_signer ''key'' (start_system 4 empty_vdb 0) s'"
    "job s' = Idle" "channel s' = []" "todo s' = []" "last_block s' = 5" using sample_rest by blast
  have "storable_blocks sample_btcd sample_cvt (sample_observer None) sample_evs sample_now"
    by (simp add: storable_blocks_def sample_block_actions sample_new_saved sample_saved_ok)
  moreover have "keeps_height answering_chain (\<lambda>w. if w = 0 then 5 else 6)"
    by (simp add: keeps_height_def answering_chain_def)
  ultimately have loss: "\<exists>front. blocks_items sample_btcd sample_cvt (sample_observer None) sample_evs 4 (last_block s') = front
        @ in_job (job s') @ channel s' @ items_of sample_btcd sample_cvt (sample_observer None) (todo s')
     \<and> length (channel s') \<le> 100
     \<and> (\<forall>item \<in> set front. (\<exists>x. stored sample_btcd alist_db (sys_vdb s') (unsigned_hash sample_btcd item) = Some x)
          \<or> refused_between sample_btcd alist_db sample_node sample_cvt (sample_observer None) answering_chain sample_now
              sample_signer ''key'' (start_system 4 empty_vdb 0) s' item)"
    by (intro pipeline_no_loss [OF s'(1) empty_vdb_sound sample_node_ok]) simp_all
  have "blocks_items sample_btcd sample_cvt (sample_observer None) sample_evs 4 5 = [event_item 4]"
    by (simp add: blocks_items_def heights_5 actions_of_def sample_block_actions)
  with loss s' show ?thesis using sample_unsigned_hash [of 4]
    by (intro exI [of _ s']) (auto simp: items_of_def sample_not_refused)
qed

end
