(* ===== verification/Rest_Client.thy ===== *)
theory Rest_Client
  imports Vendor_Config
begin

text \<open>
  \<open>rest/http/restful/rest_client.go\<close>: the client of the SPV node. Every request is answered by a
  response whose \<open>Result\<close> is an untyped JSON value; the client asserts the types of its members,
  so that a malformed result of a successful response is a panic, not an error; only
  \<open>GetAllUtxosFromSpv\<close> decodes its result into a struct. \<open>flt\<close> is the
  \<open>float64\<close> nearest to a number literal, \<open>cvt\<close> what a conversion to an integer gives for a value
  out of its range, which the language leaves open.
\<close>

section \<open>Requests\<close>

text \<open>A request fails, or is answered by a body whose reading may fail.\<close>

record 'w http_client =
  client_post :: "string \<Rightarrow> string \<Rightarrow> 'w \<Rightarrow> (go_error + (go_error + string)) \<times> 'w"
  client_get :: "string \<Rightarrow> 'w \<Rightarrow> (go_error + (go_error + string)) \<times> 'w"

record 'w rest_client =
  Addr :: string
  restClient :: "'w http_client"

text \<open>\<open>http\<close> makes a client from its settings.\<close>

definition new_rest_client :: "(http_settings \<Rightarrow> 'w http_client) \<Rightarrow> string \<Rightarrow> 'w rest_client" where
  "new_rest_client http a = \<lparr>Addr = a, restClient = http client_settings\<rparr>"

definition set_addr :: "string \<Rightarrow> 'w rest_client \<Rightarrow> 'w rest_client" where
  "set_addr a c = c\<lparr>Addr := a\<rparr>"

definition set_rest_client :: "'w http_client \<Rightarrow> 'w rest_client \<Rightarrow> 'w rest_client" where
  "set_rest_client h c = c\<lparr>restClient := h\<rparr>"

definition send_rest_request :: "'w rest_client \<Rightarrow> string \<Rightarrow> string \<Rightarrow> 'w \<Rightarrow> (go_error + string) \<times> 'w" where
  "send_rest_request c url data w =
     (case client_post (restClient c) url data w of
        (Inl err, w) \<Rightarrow> (Inl (Errorf (''rest post request:'' @ data @ '' error:%s'') err), w)
      | (Inr (Inl err), w) \<Rightarrow> (Inl (Errorf ''read rest response body error:%s'' err), w)
      | (Inr (Inr body), w) \<Rightarrow> (Inr body, w))"

definition send_get_request :: "'w rest_client \<Rightarrow> string \<Rightarrow> 'w \<Rightarrow> (go_error + string) \<times> 'w" where
  "send_get_request c url w =
     (case client_get (restClient c) url w of
        (Inl err, w) \<Rightarrow> (Inl (Errorf ''rest get request: error: %v'' err), w)
      | (Inr (Inl err), w) \<Rightarrow> (Inl (Errorf ''read get response body error:%s'' err), w)
      | (Inr (Inr body), w) \<Rightarrow> (Inr body, w))"

text \<open>What every method does with the answer.\<close>

definition checked_response :: "(go_error + string) \<times> 'w \<Rightarrow> (go_error + json) \<times> 'w" where
  "checked_response answer =
     (case answer of (Inl err, w) \<Rightarrow> (Inl (Errorf ''Failed to send request: %v'' err), w)
      | (Inr data, w) \<Rightarrow>
     (case unmarshal_response data of
        Inl err \<Rightarrow> (Inl (Errorf ''Failed to unmarshal resp to json: %v'' err), w)
      | Inr resp \<Rightarrow>
          if Error resp \<noteq> 0 \<or> Desc resp \<noteq> ''SUCCESS''
          then (Inl (Text (''Response shows failure: '' @ Desc resp)), w) else (Inr (Result resp), w)))"

definition post_query :: "'w rest_client \<Rightarrow> string \<Rightarrow> json \<Rightarrow> 'w \<Rightarrow> (go_error + json) \<times> 'w" where
  "post_query c path query w =
     checked_response (send_rest_request c (''http://'' @ Addr c @ path) (print_json query) w)"

definition get_query :: "'w rest_client \<Rightarrow> string \<Rightarrow> 'w \<Rightarrow> (go_error + json) \<times> 'w" where
  "get_query c path w = checked_response (send_get_request c (''http://'' @ Addr c @ path) w)"

section \<open>Type assertions\<close>

text \<open>The last member of a name counts; one that is missing is nil.\<close>

definition member_of :: "string \<Rightarrow> json \<Rightarrow> json go" where
  "member_of k j =
     (case j of JObj kvs \<Rightarrow> Ret (case map_of (rev kvs) k of None \<Rightarrow> JNull | Some v \<Rightarrow> v) | _ \<Rightarrow> Panic TypeAssertion)"

definition as_string :: "json \<Rightarrow> string go" where
  "as_string j = (case j of JStr s \<Rightarrow> Ret s | _ \<Rightarrow> Panic TypeAssertion)"

definition as_float :: "(string \<Rightarrow> rat) \<Rightarrow> json \<Rightarrow> rat go" where
  "as_float flt j = (case j of JNum lit \<Rightarrow> Ret (flt lit) | _ \<Rightarrow> Panic TypeAssertion)"

definition as_array :: "json \<Rightarrow> json list go" where
  "as_array j = (case j of JArr js \<Rightarrow> Ret js | _ \<Rightarrow> Panic TypeAssertion)"

definition truncate :: "rat \<Rightarrow> int" where
  "truncate f = (if f < 0 then \<lceil>f\<rceil> else \<lfloor>f\<rfloor>)"

definition float_to_u32 :: "(rat \<Rightarrow> u32) \<Rightarrow> rat \<Rightarrow> u32" where
  "float_to_u32 cvt f = (if 0 \<le> truncate f \<and> truncate f < 2 ^ 32 then of_int (truncate f) else cvt f)"

definition float_to_i64 :: "(rat \<Rightarrow> u64) \<Rightarrow> rat \<Rightarrow> u64" where
  "float_to_i64 cvt f = (if - (2 ^ 63) \<le> truncate f \<and> truncate f < 2 ^ 63 then of_int (truncate f) else cvt f)"

text \<open>The value of a method: an error, or what is made of the result.\<close>

definition with_result :: "(json \<Rightarrow> (go_error + 'a) go) \<Rightarrow> (go_error + json) \<times> 'w \<Rightarrow> (go_error + 'a) go \<times> 'w" where
  "with_result f answer = (case answer of (Inl err, w) \<Rightarrow> (Ret (Inl err), w) | (Inr j, w) \<Rightarrow> (f j, w))"

definition no_result :: "(go_error + json) \<times> 'w \<Rightarrow> go_error option \<times> 'w" where
  "no_result answer = (case answer of (Inl err, w) \<Rightarrow> (Some err, w) | (Inr j, w) \<Rightarrow> (None, w))"

section \<open>The methods\<close>

text \<open>The structs of the requests, as they are written.\<close>

definition header_query :: "u32 \<Rightarrow> json" where
  "header_query height = JObj [(''height'', JNum (format_nat (unat height)))]"

definition utxos_query :: "string \<Rightarrow> u64 \<Rightarrow> u64 \<Rightarrow> bool \<Rightarrow> json" where
  "utxos_query a amount fee isPreExec =
     JObj [(''addr'', JStr a), (''amount'', JNum (format_int amount)), (''fee'', JNum (format_int fee)),
           (''is_pre_exec'', JBool isPreExec)]"

definition change_address_query :: "string \<Rightarrow> string \<Rightarrow> json" where
  "change_address_query act a = JObj [(''aciton'', JStr act), (''addr'', JStr a)]"

definition broadcast_query :: "string \<Rightarrow> json" where
  "broadcast_query rawTx = JObj [(''raw_tx'', JStr rawTx)]"

definition unlock_query :: "string \<Rightarrow> u32 \<Rightarrow> json" where
  "unlock_query hash i = JObj [(''hash'', JStr hash), (''index'', JNum (format_nat (unat i)))]"

definition fee_query :: "u64 \<Rightarrow> json" where
  "fee_query lvl = JObj [(''level'', JNum (format_int lvl))]"

definition rollback_query :: "string \<Rightarrow> json" where
  "rollback_query time = JObj [(''time'', JStr time)]"

definition get_header_from_spv ::
  "(bytes \<Rightarrow> go_error + 'h) \<Rightarrow> 'w rest_client \<Rightarrow> u32 \<Rightarrow> 'w \<Rightarrow> (go_error + 'h) go \<times> 'w" where
  "get_header_from_spv decode_header c height w =
     with_result (\<lambda>res. go_bind (member_of ''header'' res) (\<lambda>h. go_bind (as_string h) (\<lambda>s. Ret
         (case hex_decode s of Inl err \<Rightarrow> Inl (Errorf ''Failed to decode hex string from response: %v'' err)
          | Inr hbs \<Rightarrow> (case decode_header hbs of Inl err \<Rightarrow> Inl (Errorf ''Failed to decode header: %v'' err)
            | Inr header \<Rightarrow> Inr header)))))
       (post_query c ''/api/v1/queryheaderbyheight'' (header_query height) w)"

record transaction_input =
  Txid :: string
  Vout :: u32

primrec spv_inputs :: "(string \<Rightarrow> rat) \<Rightarrow> (rat \<Rightarrow> u32) \<Rightarrow> json list \<Rightarrow> transaction_input list go" where
  "spv_inputs flt cvt [] = Ret []"
| "spv_inputs flt cvt (v # vs) =
     go_bind (member_of ''txid'' v) (\<lambda>t. go_bind (as_string t) (\<lambda>txid.
     go_bind (member_of ''vout'' v) (\<lambda>o'. go_bind (as_float flt o') (\<lambda>vout.
     go_bind (spv_inputs flt cvt vs) (\<lambda>ins. Ret (\<lparr>Txid = txid, Vout = float_to_u32 cvt vout\<rparr> # ins))))))"

definition get_utxos_from_spv ::
  "(string \<Rightarrow> rat) \<Rightarrow> (rat \<Rightarrow> u32) \<Rightarrow> (rat \<Rightarrow> u64) \<Rightarrow> 'w rest_client \<Rightarrow> string \<Rightarrow> u64 \<Rightarrow> u64 \<Rightarrow> bool \<Rightarrow> 'w
     \<Rightarrow> (go_error + transaction_input list \<times> u64) go \<times> 'w" where
  "get_utxos_from_spv flt cvt cvt64 c a amount fee isPreExec w =
     with_result (\<lambda>res. go_bind (member_of ''inputs'' res) (\<lambda>i. go_bind (as_array i) (\<lambda>vs.
         go_bind (spv_inputs flt cvt vs) (\<lambda>ins. go_bind (member_of ''sum'' res) (\<lambda>s. go_bind (as_float flt s) (\<lambda>sum.
           Ret (Inr (ins, float_to_i64 cvt64 sum))))))))
       (post_query c ''/api/v1/queryutxos'' (utxos_query a amount fee isPreExec) w)"

definition get_current_height_from_spv ::
  "(string \<Rightarrow> rat) \<Rightarrow> (rat \<Rightarrow> u32) \<Rightarrow> 'w rest_client \<Rightarrow> 'w \<Rightarrow> (go_error + u32) go \<times> 'w" where
  "get_current_height_from_spv flt cvt c w =
     with_result (\<lambda>res. go_bind (member_of ''height'' res) (\<lambda>h. go_bind (as_float flt h) (\<lambda>f.
         Ret (Inr (float_to_u32 cvt f)))))
       (get_query c ''/api/v1/getcurrentheight'' w)"

definition change_spv_watched_addr :: "'w rest_client \<Rightarrow> string \<Rightarrow> string \<Rightarrow> 'w \<Rightarrow> go_error option \<times> 'w" where
  "change_spv_watched_addr c a act w =
     no_result (post_query c ''/api/v1/changeaddress'' (change_address_query act a) w)"

primrec strings_of :: "json list \<Rightarrow> string list go" where
  "strings_of [] = Ret []"
| "strings_of (v # vs) = go_bind (as_string v) (\<lambda>s. go_bind (strings_of vs) (\<lambda>ss. Ret (s # ss)))"

definition get_watched_addrs_from_spv :: "'w rest_client \<Rightarrow> 'w \<Rightarrow> (go_error + string list) go \<times> 'w" where
  "get_watched_addrs_from_spv c w =
     with_result (\<lambda>res. go_bind (member_of ''addresses'' res) (\<lambda>a. go_bind (as_array a) (\<lambda>vs.
         go_bind (strings_of vs) (\<lambda>addrs. Ret (Inr addrs)))))
       (get_query c ''/api/v1/getalladdress'' w)"

definition unlock_utxo_in_spv :: "'w rest_client \<Rightarrow> string \<Rightarrow> u32 \<Rightarrow> 'w \<Rightarrow> go_error option \<times> 'w" where
  "unlock_utxo_in_spv c hash i w =
     no_result (post_query c ''/api/v1/unlockutxo'' (unlock_query hash i) w)"

definition get_fee_rate_from_spv ::
  "(string \<Rightarrow> rat) \<Rightarrow> (rat \<Rightarrow> u64) \<Rightarrow> 'w rest_client \<Rightarrow> u64 \<Rightarrow> 'w \<Rightarrow> (go_error + u64) go \<times> 'w" where
  "get_fee_rate_from_spv flt cvt64 c lvl w =
     with_result (\<lambda>res. go_bind (member_of ''feepb'' res) (\<lambda>h. go_bind (as_float flt h) (\<lambda>f.
         Ret (Inr (float_to_i64 cvt64 f)))))
       (post_query c ''/api/v1/getfeeperbyte'' (fee_query lvl) w)"

definition broadcast_tx_by_spv ::
  "('tx \<Rightarrow> go_error + bytes) \<Rightarrow> 'w rest_client \<Rightarrow> 'tx \<Rightarrow> 'w \<Rightarrow> go_error option \<times> 'w" where
  "broadcast_tx_by_spv encode_tx c mtx w =
     (case encode_tx mtx of Inl err \<Rightarrow> (Some err, w)
      | Inr buf \<Rightarrow> no_result (post_query c ''/api/v1/broadcasttx'' (broadcast_query (hex_encode buf)) w))"

definition rollback_spv :: "'w rest_client \<Rightarrow> string \<Rightarrow> 'w \<Rightarrow> go_error option \<times> 'w" where
  "rollback_spv c time w = no_result (post_query c ''/api/v1/rollback'' (rollback_query time) w)"

section \<open>The answer with all outputs\<close>

text \<open>
  \<open>GetAllUtxosFromSpv\<close> decodes into a struct. A slice is its backing array as far as it was ever
  written, with the length: when a key comes twice, the second list is decoded over the elements of
  the first, and a member that is missing there keeps the old value.
\<close>

record utxo_info =
  Outpoint :: string
  Val :: u64
  IsLock :: bool
  utxo_height :: u32
  utxo_script :: string

type_synonym utxo_slice = "utxo_info list \<times> nat"

definition zero_utxo :: utxo_info where
  "zero_utxo = \<lparr>Outpoint = [], Val = 0, IsLock = False, utxo_height = 0, utxo_script = []\<rparr>"

definition decode_int32 :: "json \<Rightarrow> u32 \<Rightarrow> go_error + u32" where
  "decode_int32 j old =
     (case j of JNum lit \<Rightarrow> (case parse_int lit of Inl e \<Rightarrow> Inl type_error
        | Inr n \<Rightarrow> if - (2 ^ 31) \<le> sint n \<and> sint n < 2 ^ 31 then Inr (ucast n) else Inl type_error)
      | JNull \<Rightarrow> Inr old | _ \<Rightarrow> Inl type_error)"

definition decode_bool :: "json \<Rightarrow> bool \<Rightarrow> go_error + bool" where
  "decode_bool j old = (case j of JBool b \<Rightarrow> Inr b | JNull \<Rightarrow> Inr old | _ \<Rightarrow> Inl type_error)"

text \<open>A member is stored, or left as it was with the first error kept.\<close>

definition store_member :: "('a \<Rightarrow> 's) \<Rightarrow> go_error + 'a \<Rightarrow> 's \<times> go_error option \<Rightarrow> 's \<times> go_error option" where
  "store_member put res st = (case res of Inl e \<Rightarrow> (fst st, keep_error (snd st) e) | Inr v \<Rightarrow> (put v, snd st))"

definition decode_utxo_member :: "string \<times> json \<Rightarrow> utxo_info \<times> go_error option \<Rightarrow> utxo_info \<times> go_error option" where
  "decode_utxo_member kv st =
     (let u = fst st; j = snd kv; name = fold_key (fst kv) in
      if name = ''outpoint'' then store_member (\<lambda>s. u\<lparr>Outpoint := s\<rparr>) (decode_string j (Outpoint u)) st
      else if name = ''val'' then store_member (\<lambda>n. u\<lparr>Val := n\<rparr>) (decode_int64 j (Val u)) st
      else if name = ''is_lock'' then store_member (\<lambda>b. u\<lparr>IsLock := b\<rparr>) (decode_bool j (IsLock u)) st
      else if name = ''height'' then store_member (\<lambda>n. u\<lparr>utxo_height := n\<rparr>) (decode_int32 j (utxo_height u)) st
      else if name = ''script'' then store_member (\<lambda>s. u\<lparr>utxo_script := s\<rparr>) (decode_string j (utxo_script u)) st
      else st)"

definition decode_utxo :: "json \<Rightarrow> utxo_info \<times> go_error option \<Rightarrow> utxo_info \<times> go_error option" where
  "decode_utxo j st =
     (case j of JObj kvs \<Rightarrow> fold decode_utxo_member kvs st
      | JNull \<Rightarrow> st | _ \<Rightarrow> (fst st, keep_error (snd st) type_error))"

primrec decode_elements :: "json list \<Rightarrow> utxo_info list \<Rightarrow> go_error option \<Rightarrow> utxo_info list \<times> go_error option" where
  "decode_elements [] buf err = (buf, err)"
| "decode_elements (j # js) buf err =
     (let (u, err) = decode_utxo j (case buf of [] \<Rightarrow> zero_utxo | b # _ \<Rightarrow> b, err);
          (us, err) = decode_elements js (tl buf) err
      in (u # us, err))"

definition decode_infos :: "json \<Rightarrow> utxo_slice \<times> go_error option \<Rightarrow> utxo_slice \<times> go_error option" where
  "decode_infos j st =
     (case j of JArr [] \<Rightarrow> (([], 0), snd st)
      | JArr js \<Rightarrow> (let (buf, err) = decode_elements js (fst (fst st)) (snd st) in ((buf, length js), err))
      | JNull \<Rightarrow> (([], 0), snd st)
      | _ \<Rightarrow> (fst st, keep_error (snd st) type_error))"

definition decode_all_utxos_resp :: "json \<Rightarrow> utxo_slice \<times> go_error option \<Rightarrow> utxo_slice \<times> go_error option" where
  "decode_all_utxos_resp j st =
     (case j of
        JObj kvs \<Rightarrow> fold (\<lambda>kv st. if fold_key (fst kv) = ''infos'' then decode_infos (snd kv) st else st) kvs st
      | JNull \<Rightarrow> st | _ \<Rightarrow> (fst st, keep_error (snd st) type_error))"

definition decode_all_member ::
  "string \<times> json \<Rightarrow> (response \<times> utxo_slice) \<times> go_error option \<Rightarrow> (response \<times> utxo_slice) \<times> go_error option" where
  "decode_all_member kv st =
     (let ((resp, infos), err) = st in
      if fold_key (fst kv) = ''result''
      then (let (infos, err) = decode_all_utxos_resp (snd kv) (infos, err) in ((resp, infos), err))
      else (let (resp, err) = decode_member kv (resp, err) in ((resp, infos), err)))"

definition unmarshal_all_utxos :: "string \<Rightarrow> go_error + response \<times> utxo_info list" where
  "unmarshal_all_utxos data =
     (case parse_json data of Inl e \<Rightarrow> Inl e
      | Inr (JObj kvs) \<Rightarrow> (case fold decode_all_member kvs ((zero_response, ([], 0)), None) of
          ((resp, buf, n), None) \<Rightarrow> Inr (resp, take n buf) | (_, Some e) \<Rightarrow> Inl e)
      | Inr JNull \<Rightarrow> Inr (zero_response, [])
      | Inr _ \<Rightarrow> Inl type_error)"

definition get_all_utxos_from_spv :: "'w rest_client \<Rightarrow> 'w \<Rightarrow> (go_error + utxo_info list) \<times> 'w" where
  "get_all_utxos_from_spv c w =
     (case send_get_request c (''http://'' @ Addr c @ ''/api/v1/getallutxos'') w of
        (Inl err, w) \<Rightarrow> (Inl (Errorf ''Failed to send request: %v'' err), w)
      | (Inr data, w) \<Rightarrow>
     (case unmarshal_all_utxos data of
        Inl err \<Rightarrow> (Inl (Errorf ''Failed to unmarshal resp to json: %v'' err), w)
      | Inr (resp, infos) \<Rightarrow>
          if Error resp \<noteq> 0 \<or> Desc resp \<noteq> ''SUCCESS''
          then (Inl (Text (''Response shows failure: '' @ Desc resp)), w) else (Inr infos, w)))"

text \<open>The client reads back the outputs that a node answers with.\<close>

definition utxo_json :: "utxo_info \<Rightarrow> json" where
  "utxo_json u =
     JObj [(''outpoint'', JStr (Outpoint u)), (''val'', JNum (format_int (Val u))), (''is_lock'', JBool (IsLock u)),
           (''height'', JNum (format_int (scast (utxo_height u)))), (''script'', JStr (utxo_script u))]"

definition all_utxos_answer :: "response \<Rightarrow> utxo_info list \<Rightarrow> json" where
  "all_utxos_answer resp us =
     JObj [(''action'', JStr (Action resp)), (''desc'', JStr (Desc resp)), (''error'', JNum (format_nat (unat (Error resp)))),
           (''result'', JObj [(''infos'', JArr (map utxo_json us))])]"

lemma decode_int32_format: "decode_int32 (JNum (format_int (scast h))) old = Inr h"
proof -
  have "sint (scast h :: u64) = sint h" by (simp add: sint_up_scast is_up)
  moreover have "- (2 ^ 31) \<le> sint h" "sint h < 2 ^ 31" using sint_ge [of h] sint_lt [of h] by simp_all
  moreover have "(ucast (scast h :: u64) :: u32) = h" by (rule bit_word_eqI) (simp add: bit_simps)
  ultimately show ?thesis by (simp add: decode_int32_def parse_int_format)
qed

lemma fold_key_utxo:
  "fold_key ''outpoint'' = ''outpoint''" "fold_key ''val'' = ''val''" "fold_key ''is_lock'' = ''is_lock''"
  "fold_key ''height'' = ''height''" "fold_key ''script'' = ''script''" "fold_key ''infos'' = ''infos''"
  by (simp_all add: lower_char_def)

lemma decode_utxo_member_simps:
  "decode_utxo_member (''outpoint'', JStr s) (v, err) = (v\<lparr>Outpoint := s\<rparr>, err)"
  "decode_utxo_member (''val'', JNum (format_int n)) (v, err) = (v\<lparr>Val := n\<rparr>, err)"
  "decode_utxo_member (''is_lock'', JBool b) (v, err) = (v\<lparr>IsLock := b\<rparr>, err)"
  "decode_utxo_member (''height'', JNum (format_int (scast h))) (v, err) = (v\<lparr>utxo_height := h\<rparr>, err)"
  "decode_utxo_member (''script'', JStr s) (v, err) = (v\<lparr>utxo_script := s\<rparr>, err)"
  unfolding decode_utxo_member_def Let_def fst_conv snd_conv fold_key_utxo decode_int32_format
  by (simp_all add: store_member_def decode_string_def decode_int64_def parse_int_format decode_bool_def)

lemma decode_utxo_json: "decode_utxo (utxo_json u) (v, err) = (u, err)"
  by (simp add: decode_utxo_def utxo_json_def decode_utxo_member_simps)

lemma decode_elements_json: "decode_elements (map utxo_json us) [] None = (us, None)"
  by (induction us) (simp_all add: decode_utxo_json)

lemma utxo_json_ok: "json_ok (utxo_json u)"
  by (simp add: utxo_json_def number_ok_format_int)

lemma decode_all_member_simps:
  "decode_all_member (''action'', j) ((resp, sl), err) = (let (r, e) = decode_member (''action'', j) (resp, err) in ((r, sl), e))"
  "decode_all_member (''desc'', j) ((resp, sl), err) = (let (r, e) = decode_member (''desc'', j) (resp, err) in ((r, sl), e))"
  "decode_all_member (''error'', j) ((resp, sl), err) = (let (r, e) = decode_member (''error'', j) (resp, err) in ((r, sl), e))"
  "decode_all_member (''result'', JObj [(''infos'', j)]) ((resp, sl), err) =
     (let (sl, e) = decode_infos j (sl, err) in ((resp, sl), e))"
  unfolding decode_all_member_def Let_def fst_conv snd_conv prod.case fold_key_ascii
    decode_all_utxos_resp_def json.case
  by (simp_all add: fold_key_utxo del: fold_key.simps)

definition valid_utxo :: "utxo_info \<Rightarrow> utxo_info" where
  "valid_utxo u = u\<lparr>Outpoint := to_valid_utf8 (Outpoint u), utxo_script := to_valid_utf8 (utxo_script u)\<rparr>"

lemma valid_json_utxo: "valid_json (utxo_json u) = utxo_json (valid_utxo u)"
  by (simp add: utxo_json_def valid_utxo_def)

lemma valid_json_answer:
  "valid_json (all_utxos_answer resp us) = all_utxos_answer (valid_response resp) (map valid_utxo us)"
  by (simp add: all_utxos_answer_def valid_response_def valid_json_utxo)

lemma all_utxos_read:
  "unmarshal_all_utxos (print_json (all_utxos_answer resp us))
     = Inr ((valid_response resp)\<lparr>Result := JNull\<rparr>, map valid_utxo us)"
proof -
  have "list_all id (map json_ok (map utxo_json us))" by (induction us) (simp_all add: utxo_json_ok)
  then have "json_ok (all_utxos_answer resp us)"
    by (simp add: all_utxos_answer_def number_ok_format)
  then have parsed: "parse_json (print_json (all_utxos_answer resp us))
      = Inr (all_utxos_answer (valid_response resp) (map valid_utxo us))"
    unfolding valid_json_answer [symmetric] by (rule parse_print_json)
  have infos: "decode_infos (JArr (map utxo_json us)) (([], 0), None) = ((us, length us), None)" for us
    using decode_elements_json [of us] by (cases us) (auto simp: decode_infos_def Let_def split: prod.splits)
  show ?thesis
    unfolding unmarshal_all_utxos_def parsed unfolding all_utxos_answer_def
    by (simp add: decode_all_member_simps infos decode_member_simps zero_response_def del: map_map)
qed

section \<open>Malformed results\<close>

lemma as_string_Ret: "as_string j = Ret s \<longleftrightarrow> j = JStr s"
  by (simp add: as_string_def split: json.split)

lemma as_float_Ret: "as_float flt j = Ret f \<longleftrightarrow> (\<exists>lit. j = JNum lit \<and> f = flt lit)"
  by (auto simp: as_float_def split: json.split)

lemma as_array_Ret: "as_array j = Ret vs \<longleftrightarrow> j = JArr vs"
  by (simp add: as_array_def split: json.split)

lemma member_of_Ret:
  "v \<noteq> JNull \<Longrightarrow> member_of k j = Ret v \<longleftrightarrow> (\<exists>kvs. j = JObj kvs \<and> map_of (rev kvs) k = Some v)"
  by (auto simp: member_of_def split: json.split option.splits)

text \<open>What an element of \<open>inputs\<close> has to be.\<close>

definition utxo_shape :: "json \<Rightarrow> bool" where
  "utxo_shape v \<longleftrightarrow> (\<exists>kvs t lit. v = JObj kvs \<and> map_of (rev kvs) ''txid'' = Some (JStr t)
     \<and> map_of (rev kvs) ''vout'' = Some (JNum lit))"

lemma spv_inputs_Ret: "(\<exists>ins. spv_inputs flt cvt vs = Ret ins) \<longleftrightarrow> list_all utxo_shape vs"
proof (induction vs)
  case (Cons v vs)
  have "(\<exists>ins. spv_inputs flt cvt (v # vs) = Ret ins) \<longleftrightarrow>
      (\<exists>t. member_of ''txid'' v = Ret (JStr t)) \<and> (\<exists>lit. member_of ''vout'' v = Ret (JNum lit))
      \<and> (\<exists>ins. spv_inputs flt cvt vs = Ret ins)"
    by (auto simp: go_bind_Ret_iff as_string_Ret as_float_Ret)
  also have "\<dots> \<longleftrightarrow> list_all utxo_shape (v # vs)"
    unfolding Cons.IH list.pred_inject by (auto simp: member_of_Ret utxo_shape_def [of v])
  finally show ?case .
qed simp

text \<open>
  C40: When the node answers \<open>queryutxos\<close> with success, \<open>GetUtxosFromSpv\<close> returns without a panic
  exactly if the result is an object with a number \<open>sum\<close> and a list \<open>inputs\<close> of objects that each
  carry a string \<open>txid\<close> and a number \<open>vout\<close>: the type assertions have no second value, so every
  other result ends the goroutine instead of being reported.
\<close>

theorem spv_utxos_panic_free:
  assumes "client_post (restClient c) (''http://'' @ Addr c @ ''/api/v1/queryutxos'')
             (print_json (utxos_query a amount fee pre)) w = (Inr (Inr data), w')"
    and "unmarshal_response data = Inr \<lparr>Action = act, Desc = ''SUCCESS'', Error = 0, Result = res\<rparr>"
  shows "(\<exists>r. get_utxos_from_spv flt cvt cvt64 c a amount fee pre w = (Ret r, w')) \<longleftrightarrow>
     (\<exists>kvs vs lit. res = JObj kvs \<and> map_of (rev kvs) ''inputs'' = Some (JArr vs) \<and> list_all utxo_shape vs
        \<and> map_of (rev kvs) ''sum'' = Some (JNum lit))"
proof -
  have "post_query c ''/api/v1/queryutxos'' (utxos_query a amount fee pre) w = (Inr res, w')"
    using assms by (simp add: post_query_def send_rest_request_def checked_response_def)
  then have "(\<exists>r. get_utxos_from_spv flt cvt cvt64 c a amount fee pre w = (Ret r, w')) \<longleftrightarrow>
      (\<exists>vs. member_of ''inputs'' res = Ret (JArr vs) \<and> (\<exists>ins. spv_inputs flt cvt vs = Ret ins))
      \<and> (\<exists>lit. member_of ''sum'' res = Ret (JNum lit))"
    by (auto simp: get_utxos_from_spv_def with_result_def go_bind_Ret_iff as_array_Ret as_float_Ret)
  also have "\<dots> \<longleftrightarrow> (\<exists>kvs vs lit. res = JObj kvs \<and> map_of (rev kvs) ''inputs'' = Some (JArr vs)
      \<and> list_all utxo_shape vs \<and> map_of (rev kvs) ''sum'' = Some (JNum lit))"
    by (auto simp: spv_inputs_Ret member_of_Ret)
  finally show ?thesis .
qed

text \<open>A node that answers every request with success and an empty object.\<close>

definition empty_result :: response where
  "empty_result = \<lparr>Action = [], Desc = ''SUCCESS'', Error = 0, Result = JObj []\<rparr>"

definition sample_client :: "nat rest_client" where
  "sample_client = new_rest_client (\<lambda>settings. \<lparr>client_post = \<lambda>u d w. (Inr (Inr (marshal_response empty_result)), w),
     client_get = \<lambda>u w. (Inr (Inr (marshal_response empty_result)), w)\<rparr>) ''10.0.0.2:50071''"

theorem spv_utxos_panic_free_witness:
  "\<nexists>r. get_utxos_from_spv (\<lambda>l. 0) (\<lambda>f. 0) (\<lambda>f. 0) sample_client ''addr'' 10 1 False 0 = (Ret r, 0)"
proof -
  have "unmarshal_response (marshal_response empty_result) = Inr (valid_response empty_result)"
    by (rule unmarshal_marshal_response) (simp_all add: empty_result_def)
  then have resp: "unmarshal_response (marshal_response empty_result) =
      Inr \<lparr>Action = [], Desc = ''SUCCESS'', Error = 0, Result = JObj []\<rparr>"
    by (simp add: empty_result_def valid_response_def)
  show ?thesis
    by (subst spv_utxos_panic_free [OF _ resp]) (simp_all add: sample_client_def new_rest_client_def)
qed

end
