(* ===== verification/Spec2Isabelle.thy ===== *)
theory Spec2Isabelle
  imports DB_Properties Signer_Properties Observer_Properties Rest_Properties Web_Properties
    Config_Properties Run_Properties Crash_Properties Lifetimes No_Loss Rest_Client Vendor_Log
begin

text \<open>
  The vendor tool of the Poly network for Bitcoin.

  A vendor holds one key of a multi-signature redeem script that locks bitcoins for a cross-chain
  token. The program watches the Poly chain for Bitcoin transactions that wait for the vendor's
  signature (the observer), signs their inputs and submits the signatures to the chain (the signer),
  and keeps what it signed in a LevelDB with a cache of the youngest items (the database). Observer and
  signer run in one process over a channel, or in two over a REST interface. A web interface
  creates keys, redeem scripts and signatures over contract bindings and parameters, and starts the
  tool.

  \<^bold>\<open>Theories and code.\<close>
  \<^item> \<open>Prelude\<close>: machine integers as words, byte strings, error values, the outcomes of
    a Go function (\<open>Ret\<close>, \<open>Panic\<close>), the retry loop \<open>RETRY: ... goto RETRY\<close>,
    and the locale \<open>run_system\<close> of a state with operations that keep an invariant.
  \<^item> \<open>Go_Bytes\<close>, \<open>Go_Strings\<close>, \<open>Go_Time\<close>, \<open>Go_Utf8\<close>, \<open>Go_Json\<close>:
    what the program uses of the standard library: big-endian integers and readers, hex, decimal numbers and
    trimming, the binary form of \<open>time.Time\<close>, code points in byte strings, and JSON printing and
    parsing, in which bytes that are no UTF-8 become the replacement character.
  \<^item> \<open>Vendor_Utils\<close>: \<open>utils/utils.go\<close>, the messages \<open>ToSignItem\<close> and
    \<open>SavedItem\<close> with their byte formats and the heap of saved items.
  \<^item> \<open>Vendor_DB\<close>: \<open>db/db.go\<close>, the database and its cache; \<open>Tx_Store\<close> is
    the contract between the database and its clients (a map), and \<open>Vendor_DB_Contract\<close> proves
    that the database meets it.
  \<^item> \<open>Poly_Client\<close>: the answers of the Poly chain and the retry on connection errors
    (the locale \<open>retried_call\<close>).
  \<^item> \<open>Vendor_Signer\<close>: \<open>signer/signer.go\<close>, \<open>NewSigner\<close>, \<open>getSigs\<close>,
    \<open>Signing\<close> and \<open>Sign\<close>.
  \<^item> \<open>Vendor_Observer\<close>: \<open>observer/alliaob.go\<close>, \<open>NewObserver\<close>, \<open>Listen\<close>
    and \<open>checkEvents\<close>; \<open>Observer_Facts\<close> are its lemmas.
  \<^item> \<open>Rest_Common\<close>, \<open>Rest_Router\<close>, \<open>Rest_Server\<close>: the requests and responses
    between observer and signer (\<open>rest/http/common\<close>, \<open>rest/utils\<close>,
    \<open>rest/http/restful\<close>, \<open>rest/service\<close>), the router with its path parameters, and the server that
    answers them, with its handlers, header lines, start and stop; \<open>Http_Message\<close>: requests, answers
    and queries of Go's \<open>net/http\<close> and \<open>net/url\<close>; \<open>Rest_Client\<close>: the client of the
    SPV node (\<open>rest/http/restful/rest_client.go\<close>).
  \<^item> \<open>Pipeline\<close>: mode \<open>all\<close>, observer and signer as two goroutines that share the
    channel and the database, their steps interleaved in any order. Every try of a call that is
    repeated after an error is a step of its own, so that the other goroutine moves during the waits. A
    goroutine that panics has no step; that the other one could still go on only adds runs, since the
    panic ends the process.
  \<^item> \<open>Web_Service\<close>, \<open>Web_Controller\<close>: \<open>web/service\<close>, \<open>web/controller\<close>
    and \<open>web/router\<close>, the pages and what they change; \<open>Web_Invariants\<close>: what every page keeps
    (the locale \<open>kept_by_pages\<close>).
  \<^item> \<open>Vendor_Config\<close>: \<open>config/config.go\<close>, the configuration with its text in the
    file; \<open>Vendor_Flags\<close>: \<open>config/flags.go\<close>, the flags and their defaults;
    \<open>Vendor_Run\<close>: \<open>cmd/run.go\<close>, from the command line to the running goroutines, and
    \<open>waitToExit\<close>;
    \<open>Vendor_Log\<close>: \<open>log/log.go\<close>.
  \<^item> \<open>Sample_World\<close>, \<open>Sample_Node\<close>: concrete stand-ins for the modules outside
    the repository, on which the properties are applied.

  \<^bold>\<open>How code and model correspond.\<close> A struct is a record, an \<open>error\<close> result is a
  sum whose left side is the error, an index or assertion that Go checks at run time is a
  \<open>Panic\<close>. A pointer that may be nil is an option. Integers keep their width. Operations that
  touch the world outside (chain, network, files, clock) take it as an argument \<open>'w\<close> and return
  the new one; a loop that may run forever is a partial function into an option, and \<open>None\<close> is
  the run that does not return. A library outside the repository is a record of functions:
  \<open>btcd\<close>, \<open>leveldb\<close>, \<open>node\<close>, \<open>web_env\<close>, \<open>store_env\<close>,
  \<open>files\<close>, \<open>http_client\<close>. What a property needs of one is a hypothesis of the property
  (for instance that LevelDB returns what was put), met by the stand-ins of \<open>Sample_World\<close>.

  \<^bold>\<open>What is proved.\<close>
  \<^item> \<open>DB_Properties\<close>: the database refines a map; under any failures of LevelDB it never
    returns an item of another key; the cache holds the last 100 puts; after reopening the first
    batch is the youngest 100; the byte formats read back what they wrote and reject prefixes.
    \<open>Cut_Writes\<close>: what is on the disk when the process ends between the two writes of a put, as
    \<open>PutSignedTx\<close> itself run on a LevelDB that lets a number of writes through.
  \<^item> \<open>Signer_Properties\<close>: one signature per input of the stripped transaction; an item is
    stored exactly when the chain accepted it; \<open>Signing\<close> works off its channel; when a round
    comes to an end, when it panics, and which call decides it; \<open>Sign\<close>, a second copy of the
    round in the code and here, agrees with \<open>Signing\<close>.
  \<^item> \<open>Observer_Properties\<close>: every block after the start height is delivered once and in
    order; what one block's events cause, and which of them panic; a tick catches up; the checkpoint is
    the start height after a restart; the behaviour at a node that is behind and at the largest height.
  \<^item> \<open>Pipeline_Properties\<close>: from every reachable state the two goroutines can come to rest with every
    captured item stored. \<open>No_Loss\<close>: in every reachable state the transactions to sign of the blocks
    fetched so far are in the database, in the signer's hands, in the channel (at most 100) or still to be
    looked at, in chain order, but for those that were refused. \<open>Pipeline_Refinement\<close>: the loops of the two goroutines are runs
    of the interleaved system. \<open>Crash_Properties\<close>: the checkpoint can be ahead of what is stored, and from
    where a restart then goes on, with and without a configured start height.
    \<open>End_To_End\<close>: what the blocks of a tick ask to be signed can come to stand in the database.
  \<^item> \<open>Lifetimes\<close>: over any number of lives of the process, each ended by a kill at any moment (between
    the two writes of a put too), what LevelDB once held it still holds, with \<open>Done\<close> never taken back,
    and the next start neither fails nor panics; a kill loses at most 101 of the captured items, those in
    the channel and the one in the signer's hands.
  \<^item> \<open>Rest_Properties\<close>: responses are read back; the remote signature is the local one;
    the observer of mode \<open>onlyob\<close> never sees a success.
  \<^item> \<open>Web_Properties\<close>: what the signed messages bind, what the pages register and show, and
    when the start page ends.
  \<^item> \<open>Config_Properties\<close>, \<open>Run_Properties\<close>: a saved configuration is loaded as it
    was, but for text that is no UTF-8, and files with members of other types are refused; a start runs the
    goroutines of its mode, what it leaves of the chain id, and the starts that fail or panic, with the
    goroutines that already ran then (\<open>left_running\<close>).
  \<^item> \<open>Rest_Client\<close>, \<open>Rest_Router\<close>, \<open>Vendor_Log\<close> and others have facts that are
    no numbered properties: which results of the SPV node crash
    the client, and that its outputs are read back; that a path filled with words gives these words; the
    names of the levels.

  \<^bold>\<open>Bounds.\<close> The cache holds \<open>CACHE_SIZE\<close> = 100 items and the channel
  \<open>CHANNEL_SIZE\<close> = 100, the constants of the code. The JSON parser runs on fuel \<open>2 * n + 1\<close>
  for a text of \<open>n\<close> characters: every call uses one unit and two nested calls read at least
  one character, so that more fuel changes nothing (\<open>parse_fuel_enough\<close>). No other definition
  has fuel.

  \<^bold>\<open>Not modelled.\<close>
  \<^item> The test files, page templates and the static start page.
  \<^item> Paths with characters that are special in a regular expression, which no registered path has.
  \<^item> Time stamps of the standard logger, \<open>Wait\<close> (a pause) and what the number of threads does;
    they do not reach the modelled state. \<open>NewService\<close> wraps the signer, which stands for it.
  \<^item> The item that goes over the channel is a value here; in the code it is a pointer. The observer
    reads it once more after it has sent it, while the signer strips the transaction's scripts, but only
    to log the hash of the stripped transaction.
  \<^item> Requests to the web page after the one that closes \<open>done\<close>.
\<close>

end
